(* ===== verification/Prelude.thy ===== *)
theory Prelude
  imports Main "HOL-Library.Word" "HOL-Library.Char_ord" "HOL-Library.List_Lexorder"
    "HOL-Library.AList" "HOL-Library.Multiset"
begin

text \<open>
  Shared vocabulary of the development.

  \<^item> \<^verbatim>\<open>outcome\<close>: what a Go call that may fail returns. \<^verbatim>\<open>Ok v\<close> is a
    value with a nil error, \<^verbatim>\<open>Err e\<close> a non-nil error and \<^verbatim>\<open>Panic\<close>
    a run-time panic (a slice bound out of range, a nil dereference).
  \<^item> \<^verbatim>\<open>gomap\<close>: a Go \<^verbatim>\<open>map[string]string\<close>. It is an association list
    because the code ranges over maps and Go leaves the order of that iteration
    open; the list is one such order. \<^verbatim>\<open>gomap_wf\<close> says that no key is
    bound twice, \<^verbatim>\<open>gomap_get\<close> is the index expression (the empty string
    for a missing key) and \<^verbatim>\<open>gomap_put\<close> the assignment.
  \<^item> \<^verbatim>\<open>char_code\<close>: a Go string is a sequence of bytes; a character of the model is
    one byte and \<^verbatim>\<open>char_code\<close> its value.
  \<^item> the collection \<^verbatim>\<open>ascii_simps\<close> holds the facts that evaluate bytes.
\<close>

named_theorems ascii_simps "evaluation of the character classes on bytes"

section \<open>Results of calls\<close>

datatype ('e, 'a) outcome = Ok 'a | Err 'e | Panic

fun bind_outcome :: "('e, 'a) outcome \<Rightarrow> ('a \<Rightarrow> ('e, 'b) outcome) \<Rightarrow> ('e, 'b) outcome" where
  "bind_outcome (Ok v) f = f v"
| "bind_outcome (Err e) f = Err e"
| "bind_outcome Panic f = Panic"

lemma bind_outcome_Ok_iff:
  "bind_outcome m f = Ok w \<longleftrightarrow> (\<exists>v. m = Ok v \<and> f v = Ok w)"
  by (cases m) auto

lemma bind_outcome_eq_Err:
  "bind_outcome m f = Err e \<longleftrightarrow> m = Err e \<or> (\<exists>v. m = Ok v \<and> f v = Err e)"
  by (cases m) auto

lemma bind_outcome_cong [fundef_cong]:
  assumes "m = m'" and "\<And>v. m' = Ok v \<Longrightarrow> f v = f' v"
  shows "bind_outcome m f = bind_outcome m' f'"
  using assms by (cases m') auto

section \<open>Bytes\<close>

type_synonym byte = nat
type_synonym rune = nat

abbreviation char_code :: "char \<Rightarrow> byte" where
  "char_code c \<equiv> of_char c"

lemma char_code_less [simp]: "char_code c < 256"
  by simp

lemma char_code_inj [simp]: "char_code c = char_code d \<longleftrightarrow> c = d"
  by (simp add: of_char_eq_iff)

lemma char_of_eq: "char_code c = n \<Longrightarrow> char_of n = c"
  by auto

lemma char_of_digits [ascii_simps]:
  "char_of (48::nat) = CHR ''0''"
  "char_of (49::nat) = CHR ''1''"
  "char_of (50::nat) = CHR ''2''"
  "char_of (51::nat) = CHR ''3''"
  "char_of (52::nat) = CHR ''4''"
  "char_of (53::nat) = CHR ''5''"
  "char_of (54::nat) = CHR ''6''"
  "char_of (55::nat) = CHR ''7''"
  "char_of (56::nat) = CHR ''8''"
  "char_of (57::nat) = CHR ''9''"
  by (rule char_of_eq, simp)+

section \<open>Go maps\<close>

type_synonym gomap = "(string \<times> string) list"

definition gomap_wf :: "gomap \<Rightarrow> bool" where
  "gomap_wf m \<longleftrightarrow> distinct (map fst m)"

definition gomap_lookup :: "gomap \<Rightarrow> string \<Rightarrow> string option" where
  "gomap_lookup m k = map_of m k"

definition gomap_get :: "gomap \<Rightarrow> string \<Rightarrow> string" where
  "gomap_get m k = (case gomap_lookup m k of None \<Rightarrow> '''' | Some v \<Rightarrow> v)"

definition gomap_put :: "gomap \<Rightarrow> string \<Rightarrow> string \<Rightarrow> gomap" where
  "gomap_put m k v = AList.update k v m"

lemma gomap_lookup_put [simp]:
  "gomap_lookup (gomap_put m k v) k' = (if k' = k then Some v else gomap_lookup m k')"
  by (simp add: gomap_lookup_def gomap_put_def update_conv)

lemma gomap_get_put [simp]:
  "gomap_get (gomap_put m k v) k' = (if k' = k then v else gomap_get m k')"
  by (simp add: gomap_get_def)

lemma gomap_wf_put [simp]: "gomap_wf m \<Longrightarrow> gomap_wf (gomap_put m k v)"
  by (simp add: gomap_wf_def gomap_put_def distinct_update)

lemma gomap_wf_Nil [simp]: "gomap_wf []"
  by (simp add: gomap_wf_def)

lemma gomap_lookup_Nil [simp]: "gomap_lookup [] k = None"
  by (simp add: gomap_lookup_def)

lemma gomap_lookup_Cons [simp]:
  "gomap_lookup ((a, b) # m) k = (if k = a then Some b else gomap_lookup m k)"
  by (simp add: gomap_lookup_def)

section \<open>Lists\<close>

lemma list_all_concat: "list_all P (concat xss) \<longleftrightarrow> list_all (list_all P) xss"
  by (induction xss) auto

lemma list_all_take: "list_all P xs \<Longrightarrow> list_all P (take n xs)"
  by (auto simp: list_all_iff dest: in_set_takeD)

lemma list_all_dropWhile: "list_all P xs \<Longrightarrow> list_all P (dropWhile Q xs)"
  by (auto simp: list_all_iff dest: set_dropWhileD)

lemma length_dropWhile_take: "length (dropWhile P (take n xs)) \<le> n"
  using length_dropWhile_le [of P "take n xs"] by simp

lemma last_takeWhile_sep:
  assumes "c \<notin> set v" and "c \<notin> set v'" and "u @ c # v = u' @ c # v'"
  shows "u = u' \<and> v = v'"
proof -
  have t: "takeWhile (\<lambda>x. x \<noteq> c) (rev v @ c # rest) = rev v"
    if "c \<notin> set v" for v rest :: "'a list"
    using that by (subst takeWhile_append2) auto
  have "rev v @ c # rev u = rev v' @ c # rev u'"
    using arg_cong [OF assms(3), of rev] by simp
  moreover from this have "rev v = rev v'"
    using t [OF assms(1)] t [OF assms(2)] by metis
  ultimately show ?thesis by simp
qed

end
