(* ===== verification/Go_Strings.thy ===== *)
theory Go_Strings
  imports Unicode_Tables
begin

text \<open>
  The part of Go's strings the program relies on. A string is a list of bytes.

  \<^item> \<^verbatim>\<open>decode_rune\<close> is \<^verbatim>\<open>utf8.DecodeRuneInString\<close>: the rune at the head of a
    string and its width; an invalid or truncated encoding is \<^verbatim>\<open>rune_error\<close> of
    width 1. \<^verbatim>\<open>runes\<close> is the whole decoding, each rune with the bytes it came from,
    which is what \<^verbatim>\<open>range\<close> over a string, \<^verbatim>\<open>strings.Map\<close> and package
    \<^verbatim>\<open>regexp\<close> step through. \<^verbatim>\<open>encode_rune\<close> is \<^verbatim>\<open>utf8.AppendRune\<close>.
  \<^item> \<^verbatim>\<open>strings_map\<close>, \<^verbatim>\<open>to_lower\<close>, \<^verbatim>\<open>trim_left\<close>, \<^verbatim>\<open>trim_right\<close> and
    \<^verbatim>\<open>replace_class\<close> are \<^verbatim>\<open>strings.Map\<close>, \<^verbatim>\<open>strings.ToLower\<close>,
    \<^verbatim>\<open>strings.TrimLeft\<close>, \<^verbatim>\<open>strings.TrimRight\<close> with an ASCII cutset, and
    \<^verbatim>\<open>ReplaceAllString(s, "-")\<close> of a regular expression that is one negated
    character class.
  \<^item> \<^verbatim>\<open>decimal\<close> is the verb \<^verbatim>\<open>%d\<close>, \<^verbatim>\<open>hex_encode\<close> is
    \<^verbatim>\<open>hex.EncodeToString\<close> and \<^verbatim>\<open>path_base\<close> is \<^verbatim>\<open>path.Base\<close>.
\<close>

section \<open>UTF-8\<close>

definition rune_error :: rune where
  "rune_error = 0xFFFD"

definition in_range :: "nat \<Rightarrow> nat \<Rightarrow> char \<Rightarrow> bool" where
  "in_range lo hi c \<longleftrightarrow> lo \<le> char_code c \<and> char_code c \<le> hi"

definition cont_bits :: "char \<Rightarrow> nat" where
  "cont_bits c = char_code c - 0x80"

text \<open>The interval the second byte must be in, by the first byte.\<close>

definition second_range :: "byte \<Rightarrow> nat \<times> nat" where
  "second_range b =
     (if b = 0xE0 then (0xA0, 0xBF) else if b = 0xED then (0x80, 0x9F)
      else if b = 0xF0 then (0x90, 0xBF) else if b = 0xF4 then (0x80, 0x8F)
      else (0x80, 0xBF))"

definition second_ok :: "byte \<Rightarrow> char \<Rightarrow> bool" where
  "second_ok b c = in_range (fst (second_range b)) (snd (second_range b)) c"

definition decode2 :: "byte \<Rightarrow> char \<Rightarrow> rune \<times> nat" where
  "decode2 b0 c1 =
     (if second_ok b0 c1 then ((b0 - 0xC0) * 64 + cont_bits c1, 2) else (rune_error, 1))"

definition decode3 :: "byte \<Rightarrow> char \<Rightarrow> char \<Rightarrow> rune \<times> nat" where
  "decode3 b0 c1 c2 =
     (if second_ok b0 c1 \<and> in_range 0x80 0xBF c2
      then ((b0 - 0xE0) * 4096 + cont_bits c1 * 64 + cont_bits c2, 3)
      else (rune_error, 1))"

definition decode4 :: "byte \<Rightarrow> char \<Rightarrow> char \<Rightarrow> char \<Rightarrow> rune \<times> nat" where
  "decode4 b0 c1 c2 c3 =
     (if second_ok b0 c1 \<and> in_range 0x80 0xBF c2 \<and> in_range 0x80 0xBF c3
      then ((b0 - 0xF0) * 262144 + cont_bits c1 * 4096 + cont_bits c2 * 64 + cont_bits c3, 4)
      else (rune_error, 1))"

fun decode_rune :: "string \<Rightarrow> rune \<times> nat" where
  "decode_rune [] = (rune_error, 0)"
| "decode_rune (c0 # t) =
     (let b0 = char_code c0 in
      if b0 < 0x80 then (b0, 1)
      else if 0xC2 \<le> b0 \<and> b0 \<le> 0xDF then
        (case t of c1 # _ \<Rightarrow> decode2 b0 c1 | _ \<Rightarrow> (rune_error, 1))
      else if 0xE0 \<le> b0 \<and> b0 \<le> 0xEF then
        (case t of c1 # c2 # _ \<Rightarrow> decode3 b0 c1 c2 | _ \<Rightarrow> (rune_error, 1))
      else if 0xF0 \<le> b0 \<and> b0 \<le> 0xF4 then
        (case t of c1 # c2 # c3 # _ \<Rightarrow> decode4 b0 c1 c2 c3 | _ \<Rightarrow> (rune_error, 1))
      else (rune_error, 1))"

lemma decode_rune_width:
  assumes "s \<noteq> []"
  shows "0 < snd (decode_rune s) \<and> snd (decode_rune s) \<le> length s"
proof (cases s)
  case (Cons c0 t)
  then show ?thesis
    by (auto simp: Let_def decode2_def decode3_def decode4_def split: list.split)
qed (use assms in simp)

lemmas decode_rune_width_pos = decode_rune_width [THEN conjunct1]
  and decode_rune_width_le = decode_rune_width [THEN conjunct2]

function runes :: "string \<Rightarrow> (rune \<times> string) list" where
  "runes s = (if s = [] then []
              else (fst (decode_rune s), take (snd (decode_rune s)) s)
                     # runes (drop (snd (decode_rune s)) s))"
  by pat_completeness auto
termination
  by (relation "measure length") (use decode_rune_width_pos in auto)

declare runes.simps [simp del]

lemma runes_Nil [simp]: "runes [] = []"
  by (simp add: runes.simps)

lemma runes_ascii [simp]:
  "char_code c < 128 \<Longrightarrow> runes (c # s) = (char_code c, [c]) # runes s"
  by (subst runes.simps) simp

lemma runes_concat: "concat (map snd (runes s)) = s"
proof (induction s rule: runes.induct)
  case (1 s)
  then show ?case
    by (cases "s = []") (simp_all add: runes.simps [of s])
qed

definition encode_rune :: "rune \<Rightarrow> string" where
  "encode_rune r =
     (let r = (if 0xD800 \<le> r \<and> r \<le> 0xDFFF \<or> 0x10FFFF < r then rune_error else r) in
      if r \<le> 0x7F then [char_of r]
      else if r \<le> 0x7FF then [char_of (0xC0 + r div 64), char_of (0x80 + r mod 64)]
      else if r \<le> 0xFFFF then
        [char_of (0xE0 + r div 4096), char_of (0x80 + r div 64 mod 64),
         char_of (0x80 + r mod 64)]
      else
        [char_of (0xF0 + r div 262144), char_of (0x80 + r div 4096 mod 64),
         char_of (0x80 + r div 64 mod 64), char_of (0x80 + r mod 64)])"

lemma encode_rune_ascii [simp]: "r < 128 \<Longrightarrow> encode_rune r = [char_of r]"
  by (simp add: encode_rune_def)

definition valid_rune :: "rune \<Rightarrow> bool" where
  "valid_rune r \<longleftrightarrow> r < 0xD800 \<or> 0xDFFF < r \<and> r \<le> 0x10FFFF"

lemma second_ok_bits:
  assumes "second_ok b c"
  shows "cont_bits c < 64"
    and "b = 0xE0 \<Longrightarrow> 32 \<le> cont_bits c" and "b = 0xED \<Longrightarrow> cont_bits c < 32"
    and "b = 0xF0 \<Longrightarrow> 16 \<le> cont_bits c" and "b = 0xF4 \<Longrightarrow> cont_bits c < 16"
  using assms
  by (auto simp: second_ok_def second_range_def in_range_def cont_bits_def split: if_splits)

lemma in_range_cont_bits: "in_range 0x80 0xBF c \<Longrightarrow> cont_bits c < 64"
  by (auto simp: in_range_def cont_bits_def)

lemma decode2_valid: "b \<le> 0xDF \<Longrightarrow> valid_rune (fst (decode2 b c1))"
  using second_ok_bits(1) [of b c1] by (auto simp: decode2_def valid_rune_def rune_error_def)

lemma three_bytes_valid:
  assumes "x < 64" "y < 64" "0xE0 \<le> b" "b \<le> 0xEF" "b = 0xED \<Longrightarrow> x < 32"
  shows "valid_rune ((b - 0xE0) * 4096 + x * 64 + y)"
proof -
  obtain k where k: "b = 0xE0 + k" using assms(3) le_Suc_ex by blast
  have "k < 13 \<or> k = 13 \<and> x < 32 \<or> 13 < k \<and> k < 16" using assms k by linarith
  then show ?thesis
    unfolding valid_rune_def k add_diff_cancel_left' using assms(1,2) by linarith
qed

lemma four_bytes_valid:
  assumes "x < 64" "y < 64" "z < 64" "0xF0 \<le> b" "b \<le> 0xF4"
    and "b = 0xF4 \<Longrightarrow> x < 16" "b = 0xF0 \<Longrightarrow> 16 \<le> x"
  shows "valid_rune ((b - 0xF0) * 262144 + x * 4096 + y * 64 + z)"
proof -
  obtain k where k: "b = 0xF0 + k" using assms(4) le_Suc_ex by blast
  have "k = 0 \<and> 16 \<le> x \<or> 0 < k \<and> k < 4 \<or> k = 4 \<and> x < 16" using assms k by linarith
  then show ?thesis
    unfolding valid_rune_def k add_diff_cancel_left' using assms(1-3) by linarith
qed

lemma valid_rune_error [simp]: "valid_rune rune_error"
  by (simp add: valid_rune_def rune_error_def)

lemma decode3_valid: "0xE0 \<le> b \<Longrightarrow> b \<le> 0xEF \<Longrightarrow> valid_rune (fst (decode3 b c1 c2))"
  unfolding decode3_def
  by (auto intro!: three_bytes_valid intro: second_ok_bits in_range_cont_bits)

lemma decode4_valid: "0xF0 \<le> b \<Longrightarrow> b \<le> 0xF4 \<Longrightarrow> valid_rune (fst (decode4 b c1 c2 c3))"
  unfolding decode4_def
  by (auto intro!: four_bytes_valid intro: second_ok_bits in_range_cont_bits)

lemma decode_rune_valid: "valid_rune (fst (decode_rune s))"
  using decode2_valid decode3_valid decode4_valid
  by (cases s) (auto simp: Let_def valid_rune_def rune_error_def split: list.splits)

lemma char_code_of [simp]: "n < 256 \<Longrightarrow> char_code (char_of n) = n"
  by simp

lemma cont_byte_of:
  "in_range 0x80 0xBF (char_of (0x80 + n mod 64))" "cont_bits (char_of (0x80 + n mod 64)) = n mod 64"
proof -
  have "128 + n mod 64 < 256" by (simp add: less_trans [OF mod_less_divisor])
  then show "in_range 0x80 0xBF (char_of (0x80 + n mod 64))"
    "cont_bits (char_of (0x80 + n mod 64)) = n mod 64"
    by (simp_all add: in_range_def cont_bits_def less_Suc_eq_le [symmetric])
qed

lemma split64: "(r div 64) * 64 + r mod 64 = (r::nat)"
  by simp

lemma split4096: "r div 4096 * 4096 + (r div 64 mod 64) * 64 + r mod 64 = (r::nat)"
proof -
  have "r div 4096 = r div 64 div 64" by (simp add: div_mult2_eq [symmetric])
  then show ?thesis using div_mult_mod_eq [of "r div 64" 64] div_mult_mod_eq [of r 64] by linarith
qed

lemma split262144:
  "r div 262144 * 262144 + (r div 4096 mod 64) * 4096 + (r div 64 mod 64) * 64 + r mod 64 = (r::nat)"
proof -
  have "r div 262144 = r div 4096 div 64" by (simp add: div_mult2_eq [symmetric])
  then show ?thesis using div_mult_mod_eq [of "r div 4096" 64] split4096 [of r] by linarith
qed

lemma second_ok_range:
  fixes n :: nat
  shows "second_ok b (char_of (0x80 + n mod 64)) \<longleftrightarrow>
   (b = 0xE0 \<longrightarrow> 32 \<le> n mod 64) \<and> (b = 0xED \<longrightarrow> n mod 64 < 32) \<and>
   (b = 0xF0 \<longrightarrow> 16 \<le> n mod 64) \<and> (b = 0xF4 \<longrightarrow> n mod 64 < 16)"
proof -
  have "n mod 64 < 64" by simp
  moreover from this have "char_code (char_of (0x80 + n mod 64)) = 0x80 + n mod 64" by simp
  ultimately show ?thesis by (auto simp: second_ok_def second_range_def in_range_def simp del: of_char_of)
qed

lemma decode_encode2:
  assumes "0x80 \<le> r" "r \<le> 0x7FF"
  shows "decode_rune (char_of (0xC0 + r div 64) # char_of (0x80 + r mod 64) # s) = (r, 2)"
proof -
  have "2 \<le> r div 64" "r div 64 \<le> 31" using assms by (auto simp: div_le_mono dest: div_le_mono [where k=64])
  moreover from this have "char_code (char_of (0xC0 + r div 64)) = 0xC0 + r div 64" by simp
  ultimately show ?thesis
    by (simp add: Let_def decode2_def second_ok_range cont_byte_of del: of_char_of)
qed

lemma decode_encode3:
  assumes "0x800 \<le> r" "r \<le> 0xFFFF" "valid_rune r"
  shows "decode_rune (char_of (0xE0 + r div 4096) # char_of (0x80 + r div 64 mod 64)
           # char_of (0x80 + r mod 64) # s) = (r, 3)"
proof -
  have le: "r div 4096 \<le> 15" using assms by (auto dest: div_le_mono [where k=4096])
  then have c: "char_code (char_of (0xE0 + r div 4096)) = 0xE0 + r div 4096" by simp
  have "r div 4096 = 0 \<longrightarrow> 32 \<le> r div 64 mod 64" "r div 4096 = 13 \<longrightarrow> r div 64 mod 64 < 32"
    using assms split4096 [of r] mod_less_divisor [of 64 r] unfolding valid_rune_def by (linarith | simp)+
  with le c show ?thesis
    by (simp add: Let_def decode3_def second_ok_range cont_byte_of split4096 del: of_char_of)
qed

lemma decode_encode4:
  assumes "0x10000 \<le> r" "valid_rune r"
  shows "decode_rune (char_of (0xF0 + r div 262144) # char_of (0x80 + r div 4096 mod 64)
           # char_of (0x80 + r div 64 mod 64) # char_of (0x80 + r mod 64) # s) = (r, 4)"
proof -
  have le: "r div 262144 \<le> 4" using assms by (auto simp: valid_rune_def dest: div_le_mono [where k=262144])
  then have c: "char_code (char_of (0xF0 + r div 262144)) = 0xF0 + r div 262144" by simp
  have "r div 262144 = 0 \<longrightarrow> 16 \<le> r div 4096 mod 64" "r div 262144 = 4 \<longrightarrow> r div 4096 mod 64 < 16"
    using assms split262144 [of r] mod_less_divisor [of 64 r] mod_less_divisor [of 64 "r div 64"]
    unfolding valid_rune_def by (linarith | simp)+
  with le c show ?thesis
    by (simp add: Let_def decode4_def second_ok_range cont_byte_of split262144 del: of_char_of)
qed

lemma decode_encode:
  assumes "valid_rune r"
  shows "decode_rune (encode_rune r @ s) = (r, length (encode_rune r))"
proof -
  have e: "(if 0xD800 \<le> r \<and> r \<le> 0xDFFF \<or> 0x10FFFF < r then rune_error else r) = r"
    using assms by (auto simp: valid_rune_def)
  consider "r \<le> 0x7F" | "0x80 \<le> r" "r \<le> 0x7FF" | "0x800 \<le> r" "r \<le> 0xFFFF" | "0x10000 \<le> r"
    by linarith
  then show ?thesis
  proof cases
    case 1 then show ?thesis by simp
  next
    case 2
    then show ?thesis unfolding encode_rune_def e Let_def
      using decode_encode2 [of r s] by (simp del: decode_rune.simps)
  next
    case 3
    then show ?thesis unfolding encode_rune_def e Let_def
      using decode_encode3 [of r s] assms by (simp del: decode_rune.simps)
  next
    case 4
    then show ?thesis unfolding encode_rune_def e Let_def
      using decode_encode4 [of r s] assms by (simp del: decode_rune.simps)
  qed
qed

lemma runes_encode:
  assumes "valid_rune r"
  shows "runes (encode_rune r @ s) = (r, encode_rune r) # runes s"
proof -
  have "encode_rune r \<noteq> []" by (simp add: encode_rune_def Let_def)
  then show ?thesis
    by (subst runes.simps) (simp add: decode_encode [OF assms])
qed

lemma runes_valid: "(r, bs) \<in> set (runes s) \<Longrightarrow> valid_rune r"
proof (induction s rule: runes.induct)
  case (1 s)
  then show ?case
    by (cases "s = []") (auto simp: runes.simps [of s] decode_rune_valid)
qed

section \<open>Mapping and replacing runes\<close>

text \<open>
  \<^verbatim>\<open>strings_map\<close>: \<^verbatim>\<open>None\<close> stands for a negative rune, which drops the
  character. An invalid byte reaches the function as \<^verbatim>\<open>rune_error\<close> and, when kept,
  comes out as the encoding of that rune.
\<close>

definition strings_map :: "(rune \<Rightarrow> rune option) \<Rightarrow> string \<Rightarrow> string" where
  "strings_map f s =
     concat (map (\<lambda>(r, bs). case f r of None \<Rightarrow> [] | Some r' \<Rightarrow> encode_rune r') (runes s))"

lemma runes_strings_map:
  "(\<And>r r'. f r = Some r' \<Longrightarrow> valid_rune r \<Longrightarrow> valid_rune r') \<Longrightarrow>
   map fst (runes (strings_map f s)) = List.map_filter f (map fst (runes s))"
proof (induction s rule: runes.induct)
  case (1 s)
  show ?case
  proof (cases "s = []")
    case True then show ?thesis by (simp add: strings_map_def List.map_filter_def)
  next
    case False
    note IH = "1.IH" [OF False] 
    show ?thesis
    proof (cases "f (fst (decode_rune s))")
      case None
      then show ?thesis using IH 1 False
        by (simp add: strings_map_def runes.simps [of s] map_filter_simps)
    next
      case (Some r')
      then have "valid_rune r'" using 1 decode_rune_valid by blast
      then show ?thesis using IH 1 False Some
        by (simp add: strings_map_def runes.simps [of s] runes_encode map_filter_simps)
    qed
  qed
qed

definition to_lower :: "string \<Rightarrow> string" where
  "to_lower s = strings_map (\<lambda>r. Some (unicode_to_lower r)) s"

definition replace_class :: "(rune \<Rightarrow> bool) \<Rightarrow> string \<Rightarrow> string" where
  "replace_class keep s =
     concat (map (\<lambda>(r, bs). if keep r then bs else ''-'') (runes s))"

definition trim_left :: "string \<Rightarrow> string \<Rightarrow> string" where
  "trim_left s cutset = dropWhile (\<lambda>c. c \<in> set cutset) s"

definition trim_right :: "string \<Rightarrow> string \<Rightarrow> string" where
  "trim_right s cutset = rev (dropWhile (\<lambda>c. c \<in> set cutset) (rev s))"

lemma decode_rune_ascii_iff:
  assumes "s \<noteq> []" and "fst (decode_rune s) < 128"
  shows "char_code (hd s) < 128 \<and> decode_rune s = (char_code (hd s), 1)"
proof (cases s)
  case (Cons c t)
  have "\<not> fst (decode2 b c1) < 128" if "0xC2 \<le> b" for b c1
    using that by (auto simp: decode2_def rune_error_def)
  moreover have "\<not> fst (decode3 b c1 c2) < 128" if "0xE0 \<le> b" for b c1 c2
    using that second_ok_bits(2) [of b c1] by (cases "b = 0xE0") (auto simp: decode3_def rune_error_def)
  moreover have "\<not> fst (decode4 b c1 c2 c3) < 128" if "0xF0 \<le> b" for b c1 c2 c3
    using that second_ok_bits(4) [of b c1] by (cases "b = 0xF0") (auto simp: decode4_def rune_error_def)
  ultimately show ?thesis
    using assms Cons by (auto simp: Let_def rune_error_def split: list.splits if_splits)
qed (use assms in simp)

lemma runes_ascii_bytes:
  "(r, bs) \<in> set (runes s) \<Longrightarrow> r < 128 \<Longrightarrow> bs = [char_of r]"
proof (induction s rule: runes.induct)
  case (1 s)
  show ?case
  proof (cases "s = []")
    case False
    then consider "r = fst (decode_rune s)" "bs = take (snd (decode_rune s)) s"
      | "(r, bs) \<in> set (runes (drop (snd (decode_rune s)) s))"
      using "1.prems"(1) by (auto simp: runes.simps [of s])
    then show ?thesis
    proof cases
      case 1
      with decode_rune_ascii_iff [OF False] "1.prems"(2)
      have "r = char_code (hd s)" and "bs = take 1 s" by auto
      with False show ?thesis by (cases s) simp_all
    qed (use 1 False in auto)
  qed (use 1 in simp)
qed

text \<open>What a replacement leaves are kept ASCII bytes and dashes.\<close>

lemma replace_class_chars:
  assumes "\<And>r. keep r \<Longrightarrow> r < 128" and "c \<in> set (replace_class keep s)"
  shows "c = CHR ''-'' \<or> keep (char_code c)"
proof -
  obtain r bs where rb: "(r, bs) \<in> set (runes s)" and c: "c \<in> set (if keep r then bs else ''-'')"
    using assms(2) by (auto simp: replace_class_def)
  show ?thesis
  proof (cases "keep r")
    case True
    then have "r < 128" and "bs = [char_of r]" using assms(1) rb runes_ascii_bytes by blast+
    with c True show ?thesis by simp
  qed (use c in simp)
qed

lemma replace_class_Nil [simp]: "replace_class keep [] = []"
  by (simp add: replace_class_def)

lemma replace_class_ascii [simp]:
  "char_code c < 128 \<Longrightarrow>
   replace_class keep (c # s) = (if keep (char_code c) then c else CHR ''-'') # replace_class keep s"
  by (simp add: replace_class_def)

lemma replace_class_id:
  assumes "list_all (\<lambda>c. char_code c < 128 \<and> keep (char_code c)) s"
  shows "replace_class keep s = s"
  using assms by (induction s) auto

lemma to_lower_Nil [simp]: "to_lower [] = []"
  by (simp add: to_lower_def strings_map_def)

lemma to_lower_ascii [simp]:
  "char_code c < 128 \<Longrightarrow>
   to_lower (c # s) = (if 65 \<le> char_code c \<and> char_code c \<le> 90 then char_of (char_code c + 32) else c)
     # to_lower s"
  by (simp add: to_lower_def strings_map_def)

text \<open>Trimming.\<close>

lemma trim_right_prefix: "\<exists>u. s = trim_right s cs @ u \<and> set u \<subseteq> set cs"
proof (intro exI conjI)
  let ?P = "\<lambda>c. c \<in> set cs"
  have "rev (rev s) = rev (takeWhile ?P (rev s) @ dropWhile ?P (rev s))"
    by (simp only: takeWhile_dropWhile_id)
  then show "s = trim_right s cs @ rev (takeWhile ?P (rev s))"
    by (simp only: rev_append rev_rev_ident trim_right_def)
  show "set (rev (takeWhile ?P (rev s))) \<subseteq> set cs"
    by (auto dest: set_takeWhileD)
qed

lemma length_trim_right: "length (trim_right s cs) \<le> length s"
  using length_dropWhile_le [of "\<lambda>c. c \<in> set cs" "rev s"] by (simp add: trim_right_def)

lemma length_trim_left: "length (trim_left s cs) \<le> length s"
  by (simp add: trim_left_def length_dropWhile_le)

lemma trim_right_last: "trim_right s cs \<noteq> [] \<Longrightarrow> last (trim_right s cs) \<notin> set cs"
  using hd_dropWhile [of "\<lambda>c. c \<in> set cs" "rev s"] by (simp add: trim_right_def last_rev)

lemma trim_left_hd: "trim_left s cs \<noteq> [] \<Longrightarrow> hd (trim_left s cs) \<notin> set cs"
  using hd_dropWhile [of "\<lambda>c. c \<in> set cs" s] by (simp add: trim_left_def)

lemma set_trim_right: "set (trim_right s cs) \<subseteq> set s"
  using trim_right_prefix [of s cs] by (metis Un_upper1 set_append)

lemma set_trim_left: "set (trim_left s cs) \<subseteq> set s"
  by (auto simp: trim_left_def dest: set_dropWhileD)

lemma trim_right_id: "s = [] \<or> last s \<notin> set cs \<Longrightarrow> trim_right s cs = s"
  by (cases s rule: rev_cases) (auto simp: trim_right_def)

lemma trim_left_id: "s = [] \<or> hd s \<notin> set cs \<Longrightarrow> trim_left s cs = s"
  by (cases s) (auto simp: trim_left_def)

lemma hd_trim_right: "trim_right s cs \<noteq> [] \<Longrightarrow> hd (trim_right s cs) = hd s"
  using trim_right_prefix [of s cs] by (metis hd_append2)

section \<open>Printing\<close>

function decimal :: "nat \<Rightarrow> string" where
  "decimal n = (if n < 10 then [char_of (48 + n)]
                else decimal (n div 10) @ [char_of (48 + n mod 10)])"
  by pat_completeness auto
termination
  by (relation "measure id") auto

declare decimal.simps [simp del]

definition hex_digit :: "nat \<Rightarrow> char" where
  "hex_digit n = (if n < 10 then char_of (48 + n) else char_of (87 + n))"

definition hex_byte :: "byte \<Rightarrow> string" where
  "hex_byte b = [hex_digit (b div 16), hex_digit (b mod 16)]"

definition hex_encode :: "byte list \<Rightarrow> string" where
  "hex_encode bs = concat (map hex_byte bs)"

definition is_hex_char :: "char \<Rightarrow> bool" where
  "is_hex_char c \<longleftrightarrow> in_range 48 57 c \<or> in_range 97 102 c"

definition is_digit_char :: "char \<Rightarrow> bool" where
  "is_digit_char c = in_range 48 57 c"

lemma digit_char [simp]: "(n::nat) < 10 \<Longrightarrow> is_digit_char (char_of (48 + n))"
  by (simp add: is_digit_char_def in_range_def)

lemma decimal_digits: "list_all is_digit_char (decimal n)"
proof (induction n rule: decimal.induct)
  case (1 n)
  then show ?case by (cases "n < 10") (simp_all add: decimal.simps [of n])
qed

lemma decimal_nonempty [simp]: "decimal n \<noteq> []"
  by (subst decimal.simps) simp

text \<open>Reading the digits back; so \<^verbatim>\<open>decimal\<close> is injective.\<close>

definition read_decimal :: "string \<Rightarrow> nat" where
  "read_decimal s = foldl (\<lambda>acc c. 10 * acc + (char_code c - 48)) 0 s"

lemma read_decimal: "read_decimal (decimal n) = n"
proof (induction n rule: decimal.induct)
  case (1 n)
  show ?case
  proof (cases "n < 10")
    case True
    then show ?thesis by (simp add: decimal.simps [of n] read_decimal_def)
  next
    case False
    then have "read_decimal (decimal (n div 10)) = n div 10" by (rule 1)
    with False show ?thesis by (simp add: decimal.simps [of n] read_decimal_def)
  qed
qed

lemma decimal_inj [simp]: "decimal m = decimal n \<longleftrightarrow> m = n"
  by (metis read_decimal)

lemma length_decimal: "n < 10 ^ k \<Longrightarrow> 0 < k \<Longrightarrow> length (decimal n) \<le> k"
proof (induction n arbitrary: k rule: decimal.induct)
  case (1 n)
  show ?case
  proof (cases "n < 10")
    case True
    with 1 show ?thesis by (simp add: decimal.simps [of n])
  next
    case False
    obtain j where k: "k = Suc j" using "1.prems" by (cases k) auto
    with False "1.prems" have j: "0 < j" by (cases j) auto
    have "n div 10 < 10 ^ j" using "1.prems"(1) k by (simp add: less_mult_imp_div_less mult.commute)
    then have "length (decimal (n div 10)) \<le> j" using "1.IH" [OF False] j by simp
    with False k show ?thesis by (simp add: decimal.simps [of n])
  qed
qed

lemma hex_digit_hex [simp]: "n < 16 \<Longrightarrow> is_hex_char (hex_digit n)"
  by (simp add: is_hex_char_def hex_digit_def in_range_def)

lemma length_hex_encode [simp]: "length (hex_encode bs) = 2 * length bs"
  by (induction bs) (simp_all add: hex_encode_def hex_byte_def)

lemma hex_encode_hex: "list_all (\<lambda>b. b < 256) bs \<Longrightarrow> list_all is_hex_char (hex_encode bs)"
proof (induction bs)
  case (Cons b bs)
  moreover from this have "b div 16 < 16" by (auto intro: less_mult_imp_div_less)
  ultimately show ?case by (simp add: hex_encode_def hex_byte_def)
qed (simp add: hex_encode_def)

section \<open>path.Base\<close>

definition path_base :: "string \<Rightarrow> string" where
  "path_base p =
     (if p = '''' then ''.''
      else let q = trim_right p ''/'';
               b = rev (takeWhile (\<lambda>c. c \<noteq> CHR ''/'') (rev q))
           in if b = '''' then ''/'' else b)"

end
