(* ===== verification/Go_Time.thy ===== *)
theory Go_Time
  imports Go_Strings
begin

text \<open>
  Go's \<^verbatim>\<open>time.Time\<close> and \<^verbatim>\<open>time.Duration\<close>.

  An instant is the number of nanoseconds since midnight, January 1, year 1, UTC, which is
  Go's zero \<^verbatim>\<open>Time\<close>; no operation the program uses observes the location of an
  instant. A duration is the value of a signed 64-bit count of nanoseconds.
  \<^verbatim>\<open>time_sub\<close> is \<^verbatim>\<open>t.Sub(u)\<close>, which saturates instead of wrapping around.
  \<^verbatim>\<open>rfc3339\<close> is \<^verbatim>\<open>t.UTC().Format(time.RFC3339)\<close> on the proleptic Gregorian
  calendar; \<^verbatim>\<open>rfc3339_inj\<close> shows that it forgets nothing but fractions of a second.
\<close>

type_synonym time = int
type_synonym duration = int

definition second :: duration where "second = 1000000000"
definition minute :: duration where "minute = 60 * second"
definition hour :: duration where "hour = 60 * minute"

definition min_duration :: duration where "min_duration = - (2 ^ 63)"
definition max_duration :: duration where "max_duration = 2 ^ 63 - 1"

definition time_sub :: "time \<Rightarrow> time \<Rightarrow> duration" where
  "time_sub t u = max min_duration (min max_duration (t - u))"

definition is_zero_time :: "time \<Rightarrow> bool" where
  "is_zero_time t \<longleftrightarrow> t = 0"

lemma time_sub_less_iff:
  "min_duration < d \<Longrightarrow> d \<le> max_duration \<Longrightarrow> time_sub t u < d \<longleftrightarrow> t - u < d"
  by (auto simp: time_sub_def)

lemma time_sub_mono: "t \<le> t' \<Longrightarrow> time_sub t u \<le> time_sub t' u"
  by (auto simp: time_sub_def)

section \<open>The calendar\<close>

definition is_leap :: "int \<Rightarrow> bool" where
  "is_leap y \<longleftrightarrow> y mod 4 = 0 \<and> (y mod 100 \<noteq> 0 \<or> y mod 400 = 0)"

text \<open>
  The year and the day of the year (from 0) of a day number: cut off 400-, 100-, 4- and
  1-year cycles; the last cycle of a 400- and of a 4-year block has one day more, which
  \<^verbatim>\<open>cut\<close> takes back.
\<close>

definition cut :: "int \<Rightarrow> int" where
  "cut n = n - n div 4"

definition civil_year :: "int \<Rightarrow> int \<times> int" where
  "civil_year d =
     (let n400 = d div 146097; d = d mod 146097;
          n100 = cut (d div 36524); d = d - 36524 * n100;
          n4 = d div 1461; d = d - 1461 * n4;
          n1 = cut (d div 365); d = d - 365 * n1
      in (400 * n400 + 100 * n100 + 4 * n4 + n1 + 1, d))"

definition month_lengths :: "int \<Rightarrow> int list" where
  "month_lengths y = [31, if is_leap y then 29 else 28, 31, 30, 31, 30, 31, 31, 30, 31, 30, 31]"

fun month_day :: "int list \<Rightarrow> nat \<Rightarrow> int \<Rightarrow> nat \<times> int" where
  "month_day [] m d = (m, d + 1)"
| "month_day (len # ms) m d = (if d < len \<or> ms = [] then (m, d + 1) else month_day ms (Suc m) (d - len))"

definition append_int :: "int \<Rightarrow> nat \<Rightarrow> string" where
  "append_int x width =
     (let ds = decimal (nat \<bar>x\<bar>)
      in (if x < 0 then ''-'' else '''') @ replicate (width - length ds) (CHR ''0'') @ ds)"

definition rfc3339 :: "time \<Rightarrow> string" where
  "rfc3339 t =
     (let secs = t div second; d = secs div 86400; s = secs mod 86400;
          (year, yday) = civil_year d;
          (month, day) = month_day (month_lengths year) 1 yday
      in append_int year 4 @ ''-'' @ append_int (int month) 2 @ ''-'' @ append_int day 2 @ ''T'' @
         append_int (s div 3600) 2 @ '':'' @ append_int (s mod 3600 div 60) 2 @ '':'' @
         append_int (s mod 60) 2 @ ''Z'')"

lemma cut_bounds:
  assumes "0 \<le> r" "r < 4 * p + 1" "0 < p"
  shows "0 \<le> cut (r div p)" "cut (r div p) \<le> 3" "0 \<le> r - p * cut (r div p)"
    "r - p * cut (r div p) \<le> p"
proof -
  define q where "q = r div p"
  have r: "r = p * q + r mod p" and m: "0 \<le> r mod p" "r mod p < p"
    using assms by (simp_all add: q_def)
  have "0 \<le> q" using assms by (simp add: q_def pos_imp_zdiv_nonneg_iff)
  moreover have "p * q \<le> 4 * p" using r m assms(2) by linarith
  then have "q \<le> 4" using assms(3) by (metis mult.commute mult_le_cancel_left_pos)
  ultimately have "q = 4 \<and> cut q = 3 \<or> q \<in> {0..3} \<and> cut q = q" by (auto simp: cut_def)
  moreover have "r = 4 * p" if "q = 4"
    using r [unfolded that] m assms(2) by linarith
  ultimately show "0 \<le> cut (r div p)" "cut (r div p) \<le> 3" "0 \<le> r - p * cut (r div p)"
    "r - p * cut (r div p) \<le> p"
    using r m by (auto simp: q_def [symmetric])
qed

definition days_of_year :: "int \<Rightarrow> int" where
  "days_of_year y = (let k = y - 1 in
     146097 * (k div 400) + 36524 * (k mod 400 div 100) + 1461 * (k mod 100 div 4) + 365 * (k mod 4))"

lemma civil_year_inverse:
  assumes "civil_year d = (y, yd)"
  shows "0 \<le> yd" "yd \<le> 365" "d = days_of_year y + yd"
proof -
  define r0 where "r0 = d mod 146097"
  define n100 where "n100 = cut (r0 div 36524)"
  define r1 where "r1 = r0 - 36524 * n100"
  define n4 where "n4 = r1 div 1461"
  define r2 where "r2 = r1 - 1461 * n4"
  define n1 where "n1 = cut (r2 div 365)"
  have y: "y - 1 = 400 * (d div 146097) + 100 * n100 + 4 * n4 + n1" and yd: "yd = r2 - 365 * n1"
    using assms by (auto simp: civil_year_def Let_def r0_def n100_def r1_def n4_def r2_def n1_def)
  have "0 \<le> r0" "r0 < 4 * 36524 + 1" by (simp_all add: r0_def)
  note b1 = cut_bounds [OF this, folded n100_def, folded r1_def, simplified]
  have n4: "0 \<le> n4" "n4 \<le> 24" using b1 by (auto simp: n4_def)
  have "0 \<le> r2" "r2 < 4 * 365 + 1" by (simp_all add: r2_def n4_def minus_mult_div_eq_mod)
  note b2 = cut_bounds [OF this, folded n1_def, simplified]
  show "0 \<le> yd" "yd \<le> 365" using b2 yd by simp_all
  have block: "(m * a + x) div m = a \<and> (m * a + x) mod m = x" if "0 \<le> x" "x < m" for m a x :: int
    using that by simp
  have x1: "0 \<le> 4 * n4 + n1" "4 * n4 + n1 < 100" and x0: "0 \<le> n1" "n1 < 4"
    and x2: "0 \<le> 100 * n100 + (4 * n4 + n1)" "100 * n100 + (4 * n4 + n1) < 400"
    using b1(1,2) n4 b2(1,2) by linarith+
  have k: "y - 1 = 400 * (d div 146097) + (100 * n100 + (4 * n4 + n1))"
    "y - 1 = 100 * (4 * (d div 146097) + n100) + (4 * n4 + n1)"
    "y - 1 = 4 * (100 * (d div 146097) + 25 * n100 + n4) + n1"
    using y by (simp_all add: algebra_simps)
  have e0: "(y - 1) div 400 = d div 146097" and "(y - 1) mod 400 = 100 * n100 + (4 * n4 + n1)"
    using block [OF x2] k(1) by metis+
  then have e2: "(y - 1) mod 400 div 100 = n100" using block [OF x1] by metis
  have "(y - 1) mod 100 = 4 * n4 + n1" using block [OF x1] k(2) by metis
  then have e3: "(y - 1) mod 100 div 4 = n4" using block [OF x0] by metis
  have e4: "(y - 1) mod 4 = n1" using block [OF x0] k(3) by metis
  have "d = 146097 * (d div 146097) + r0" by (simp add: r0_def)
  then show "d = days_of_year y + yd"
    unfolding days_of_year_def Let_def e0 e2 e3 e4 yd r2_def r1_def by linarith
qed

text \<open>The month scan: the days of the months passed and the day add up.\<close>

lemma month_day_bounds:
  assumes "month_day ms m d = (m', d')" and "0 \<le> d" and "ms \<noteq> []"
    and "list_all (\<lambda>l. l \<le> 31) ms" and "d \<le> sum_list ms"
  shows "m \<le> m' \<and> m' < m + length ms \<and> 1 \<le> d' \<and> d' \<le> 32 \<and>
         d = sum_list (take (m' - m) ms) + d' - 1"
  using assms
proof (induction ms m d rule: month_day.induct)
  case (2 len ms m d)
  show ?case
  proof (cases "d < len \<or> ms = []")
    case True
    with 2 show ?thesis by auto
  next
    case False
    with 2 have "Suc m \<le> m' \<and> m' < Suc m + length ms \<and> 1 \<le> d' \<and> d' \<le> 32 \<and>
         d - len = sum_list (take (m' - Suc m) ms) + d' - 1" by simp
    moreover from this have "m' - m = Suc (m' - Suc m)" by (simp add: Suc_diff_Suc Suc_le_lessD)
    ultimately show ?thesis by simp
  qed
qed simp

lemma month_lengths_facts:
  "month_lengths y \<noteq> []" "list_all (\<lambda>l. l \<le> 31) (month_lengths y)" "length (month_lengths y) = 12"
  "sum_list (month_lengths y) = (if is_leap y then 366 else 365)"
  by (simp_all add: month_lengths_def)

lemma civil_year_pos: "0 \<le> d \<Longrightarrow> civil_year d = (y, yd) \<Longrightarrow> 1 \<le> y"
proof -
  assume d: "0 \<le> d" and c: "civil_year d = (y, yd)"
  show "1 \<le> y"
  proof (rule ccontr)
    assume "\<not> 1 \<le> y"
    then have "(y - 1) div 400 \<le> - 1" by simp
    moreover have "(y - 1) mod 400 div 100 \<le> 3" "(y - 1) mod 100 div 4 \<le> 24" "(y - 1) mod 4 \<le> 3"
      by (simp_all add: zdiv_mono1 [of "(y - 1) mod 400" 399 100, simplified] zdiv_mono1 [of "(y - 1) mod 100" 99 4, simplified]
          zle_diff1_eq [symmetric] del: zle_diff1_eq)
    ultimately show False
      using civil_year_inverse [OF c] d unfolding days_of_year_def Let_def by linarith
  qed
qed

lemma read_decimal_zeros: "read_decimal (replicate n (CHR ''0'') @ s) = read_decimal s"
proof -
  have "foldl (\<lambda>acc c. 10 * acc + (char_code c - 48)) 0 (replicate n (CHR ''0'')) = 0"
    by (induction n) simp_all
  then show ?thesis by (simp add: read_decimal_def)
qed

lemma read_append_int: "0 \<le> x \<Longrightarrow> read_decimal (append_int x w) = nat x"
  by (simp add: append_int_def Let_def read_decimal_zeros read_decimal)

lemma append_int_inj: "0 \<le> x \<Longrightarrow> 0 \<le> y \<Longrightarrow> append_int x w = append_int y w \<longleftrightarrow> x = y"
  by (metis read_append_int eq_nat_nat_iff)

lemma length_append_int2: "0 \<le> x \<Longrightarrow> x < 100 \<Longrightarrow> length (append_int x 2) = 2"
  using length_decimal [of "nat \<bar>x\<bar>" 2] by (simp add: append_int_def Let_def)

lemma append_int_chars: "c \<in> set (append_int x w) \<Longrightarrow> is_digit_char c \<or> c = CHR ''-''"
  using decimal_digits [of "nat \<bar>x\<bar>"]
  by (auto simp: append_int_def Let_def list_all_iff is_digit_char_def in_range_def split: if_splits)

definition stamp :: "int \<Rightarrow> int \<Rightarrow> int \<Rightarrow> int \<Rightarrow> int \<Rightarrow> int \<Rightarrow> string" where
  "stamp y m d h mi s =
     append_int y 4 @ ''-'' @ append_int m 2 @ ''-'' @ append_int d 2 @ ''T'' @
     append_int h 2 @ '':'' @ append_int mi 2 @ '':'' @ append_int s 2 @ ''Z''"

definition stamp_seconds :: "int \<Rightarrow> int \<Rightarrow> int \<Rightarrow> int \<Rightarrow> int \<Rightarrow> int \<Rightarrow> int" where
  "stamp_seconds y m d h mi s =
     86400 * (days_of_year y + sum_list (take (nat m - 1) (month_lengths y)) + d - 1)
       + 3600 * h + 60 * mi + s"

definition two_digits :: "int \<Rightarrow> bool" where
  "two_digits x \<longleftrightarrow> 0 \<le> x \<and> x < 100"

lemma zdiv_lt: "0 < (k::int) \<Longrightarrow> x < n * k \<Longrightarrow> x div k < n"
  using mult_div_mod_eq [of k x] pos_mod_sign [of k x]
  by (metis add_increasing2 leD leI mult.commute mult_le_cancel_left_pos order_trans)

lemma rfc3339_stamp:
  assumes "0 \<le> t"
  shows "\<exists>y m d h mi s. rfc3339 t = stamp y m d h mi s \<and> t div second = stamp_seconds y m d h mi s \<and>
    1 \<le> y \<and> list_all two_digits [m, d, h, mi, s]"
proof -
  define secs where "secs = t div second"
  obtain y yd where y: "civil_year (secs div 86400) = (y, yd)" by fastforce
  obtain m d where m: "month_day (month_lengths y) 1 yd = (m, d)" by fastforce
  let ?s = "secs mod 86400"
  have "0 \<le> secs" using assms by (simp add: secs_def second_def pos_imp_zdiv_nonneg_iff)
  then have y1: "1 \<le> y" using civil_year_pos [OF _ y] by (simp add: pos_imp_zdiv_nonneg_iff)
  have yd: "0 \<le> yd" "yd \<le> sum_list (month_lengths y)"
    using civil_year_inverse [OF y] by (auto simp: month_lengths_facts)
  have md: "1 \<le> m" "m < 13" "1 \<le> d" "d \<le> 32" "yd = sum_list (take (m - 1) (month_lengths y)) + d - 1"
    using month_day_bounds [OF m yd(1) _ _ yd(2)] month_lengths_facts(1-3) [of y] by auto
  have s: "0 \<le> ?s" "?s < 86400" by simp_all
  have "?s mod 3600 mod 60 = ?s mod 60" by (simp add: mod_mod_cancel)
  then have "3600 * (?s div 3600) + 60 * (?s mod 3600 div 60) + ?s mod 60 = ?s"
    using mult_div_mod_eq [of 3600 ?s] mult_div_mod_eq [of 60 "?s mod 3600"] by linarith
  moreover have "86400 * (secs div 86400) + ?s = secs" by simp
  ultimately have "secs = stamp_seconds y (int m) d (?s div 3600) (?s mod 3600 div 60) (?s mod 60)"
    unfolding stamp_seconds_def using civil_year_inverse(3) [OF y] md(5) by (simp add: algebra_simps)
  moreover have "rfc3339 t = stamp y (int m) d (?s div 3600) (?s mod 3600 div 60) (?s mod 60)"
    using m by (simp add: rfc3339_def stamp_def Let_def y flip: secs_def)
  moreover have "two_digits (?s div 3600)" "two_digits (?s mod 3600 div 60)"
    using s by (auto simp: two_digits_def pos_imp_zdiv_nonneg_iff intro!: less_imp_le zdiv_lt
        [THEN less_le_trans])
  moreover have "two_digits (?s mod 60)"
    unfolding two_digits_def by (rule conjI [OF pos_mod_sign less_le_trans [OF pos_mod_bound]]) simp_all
  moreover have "two_digits (int m)" "two_digits d" using md(1-4) by (simp_all add: two_digits_def)
  moreover have "list_all two_digits []" by simp
  ultimately show ?thesis using y1 unfolding secs_def list.pred_inject by blast
qed

lemma stamp_inj:
  assumes "stamp y m d h mi s = stamp y' m' d' h' mi' s'"
    and "1 \<le> y" "1 \<le> y'" "list_all two_digits [m, d, h, mi, s, m', d', h', mi', s']"
  shows "y = y' \<and> m = m' \<and> d = d' \<and> h = h' \<and> mi = mi' \<and> s = s'"
proof -
  let ?f = "\<lambda>x. append_int x 2"
  have eq: "append_int y 4 = append_int y' 4" "?f m = ?f m'" "?f d = ?f d'" "?f h = ?f h'"
    "?f mi = ?f mi'" "?f s = ?f s'"
    using assms(1,4) by (auto simp: stamp_def two_digits_def length_append_int2)
  then show ?thesis
    using assms by (simp add: append_int_inj two_digits_def)
qed

lemma rfc3339_inj:
  assumes "0 \<le> t" "0 \<le> u" "rfc3339 t = rfc3339 u"
  shows "t div second = u div second"
proof -
  obtain y m d h mi s where a: "rfc3339 t = stamp y m d h mi s" "t div second = stamp_seconds y m d h mi s"
    "1 \<le> y" "list_all two_digits [m, d, h, mi, s]"
    using rfc3339_stamp [OF assms(1)] by blast
  obtain y' m' d' h' mi' s' where b: "rfc3339 u = stamp y' m' d' h' mi' s'"
    "u div second = stamp_seconds y' m' d' h' mi' s'" "1 \<le> y'" "list_all two_digits [m', d', h', mi', s']"
    using rfc3339_stamp [OF assms(2)] by blast
  have "y = y' \<and> m = m' \<and> d = d' \<and> h = h' \<and> mi = mi' \<and> s = s'"
    using a b assms(3) by (intro stamp_inj) auto
  with a b show ?thesis by simp
qed

lemma rfc3339_no_nul: "CHR 0x00 \<notin> set (rfc3339 t)"
proof -
  have "CHR 0x00 \<notin> set (append_int x w)" for x w
    using append_int_chars [of "CHR 0x00" x w] by (auto simp: is_digit_char_def in_range_def)
  then show ?thesis by (auto simp: rfc3339_def Let_def split: prod.splits)
qed

end
