(* ===== verification/Api_Types.thy ===== *)
theory Api_Types
  imports Go_Time
begin

text \<open>
  The data of other modules that the program reads and builds: the alerts of
  \<^verbatim>\<open>github.com/prometheus/alertmanager/api/v2/models\<close>, the conditions of
  \<^verbatim>\<open>k8s.io/apimachinery\<close>, the runs of
  \<^verbatim>\<open>github.com/openshift/lightspeed-agentic-operator/api/v1alpha1\<close>, and the
  errors of their clients, with the fields the program uses.

  A pointer that may be nil is an option. A constant of one of those modules that the
  program compares with is a constructor of its own (Go rejects a \<^verbatim>\<open>switch\<close> whose
  cases are equal constants, so those of \<^verbatim>\<open>isTerminal\<close> differ), and every other
  value of the type is under the constructor named \<^verbatim>\<open>Other\<dots>\<close>; the empty condition
  type is \<^verbatim>\<open>OtherCondition ''''\<close>.
\<close>

section \<open>Alerts\<close>

record receiver =
  receiver_name :: "string option"

record alert =
  alert_labels :: gomap
  alert_annotations :: gomap
  alert_fingerprint :: "string option"
  alert_starts_at :: "time option"
  alert_receivers :: "receiver option list"

section \<open>AgenticRuns\<close>

datatype condition_type =
    ConditionVerified | ConditionDenied | ConditionEscalated | ConditionEmergencyStopped
  | OtherCondition string

datatype condition_status = ConditionFalse | OtherStatus string

record run_condition =
  cond_type :: condition_type
  cond_status :: condition_status
  cond_transition :: time

datatype run_phase =
    PhaseCompleted | PhaseFailed | PhaseDenied | PhaseEscalated | PhaseEmergencyStopped
  | OtherPhase string

record skills_source =
  skills_image :: string
  skills_paths :: "string list"

record run_spec =
  spec_request :: string
  spec_analysis :: string
  spec_execution :: string
  spec_verification :: string
  spec_target_cluster :: string
  spec_tools :: "skills_source list"

record agentic_run =
  run_api_version :: string
  run_kind :: string
  run_name :: string
  run_namespace :: string
  run_labels :: gomap
  run_annotations :: gomap
  run_spec :: run_spec
  run_conditions :: "run_condition list"

section \<open>Errors\<close>

text \<open>
  The errors of a Kubernetes client, as the predicates the program applies tell them
  apart: \<^verbatim>\<open>apierrors.IsAlreadyExists\<close>, \<^verbatim>\<open>apierrors.IsNotFound\<close> and
  \<^verbatim>\<open>meta.IsNoMatchError\<close>.
\<close>

datatype api_error = AlreadyExists | NotFound | NoMatch | OtherApiError string

text \<open>
  The errors the program returns, one constructor per \<^verbatim>\<open>fmt.Errorf\<close> or returned
  error; a wrapped error is an argument.
\<close>

datatype go_error =
    FingerprintNil                              \<comment> \<open>agenticrun: alert fingerprint is nil\<close>
  | StartsAtNil                                 \<comment> \<open>agenticrun: alert startsAt is nil\<close>
  | ListingRuns api_error                       \<comment> \<open>agenticrun: listing runs\<close>
  | CreatingRun string string api_error         \<comment> \<open>agenticrun: creating namespace/name\<close>
  | GettingConfig api_error                     \<comment> \<open>agenticolsconfig: getting cluster\<close>
  | GettingSpokeCluster string api_error        \<comment> \<open>getting SpokeCluster\<close>
  | ListingSpokeClusters api_error              \<comment> \<open>listing spoke clusters\<close>
  | ParsingUrl string                           \<comment> \<open>alertmanager: parsing url\<close>
  | InvalidUrl string                           \<comment> \<open>alertmanager: scheme and host are required\<close>
  | SchemeNotHttps                              \<comment> \<open>alertmanager: url scheme must be https\<close>
  | ReadingCa string string                     \<comment> \<open>alertmanager: reading ca certificate\<close>
  | NoCertificates string                       \<comment> \<open>alertmanager: no valid certificates found\<close>
  | ReadingToken string string                  \<comment> \<open>alertmanager: reading service account token\<close>
  | QueryingAlerts string                       \<comment> \<open>alertmanager: querying alerts\<close>
  | InvalidDuration string                      \<comment> \<open>config: invalid duration\<close>
  | DecodingNode string                         \<comment> \<open>an error of yaml.Node.Decode\<close>
  | ReadingConfigFile string                    \<comment> \<open>reading config file\<close>
  | ParsingConfigFile go_error                  \<comment> \<open>parsing config file\<close>
  | YamlError string                            \<comment> \<open>an error of yaml.Unmarshal itself\<close>
  | LocalClient go_error                        \<comment> \<open>creating local alertmanager client\<close>
  | NoTargets                                   \<comment> \<open>no targets configured: set ALERTMANAGER_URL\<close>
  | NotPositiveInteger string                   \<comment> \<open>the variable must be a positive integer\<close>
  | ManagerStopped                              \<comment> \<open>manager stopped unexpectedly\<close>
  | LoadingKubeconfig go_error                  \<comment> \<open>loading kubeconfig\<close>
  | RegisteringScheme string go_error           \<comment> \<open>registering core, agentic or hub scheme\<close>
  | CreatingClient go_error                     \<comment> \<open>creating client\<close>
  | LoadingManagerKubeconfig go_error           \<comment> \<open>loading kubeconfig for SpokeCluster controller\<close>
  | CreatingManager go_error                    \<comment> \<open>creating SpokeCluster controller manager\<close>
  | SettingUpController go_error                \<comment> \<open>setting up SpokeCluster controller\<close>
  | ExternalError string                        \<comment> \<open>an error passed through unchanged\<close>

end
