(* ===== verification/Go_Duration.thy ===== *)
theory Go_Duration
  imports Go_Time
begin

text \<open>
  \<^verbatim>\<open>time.ParseDuration\<close>, which \<^verbatim>\<open>Duration.UnmarshalYAML\<close> of the configuration calls.

  The scan follows the standard library: an optional sign, then numbers with a unit each.
  A number is the pair of an integer \<^verbatim>\<open>v\<close> and a fraction \<^verbatim>\<open>f / 10 ^ k\<close>. The
  integers are 64-bit words in Go; the function rejects every value above \<^verbatim>\<open>2 ^ 63\<close>
  before it could wrap around, so they are natural numbers here with the same tests. The
  fraction is scaled in float64; \<^verbatim>\<open>float_round\<close> is that rounding (53 significant bits,
  ties to even) of a positive quotient, as a pair of numerator and denominator.

  \<^verbatim>\<open>parse_duration_range\<close> shows that what is returned fits a signed 64-bit integer, and
  \<^verbatim>\<open>parse_duration_whole\<close> that a plain number of a unit is read as that number.
\<close>

section \<open>float64\<close>

fun bit_length_fuel :: "nat \<Rightarrow> nat \<Rightarrow> nat" where
  "bit_length_fuel 0 n = 0"
| "bit_length_fuel (Suc k) n = (if n = 0 then 0 else Suc (bit_length_fuel k (n div 2)))"

definition bit_length :: "nat \<Rightarrow> nat" where
  "bit_length n = bit_length_fuel n n"

definition float_round :: "nat \<Rightarrow> nat \<Rightarrow> nat \<times> nat" where
  "float_round p q =
     (let n = p * 2 ^ 128;
          d = q * 2 ^ (bit_length (n div q) - 53);
          m = n div d;
          r = n mod d;
          m' = (if d < 2 * r \<or> d = 2 * r \<and> odd m then m + 1 else m)
      in (m' * 2 ^ (bit_length (n div q) - 53), 2 ^ 128))"

definition float_mul :: "nat \<times> nat \<Rightarrow> nat \<times> nat \<Rightarrow> nat \<times> nat" where
  "float_mul a b = float_round (fst a * fst b) (snd a * snd b)"

text \<open>\<^verbatim>\<open>uint64(float64(f) * (float64(unit) / scale))\<close> with \<^verbatim>\<open>scale = 10 ^ k\<close>, \<^verbatim>\<open>k \<le> 19\<close>.\<close>

definition scale_fraction :: "nat \<Rightarrow> nat \<Rightarrow> nat \<Rightarrow> nat" where
  "scale_fraction f k unit =
     (let x = float_mul (float_round f 1) (float_round unit (10 ^ k)) in fst x div snd x)"

section \<open>Numbers\<close>

definition two63 :: nat where "two63 = 2 ^ 63"

definition digit_value :: "char \<Rightarrow> nat" where
  "digit_value c = char_code c - 48"

text \<open>\<^verbatim>\<open>leadingInt\<close>: \<^verbatim>\<open>None\<close> is an overflow.\<close>

fun leading_int :: "nat \<Rightarrow> string \<Rightarrow> (nat \<times> string) option" where
  "leading_int x [] = Some (x, [])"
| "leading_int x (c # s) =
     (if \<not> is_digit_char c then Some (x, c # s)
      else if two63 div 10 < x then None
      else let y = x * 10 + digit_value c in
           if two63 < y then None else leading_int y s)"

text \<open>\<^verbatim>\<open>leadingFraction\<close>, with the exponent of the scale; once \<^verbatim>\<open>over\<close> is set the digits are skipped.\<close>

fun leading_fraction :: "bool \<Rightarrow> nat \<Rightarrow> nat \<Rightarrow> string \<Rightarrow> nat \<times> nat \<times> string" where
  "leading_fraction over x k [] = (x, k, [])"
| "leading_fraction over x k (c # s) =
     (if \<not> is_digit_char c then (x, k, c # s)
      else if over \<or> (two63 - 1) div 10 < x then leading_fraction True x k s
      else let y = x * 10 + digit_value c in
           if two63 < y then leading_fraction True x k s
           else leading_fraction False y (Suc k) s)"

section \<open>Durations\<close>

definition unit_value :: "string \<Rightarrow> nat option" where
  "unit_value u =
     (if u = ''ns'' then Some 1
      else if u \<in> {''us'', [CHR 0xC2, CHR 0xB5, CHR ''s''], [CHR 0xCE, CHR 0xBC, CHR ''s'']} then Some 1000
      else if u = ''ms'' then Some 1000000
      else if u = ''s'' then Some 1000000000
      else if u = ''m'' then Some 60000000000
      else if u = ''h'' then Some 3600000000000
      else None)"

definition is_unit_char :: "char \<Rightarrow> bool" where
  "is_unit_char c \<longleftrightarrow> c \<noteq> CHR ''.'' \<and> \<not> is_digit_char c"

text \<open>The part of a number after its integer: \<^verbatim>\<open>(\.[0-9]*)?\<close>, with whether it has digits.\<close>

definition parse_fraction :: "string \<Rightarrow> nat \<times> nat \<times> bool \<times> string" where
  "parse_fraction s =
     (case s of
        c # t \<Rightarrow>
          if c = CHR ''.'' then
            let (f, k, r) = leading_fraction False 0 0 t in (f, k, length t \<noteq> length r, r)
          else (0, 0, False, s)
      | [] \<Rightarrow> (0, 0, False, s))"

definition add_unit :: "nat \<Rightarrow> nat \<Rightarrow> nat \<Rightarrow> nat \<Rightarrow> nat option" where
  "add_unit v f k unit =
     (if two63 div unit < v then None
      else let v = v * unit in
           if 0 < f then
             let v = v + scale_fraction f k unit in if two63 < v then None else Some v
           else Some v)"

text \<open>One round of the loop: the value of the next number and unit, and the rest of the text.\<close>

definition parse_component :: "string \<Rightarrow> (nat \<times> string) option" where
  "parse_component s =
     (if s = '''' \<or> \<not> (hd s = CHR ''.'' \<or> is_digit_char (hd s)) then None
      else case leading_int 0 s of
        None \<Rightarrow> None
      | Some (v, s1) \<Rightarrow>
          let pre = (length s1 \<noteq> length s);
              (f, k, post, s2) = parse_fraction s1
          in if \<not> pre \<and> \<not> post then None
             else let u = takeWhile is_unit_char s2 in
               if u = '''' then None
               else case unit_value u of
                   None \<Rightarrow> None
                 | Some unit \<Rightarrow>
                     map_option (\<lambda>v. (v, dropWhile is_unit_char s2)) (add_unit v f k unit))"

lemma leading_int_rest: "leading_int x s = Some (v, r) \<Longrightarrow> length r \<le> length s"
  by (induction x s rule: leading_int.induct) (auto simp: Let_def split: if_splits)

lemma leading_fraction_rest: "leading_fraction ov x k s = (f, j, r) \<Longrightarrow> length r \<le> length s"
  by (induction ov x k s rule: leading_fraction.induct) (auto simp: Let_def split: if_splits)

lemma parse_fraction_rest: "parse_fraction s = (f, k, p, r) \<Longrightarrow> length r \<le> length s"
  using leading_fraction_rest
  by (fastforce simp: parse_fraction_def split: list.splits if_splits prod.splits)

lemma parse_component_rest:
  assumes "parse_component s = Some (v, r)" shows "length r < length s"
proof -
  obtain w s1 f k p s2 where i: "leading_int 0 s = Some (w, s1)" "parse_fraction s1 = (f, k, p, s2)"
    "takeWhile is_unit_char s2 \<noteq> []" "r = dropWhile is_unit_char s2"
    using assms by (auto simp: parse_component_def Let_def split: if_splits option.splits prod.splits)
  have "length (takeWhile is_unit_char s2 @ dropWhile is_unit_char s2) = length s2" by simp
  with i(3,4) have "length r < length s2" by (cases "takeWhile is_unit_char s2") auto
  with leading_int_rest [OF i(1)] parse_fraction_rest [OF i(2)] show ?thesis by linarith
qed

function parse_components :: "nat \<Rightarrow> string \<Rightarrow> nat option" where
  "parse_components d s =
     (if s = '''' then Some d
      else case parse_component s of
          None \<Rightarrow> None
        | Some (v, r) \<Rightarrow> if two63 < d + v then None else parse_components (d + v) r)"
  by pat_completeness auto
termination
  by (relation "measure (\<lambda>(d, s). length s)") (auto dest: parse_component_rest)

declare parse_components.simps [simp del]

lemma parse_components_Nil [simp]: "parse_components d [] = Some d"
  by (simp add: parse_components.simps)

definition parse_duration :: "string \<Rightarrow> duration option" where
  "parse_duration orig =
     (let signed = (orig \<noteq> '''' \<and> (hd orig = CHR ''-'' \<or> hd orig = CHR ''+''));
          neg = (signed \<and> hd orig = CHR ''-'');
          s = (if signed then tl orig else orig)
      in if s = ''0'' then Some 0
         else if s = '''' then None
         else case parse_components 0 s of
             None \<Rightarrow> None
           | Some d \<Rightarrow>
               if neg then Some (- int d)
               else if two63 - 1 < d then None
               else Some (int d))"

section \<open>What it returns\<close>

lemma parse_components_range: "parse_components d s = Some n \<Longrightarrow> d \<le> two63 \<Longrightarrow> n \<le> two63"
proof (induction d s rule: parse_components.induct)
  case (1 d s)
  show ?case
  proof (cases "s = ''''")
    case False
    then obtain v r where c: "parse_component s = Some (v, r)" "\<not> two63 < d + v"
      "parse_components (d + v) r = Some n"
      using "1.prems"(1) by (auto simp: parse_components.simps [of d s] split: option.splits if_splits)
    with "1.IH" [OF False c(1) refl c(2,3)] show ?thesis by simp
  qed (use "1.prems" in simp)
qed

lemma parse_duration_range:
  "parse_duration s = Some d \<Longrightarrow> min_duration \<le> d \<and> d \<le> max_duration"
  using parse_components_range [of 0]
  by (fastforce simp: parse_duration_def Let_def min_duration_def max_duration_def two63_def
      split: if_splits option.splits)

text \<open>A plain number is read as it was printed.\<close>

lemma leading_int_digits:
  assumes "list_all is_digit_char ds" and "r = [] \<or> \<not> is_digit_char (hd r)"
    and "foldl (\<lambda>acc c. 10 * acc + digit_value c) x ds \<le> two63"
  shows "leading_int x (ds @ r) = Some (foldl (\<lambda>acc c. 10 * acc + digit_value c) x ds, r)"
  using assms(1,3)
proof (induction ds arbitrary: x)
  case Nil
  with assms(2) show ?case by (cases r) auto
next
  case (Cons c ds)
  let ?f = "\<lambda>acc c. 10 * acc + digit_value c"
  have "y \<le> foldl ?f y cs" for y cs
  proof (induction cs arbitrary: y)
    case (Cons c cs)
    show ?case using Cons.IH [of "?f y c"] by simp
  qed simp
  from this [of "?f x c" ds] have "10 * x + digit_value c \<le> two63" using Cons.prems(2) by simp
  moreover from this have "x \<le> two63 div 10" by (simp add: less_eq_div_iff_mult_less_eq)
  ultimately show ?case using Cons by (simp add: mult.commute)
qed

lemma leading_int_decimal:
  assumes "n \<le> two63" and "r = [] \<or> \<not> is_digit_char (hd r)"
  shows "leading_int 0 (decimal n @ r) = Some (n, r)"
  using leading_int_digits [OF decimal_digits assms(2), of 0 n] read_decimal [of n] assms(1)
  by (simp add: read_decimal_def digit_value_def)

lemma parse_duration_whole:
  assumes u: "unit_value u = Some unit" "list_all is_unit_char u" and n: "n * unit < two63"
  shows "parse_duration (decimal n @ u) = Some (int (n * unit))"
    and "parse_duration (CHR ''-'' # decimal n @ u) = Some (- int (n * unit))"
proof -
  have un: "u \<noteq> []" "1 \<le> unit" using u(1) by (auto simp: unit_value_def split: if_splits)
  then have "n \<le> n * unit" by simp
  with n have n': "n \<le> two63" by linarith
  have u1: "is_unit_char (hd u)" using u(2) un(1) by (cases u) auto
  then have nd: "\<not> is_digit_char (hd u)" "hd u \<noteq> CHR ''.''" by (auto simp: is_unit_char_def)
  have "is_digit_char (hd (decimal n))"
    using decimal_digits [of n] decimal_nonempty [of n] by (cases "decimal n") auto
  then have hd: "is_digit_char (hd (decimal n @ u))" by simp
  have "n \<le> two63 div unit" using n un(2) by (simp add: less_eq_div_iff_mult_less_eq)
  moreover have tw: "takeWhile is_unit_char u = u" "dropWhile is_unit_char u = []"
    using u(2) by (auto simp: list_all_iff takeWhile_eq_all_conv)
  moreover have "parse_fraction u = (0, 0, False, u)"
    using un(1) nd(2) by (cases u) (auto simp: parse_fraction_def)
  ultimately have "parse_component (decimal n @ u) = Some (n * unit, [])"
    using hd leading_int_decimal [OF n', of u] nd un(1) u(1)
    by (simp add: parse_component_def add_unit_def Let_def tw)
  then have c: "parse_components 0 (decimal n @ u) = Some (n * unit)"
    using n by (simp add: parse_components.simps [of 0 "decimal n @ u"])
  have "length (decimal n @ u) \<noteq> length ''0''"
    using un(1) decimal_nonempty [of n] by (cases u; cases "decimal n") auto
  then have z: "decimal n @ u \<noteq> ''0''" by metis
  have "is_digit_char (CHR ''-'') = False" "is_digit_char (CHR ''+'') = False"
    by (simp_all add: is_digit_char_def in_range_def)
  with hd have s: "hd (decimal n @ u) \<noteq> CHR ''-''" "hd (decimal n @ u) \<noteq> CHR ''+''" by auto
  show "parse_duration (decimal n @ u) = Some (int (n * unit))"
    using c z s n by (simp add: parse_duration_def Let_def)
  show "parse_duration (CHR ''-'' # decimal n @ u) = Some (- int (n * unit))"
    using c z n by (simp add: parse_duration_def Let_def)
qed

end
