(* ===== verification/Config.thy ===== *)
theory Config
  imports Api_Types Go_Duration
begin

text \<open>
  \<^verbatim>\<open>internal/config/config.go\<close>: the settings of the adapter and how they are read.

  The YAML decoder and the file system are not part of the repository.
  \<^verbatim>\<open>load_from_file\<close> takes the answer of \<^verbatim>\<open>os.ReadFile\<close>, the value of the environment
  variable and the decoder as arguments; the decoder is a function of the program's own
  \<^verbatim>\<open>UnmarshalYAML\<close> (\<^verbatim>\<open>unmarshal_yaml\<close>), which it applies to the nodes of durations, and
  of the data. A node is known by what \<^verbatim>\<open>Decode\<close> into a string answers for it. The
  result is the configuration, the error and the log records.
\<close>

section \<open>Settings\<close>

record agent_config =
  agent_default :: string
  agent_analysis :: string
  agent_execution :: string
  agent_verification :: string

record tools_config =
  tools_shared :: "skills_source list"

record config =
  poll_interval :: duration
  pre_run_delay :: duration
  post_run_delay :: duration
  allowed_receivers :: "string list"
  ignored_labels :: "string list"
  config_tools :: tools_config
  config_agent :: agent_config

definition default_poll_interval :: duration where "default_poll_interval = 30 * second"
definition default_pre_run_delay :: duration where "default_pre_run_delay = 0"
definition default_post_run_delay :: duration where "default_post_run_delay = 1 * hour"

definition default_config_path :: string where
  "default_config_path = ''/etc/alerts-adapter/config.yaml''"
definition agentic_skills_image_env :: string where
  "agentic_skills_image_env = ''AGENTIC_SKILLS_IMAGE''"

definition default_ignored_labels :: "string list" where
  "default_ignored_labels = [''pod'', ''instance'', ''endpoint'', ''uid'']"

definition no_agent :: agent_config where
  "no_agent = \<lparr>agent_default = '''', agent_analysis = '''', agent_execution = '''',
     agent_verification = ''''\<rparr>"

definition default_config :: config where
  "default_config =
     \<lparr>poll_interval = default_poll_interval,
      pre_run_delay = default_pre_run_delay,
      post_run_delay = default_post_run_delay,
      allowed_receivers = [],
      ignored_labels = [] @ default_ignored_labels,
      config_tools = \<lparr>tools_shared = []\<rparr>,
      config_agent = no_agent\<rparr>"

section \<open>The file\<close>

record skills_entry =
  entry_image :: string
  entry_paths :: "string list"

record cfg_duration =
  dur_value :: duration
  dur_is_set :: bool

record config_file =
  file_poll_interval :: cfg_duration
  file_pre_run_delay :: cfg_duration
  file_post_run_delay :: cfg_duration
  file_allowed_receivers :: "string list option"
  filtering_allowed_receivers :: "string list option"
  dedup_ignored_labels :: "string list option"
  tools_skills :: "skills_entry list"
  file_agent :: agent_config

definition no_duration :: cfg_duration where
  "no_duration = \<lparr>dur_value = 0, dur_is_set = False\<rparr>"

datatype config_log =
    ConfigNotFound string
  | PollIntervalNotPositive duration
  | SkillsMissingImage string
  | SkillsMissingPaths string

text \<open>A node of the document, as \<^verbatim>\<open>value.Decode(&s)\<close> answers: an error or a string.\<close>

type_synonym yaml_node = "string + string"

definition unmarshal_yaml :: "yaml_node \<Rightarrow> go_error + cfg_duration" where
  "unmarshal_yaml node =
     (case node of
        Inl err \<Rightarrow> Inl (DecodingNode err)
      | Inr s \<Rightarrow>
          (case parse_duration s of
             None \<Rightarrow> Inl (InvalidDuration s)
           | Some parsed \<Rightarrow> Inr \<lparr>dur_value = parsed, dur_is_set = True\<rparr>))"

type_synonym yaml_decoder =
  "(yaml_node \<Rightarrow> go_error + cfg_duration) \<Rightarrow> string \<Rightarrow> go_error + config_file"

text \<open>The answer of \<^verbatim>\<open>os.ReadFile\<close>.\<close>

datatype read_result = FileData string | FileNotExist | FileError string

section \<open>Skills\<close>

fun parse_skills ::
  "skills_entry list \<Rightarrow> string \<Rightarrow> string \<Rightarrow> skills_source list \<times> config_log list" where
  "parse_skills [] step default_image = ([], [])"
| "parse_skills (e # es) step default_image =
     (let (skills, logs) = parse_skills es step default_image;
          image = (if entry_image e = '''' then default_image else entry_image e);
          paths = filter (\<lambda>p. p \<noteq> '''') (entry_paths e)
      in if image = '''' then (skills, SkillsMissingImage step # logs)
         else if length paths = 0 then (skills, SkillsMissingPaths step # logs)
         else (\<lparr>skills_image = image, skills_paths = paths\<rparr> # skills, logs))"

section \<open>Reading the file\<close>

definition apply_poll_interval :: "cfg_duration \<Rightarrow> config \<Rightarrow> config \<times> config_log list" where
  "apply_poll_interval d cfg =
     (if dur_is_set d then
        if 0 < dur_value d then (cfg\<lparr>poll_interval := dur_value d\<rparr>, [])
        else (cfg, [PollIntervalNotPositive (dur_value d)])
      else (cfg, []))"

definition clamp_delay :: "cfg_duration \<Rightarrow> duration \<Rightarrow> duration" where
  "clamp_delay d old =
     (if dur_is_set d then if 0 < dur_value d then dur_value d else 0 else old)"

definition normalized_receivers :: "config_file \<Rightarrow> string list \<Rightarrow> string list" where
  "normalized_receivers cf old =
     (let raw = (if filtering_allowed_receivers cf \<noteq> None then filtering_allowed_receivers cf
                 else file_allowed_receivers cf)
      in case raw of None \<Rightarrow> old | Some rs \<Rightarrow> map to_lower rs)"

definition apply_config_file ::
  "config_file \<Rightarrow> string \<Rightarrow> config \<Rightarrow> config \<times> config_log list" where
  "apply_config_file cf skills_image_env cfg =
     (let (cfg, log1) = apply_poll_interval (file_poll_interval cf) cfg;
          cfg = cfg\<lparr>pre_run_delay := clamp_delay (file_pre_run_delay cf) (pre_run_delay cfg)\<rparr>;
          cfg = cfg\<lparr>post_run_delay := clamp_delay (file_post_run_delay cf) (post_run_delay cfg)\<rparr>;
          cfg = cfg\<lparr>allowed_receivers := normalized_receivers cf (allowed_receivers cfg)\<rparr>;
          cfg = (case dedup_ignored_labels cf of
                   None \<Rightarrow> cfg | Some ls \<Rightarrow> cfg\<lparr>ignored_labels := ls\<rparr>);
          (shared, log2) = parse_skills (tools_skills cf) ''shared'' skills_image_env;
          cfg = cfg\<lparr>config_tools := \<lparr>tools_shared = shared\<rparr>\<rparr>;
          cfg = cfg\<lparr>config_agent := file_agent cf\<rparr>
      in (cfg, log1 @ log2))"

definition load_from_file ::
  "(string \<Rightarrow> read_result) \<Rightarrow> yaml_decoder \<Rightarrow> (string \<Rightarrow> string) \<Rightarrow> string
   \<Rightarrow> config \<times> go_error option \<times> config_log list" where
  "load_from_file read_file unmarshal getenv path =
     (let cfg = default_config in
      case read_file path of
        FileNotExist \<Rightarrow> (cfg, None, [ConfigNotFound path])
      | FileError e \<Rightarrow> (cfg, Some (ReadingConfigFile e), [])
      | FileData data \<Rightarrow>
          (case unmarshal unmarshal_yaml data of
             Inl e \<Rightarrow> (cfg, Some (ParsingConfigFile e), [])
           | Inr cf \<Rightarrow>
               let (cfg, logs) = apply_config_file cf (getenv agentic_skills_image_env) cfg
               in (cfg, None, logs)))"

section \<open>What a loaded configuration satisfies\<close>

definition usable_skill :: "skills_source \<Rightarrow> bool" where
  "usable_skill s \<longleftrightarrow> skills_image s \<noteq> '''' \<and> skills_paths s \<noteq> [] \<and> '''' \<notin> set (skills_paths s)"

definition config_ok :: "config \<Rightarrow> bool" where
  "config_ok c \<longleftrightarrow> 0 < poll_interval c \<and> 0 \<le> pre_run_delay c \<and> 0 \<le> post_run_delay c \<and>
     list_all usable_skill (tools_shared (config_tools c))"

lemmas default_defs = default_config_def default_poll_interval_def default_pre_run_delay_def
  default_post_run_delay_def second_def minute_def hour_def

lemma config_ok_default: "config_ok default_config"
  by (simp add: config_ok_def default_defs)

text \<open>An entry of the file as the skills source it stands for, when it is complete.\<close>

definition skill_of_entry :: "string \<Rightarrow> skills_entry \<Rightarrow> skills_source option" where
  "skill_of_entry default_image e =
     (let s = \<lparr>skills_image = (if entry_image e = '''' then default_image else entry_image e),
               skills_paths = filter (\<lambda>p. p \<noteq> '''') (entry_paths e)\<rparr>
      in if usable_skill s then Some s else None)"

lemma parse_skills_map_filter: "fst (parse_skills es step d) = List.map_filter (skill_of_entry d) es"
  by (induction es)
    (auto simp: Let_def map_filter_simps skill_of_entry_def usable_skill_def split: prod.splits)

lemma parse_skills_logged:
  "length (fst (parse_skills es step d)) + length (snd (parse_skills es step d)) = length es"
  by (induction es) (auto simp: Let_def split: prod.splits)

lemma parse_skills_usable: "list_all usable_skill (fst (parse_skills es step d))"
  unfolding parse_skills_map_filter
  by (induction es) (auto simp: map_filter_simps skill_of_entry_def Let_def split: option.split)

lemma apply_config_file_ok:
  assumes "config_ok c"
  shows "config_ok (fst (apply_config_file cf img c))"
  using assms parse_skills_usable [of "tools_skills cf" "''shared''" img]
  by (auto simp: apply_config_file_def apply_poll_interval_def clamp_delay_def config_ok_def Let_def
      split: prod.splits option.splits)

lemma apply_config_file_receivers:
  "allowed_receivers (fst (apply_config_file cf img c)) = normalized_receivers cf (allowed_receivers c)"
  by (auto simp: apply_config_file_def apply_poll_interval_def Let_def split: prod.splits option.splits)

lemma load_from_file_ok:
  "case load_from_file read_file unmarshal getenv path of
     (cfg, err, logs) \<Rightarrow> config_ok cfg \<and> (err = None \<or> cfg = default_config)"
  using config_ok_default apply_config_file_ok [OF config_ok_default]
  by (auto simp: load_from_file_def Let_def split: read_result.split sum.split prod.splits)
    (metis fst_conv)

text \<open>
  C26. Whatever the file, the decoder and the environment answer, the configuration
  returned has a positive poll interval, delays that are not negative and only skills with
  an image and non-empty paths; with an error it is the default configuration.
\<close>

theorem load_from_file_config_ok:
  "case load_from_file read_file unmarshal getenv path of
     (cfg, err, logs) \<Rightarrow> config_ok cfg \<and> (err = None \<or> cfg = default_config)"
  by (rule load_from_file_ok)

text \<open>
  C27. Parsing the skills keeps exactly the complete entries, in order, with the default
  image where none is given and without empty paths, and logs one record for every entry
  it drops.
\<close>

theorem parse_skills_spec:
  "fst (parse_skills es step d) = List.map_filter (skill_of_entry d) es \<and>
   length (fst (parse_skills es step d)) + length (snd (parse_skills es step d)) = length es \<and>
   list_all usable_skill (fst (parse_skills es step d))"
  using parse_skills_map_filter parse_skills_logged parse_skills_usable by blast

lemma load_from_file_delays:
  assumes "read_file path = FileData data" and "unmarshal unmarshal_yaml data = Inr cf"
    and "file_poll_interval cf = p" and "file_pre_run_delay cf = pre" and "file_post_run_delay cf = post"
  shows "case load_from_file read_file unmarshal getenv path of (cfg, err, logs) \<Rightarrow>
    err = None \<and>
    poll_interval cfg = (if dur_is_set p \<and> 0 < dur_value p then dur_value p else default_poll_interval) \<and>
    pre_run_delay cfg = (if dur_is_set pre then max 0 (dur_value pre) else default_pre_run_delay) \<and>
    post_run_delay cfg = (if dur_is_set post then max 0 (dur_value post) else default_post_run_delay) \<and>
    (PollIntervalNotPositive (dur_value p) \<in> set logs) = (dur_is_set p \<and> dur_value p \<le> 0)"
proof -
  have s: "PollIntervalNotPositive x \<notin> set (snd (parse_skills es step d))" for x es step d
    by (induction es) (auto simp: Let_def split: prod.splits)
  show ?thesis
    using assms s [of "dur_value p" "tools_skills cf" "''shared''" "getenv agentic_skills_image_env"]
    by (auto simp: load_from_file_def apply_config_file_def apply_poll_interval_def clamp_delay_def
        default_config_def Let_def split: prod.splits option.splits)
qed

text \<open>A decoder that applies the callback to the nodes of a document with the three durations.\<close>

definition sample_file :: "cfg_duration \<Rightarrow> config_file" where
  "sample_file d = \<lparr>file_poll_interval = d, file_pre_run_delay = d, file_post_run_delay = no_duration,
     file_allowed_receivers = None, filtering_allowed_receivers = None, dedup_ignored_labels = None,
     tools_skills = [], file_agent = no_agent\<rparr>"

definition sample_decoder :: yaml_decoder where
  "sample_decoder f data = (case f (Inr data) of Inl e \<Rightarrow> Inl e | Inr d \<Rightarrow> Inr (sample_file d))"

text \<open>
  C28. A duration written as a whole number of a unit is read as exactly that many
  nanoseconds and marked as set, for every value below 2^63 nanoseconds.
\<close>

theorem unmarshal_yaml_whole:
  assumes "unit_value u = Some unit" and "list_all is_unit_char u" and "n * unit < 2 ^ 63"
  shows "unmarshal_yaml (Inr (decimal n @ u)) = Inr \<lparr>dur_value = int (n * unit), dur_is_set = True\<rparr>"
  using parse_duration_whole(1) [OF assms(1,2)] assms(3) by (simp add: unmarshal_yaml_def two63_def)

lemma decimal_30: "decimal 30 = ''30''"
  by (simp add: decimal.simps char_of_digits)

theorem unmarshal_yaml_whole_witness:
  "unmarshal_yaml (Inr ''30s'') = Inr \<lparr>dur_value = 30 * second, dur_is_set = True\<rparr>"
proof -
  have "unit_value ''s'' = Some 1000000000" by (simp add: unit_value_def)
  moreover have "list_all is_unit_char ''s''"
    by (simp add: is_unit_char_def is_digit_char_def in_range_def)
  ultimately show ?thesis
    using unmarshal_yaml_whole [of "''s''" 1000000000 30] by (simp add: decimal_30 second_def)
qed

end
