(* ===== verification/Go_Hash.thy ===== *)
theory Go_Hash
  imports Go_Strings
begin

text \<open>
  The hashing of the standard library the program calls.

  \<^item> \<^verbatim>\<open>put_uvarint\<close>: \<^verbatim>\<open>binary.PutUvarint\<close>, the unsigned base-128 varint of a
    64-bit word. \<^verbatim>\<open>put_uvarint_append_inj\<close> shows the code is prefix free and
    \<^verbatim>\<open>length_put_uvarint\<close> that it fits \<^verbatim>\<open>binary.MaxVarintLen64\<close> bytes.
  \<^item> \<^verbatim>\<open>fnv_write\<close>: one \<^verbatim>\<open>Write\<close> to \<^verbatim>\<open>fnv.New64a()\<close>, with the state kept
    in a 64-bit word whose multiplication wraps around.
  \<^item> \<^verbatim>\<open>sha256\<close>: \<^verbatim>\<open>sha256.Sum256\<close> on 32-bit words (FIPS 180-4).

  Bytes are numbers below 256; \<^verbatim>\<open>str_bytes\<close> are the bytes of a string.
\<close>

unbundle bit_operations_syntax

type_synonym u64 = "64 word"
type_synonym u32 = "32 word"

definition str_bytes :: "string \<Rightarrow> byte list" where
  "str_bytes s = map of_char s"

section \<open>Varints\<close>

lemma drop_bit7_less: "0x80 \<le> (x :: u64) \<Longrightarrow> unat (drop_bit 7 x) < unat x"
proof -
  assume "0x80 \<le> x"
  then have "128 \<le> unat x" by (simp add: word_le_nat_alt)
  then show ?thesis by (simp add: drop_bit_eq_div unat_div)
qed

function put_uvarint :: "u64 \<Rightarrow> byte list" where
  "put_uvarint x = (if x < 0x80 then [unat (ucast x :: 8 word)]
     else unat ((ucast x :: 8 word) OR 0x80) # put_uvarint (drop_bit 7 x))"
  by pat_completeness auto
termination
  by (relation "measure unat") (use drop_bit7_less in auto)

declare put_uvarint.simps [simp del]

lemma nat_or_128:
  assumes "(n :: nat) < 256"
  shows "n OR 128 = 128 + n mod 128"
proof -
  have b128: "bit (128 :: nat) i \<longleftrightarrow> i = 7" for i
    using bit_exp_iff [of "7" i, where 'a = nat] by (auto simp: possible_bit_nat)
  have "take_bit 8 n = n" using assms by (simp add: take_bit_eq_mod)
  then have "bit n i \<Longrightarrow> i < 8" for i by (metis bit_take_bit_iff)
  then have bn: "bit n i \<Longrightarrow> i < 7 \<or> i = 7" for i using le_neq_implies_less less_Suc_eq_le by force
  have "n OR 128 = take_bit 7 n OR 128"
    by (rule bit_eqI) (use bn in \<open>auto simp: bit_or_iff bit_take_bit_iff b128\<close>)
  also have "\<dots> = take_bit 7 n + 128"
    by (rule disjunctive_add [symmetric]) (auto simp: bit_take_bit_iff b128)
  finally show ?thesis by (simp add: take_bit_eq_mod)
qed

lemma uvarint_byte: "unat ((ucast (x :: u64) :: 8 word) OR 0x80) = 128 + unat x mod 128"
proof -
  have "unat (ucast x :: 8 word) < 256" using unsigned_less [of "ucast x :: 8 word", where 'a = nat] by simp
  then have "unat (ucast x :: 8 word) OR 128 = 128 + unat (ucast x :: 8 word) mod 128"
    by (rule nat_or_128)
  moreover have "unat (ucast x :: 8 word) mod 128 = unat x mod 128"
    by (simp add: unsigned_ucast_eq take_bit_eq_mod mod_mod_cancel)
  ultimately show ?thesis by (simp add: unsigned_or_eq)
qed

lemma uvarint_small: "(x::u64) < 0x80 \<Longrightarrow> unat (ucast x :: 8 word) = unat x"
  by (simp add: unsigned_ucast_eq take_bit_eq_mod word_less_nat_alt)
lemma uvarint_less: "(x :: u64) < 0x80 \<longleftrightarrow> unat x < 128"
  by (simp add: word_less_nat_alt)

lemma unat_drop_bit7: "unat (drop_bit 7 (x :: u64)) = unat x div 128"
  by (simp add: drop_bit_eq_div unat_div)

lemma put_uvarint_eq:
  "put_uvarint x = (if unat x < 128 then [unat x] else (128 + unat x mod 128) # put_uvarint (drop_bit 7 x))"
  by (subst put_uvarint.simps) (auto simp: uvarint_less uvarint_byte uvarint_small)

lemma put_uvarint_append_inj:
  "put_uvarint x @ s = put_uvarint y @ t \<Longrightarrow> x = y \<and> s = t"
proof (induction x arbitrary: y rule: put_uvarint.induct)
  case (1 x)
  show ?case
  proof (cases "unat x < 128 \<or> unat y < 128")
    case True
    with "1.prems" show ?thesis
      by (auto simp: put_uvarint_eq [of x] put_uvarint_eq [of y] word_unat_eq_iff split: if_splits)
  next
    case False
    with "1.prems" have tl: "put_uvarint (drop_bit 7 x) @ s = put_uvarint (drop_bit 7 y) @ t"
      and m: "unat x mod 128 = unat y mod 128"
      by (simp_all add: put_uvarint_eq [of x] put_uvarint_eq [of y])
    from False have "\<not> x < 0x80" by (simp add: uvarint_less)
    from "1.IH" [OF this tl] have d: "drop_bit 7 x = drop_bit 7 y" and st: "s = t" by simp_all
    have "unat x div 128 = unat y div 128" using d by (metis unat_drop_bit7)
    with m have "unat x = unat y" by (metis div_mult_mod_eq)
    with st show ?thesis by (simp add: word_unat_eq_iff)
  qed
qed

lemma length_put_uvarint_le: "unat x < 128 ^ k \<Longrightarrow> 0 < k \<Longrightarrow> length (put_uvarint x) \<le> k"
proof (induction x arbitrary: k rule: put_uvarint.induct)
  case (1 x)
  show ?case
  proof (cases "unat x < 128")
    case True
    with 1 show ?thesis by (simp add: put_uvarint_eq [of x])
  next
    case False
    obtain j where k: "k = Suc j" using "1.prems" by (cases k) auto
    with False "1.prems" have j: "0 < j" by (cases j) auto
    have "unat (drop_bit 7 x) < 128 ^ j"
      using "1.prems"(1) k by (simp add: unat_drop_bit7 less_mult_imp_div_less mult.commute)
    moreover from False have "\<not> x < 0x80" by (simp add: uvarint_less)
    ultimately have "length (put_uvarint (drop_bit 7 x)) \<le> j" using "1.IH" j by blast
    with False k show ?thesis by (simp add: put_uvarint_eq [of x])
  qed
qed

lemma length_put_uvarint: "length (put_uvarint x) \<le> 10"
  using unsigned_less [of x, where 'a = nat] by (intro length_put_uvarint_le) simp_all

lemma put_uvarint_nonempty [simp]: "put_uvarint x \<noteq> []"
  by (subst put_uvarint.simps) simp

lemma str_bytes_inj [simp]: "str_bytes s = str_bytes t \<longleftrightarrow> s = t"
  by (simp add: str_bytes_def inj_map_eq_map inj_def)

lemma length_str_bytes [simp]: "length (str_bytes s) = length s"
  by (simp add: str_bytes_def)

lemma str_bytes_append [simp]: "str_bytes (s @ t) = str_bytes s @ str_bytes t"
  by (simp add: str_bytes_def)

section \<open>FNV-1a, 64 bits\<close>

definition fnv_offset :: u64 where "fnv_offset = 14695981039346656037"
definition fnv_prime :: u64 where "fnv_prime = 1099511628211"

definition fnv_byte :: "u64 \<Rightarrow> byte \<Rightarrow> u64" where
  "fnv_byte h b = (h XOR word_of_nat b) * fnv_prime"

definition fnv_write :: "u64 \<Rightarrow> byte list \<Rightarrow> u64" where
  "fnv_write h bs = foldl fnv_byte h bs"

lemma fnv_write_append [simp]: "fnv_write h (xs @ ys) = fnv_write (fnv_write h xs) ys"
  by (simp add: fnv_write_def)

lemma fnv_write_Nil [simp]: "fnv_write h [] = h"
  by (simp add: fnv_write_def)

text \<open>The verb \<^verbatim>\<open>%016x\<close>: all sixteen hexadecimal digits of a 64-bit word.\<close>

definition hex16 :: "u64 \<Rightarrow> string" where
  "hex16 w = map (\<lambda>i. hex_digit (unat w div 16 ^ i mod 16)) (rev [0..<16])"

lemma length_hex16 [simp]: "length (hex16 w) = 16"
  by (simp add: hex16_def)

lemma hex16_hex: "list_all is_hex_char (hex16 w)"
  by (simp add: hex16_def list_all_iff)

section \<open>SHA-256\<close>

definition sha_k :: "u32 list" where
  "sha_k = [
     1116352408, 1899447441, 3049323471, 3921009573, 961987163, 1508970993, 2453635748,
     2870763221, 3624381080, 310598401, 607225278, 1426881987, 1925078388, 2162078206,
     2614888103, 3248222580, 3835390401, 4022224774, 264347078, 604807628, 770255983,
     1249150122, 1555081692, 1996064986, 2554220882, 2821834349, 2952996808, 3210313671,
     3336571891, 3584528711, 113926993, 338241895, 666307205, 773529912, 1294757372,
     1396182291, 1695183700, 1986661051, 2177026350, 2456956037, 2730485921, 2820302411,
     3259730800, 3345764771, 3516065817, 3600352804, 4094571909, 275423344, 430227734,
     506948616, 659060556, 883997877, 958139571, 1322822218, 1537002063, 1747873779,
     1955562222, 2024104815, 2227730452, 2361852424, 2428436474, 2756734187, 3204031479,
     3329325298]"

datatype sha_state = Sha_State u32 u32 u32 u32 u32 u32 u32 u32

definition sha_init :: sha_state where
  "sha_init = Sha_State 0x6a09e667 0xbb67ae85 0x3c6ef372 0xa54ff53a
                        0x510e527f 0x9b05688c 0x1f83d9ab 0x5be0cd19"

definition rotr32 :: "nat \<Rightarrow> u32 \<Rightarrow> u32" where
  "rotr32 n w = (drop_bit n w) OR (push_bit (32 - n) w)"

text \<open>
  The message schedule, as a window over the last sixteen words: each step emits the
  oldest word and appends the next one.
\<close>

definition sha_next :: "u32 list \<Rightarrow> u32" where
  "sha_next w =
     (let w15 = w ! 1; w2 = w ! 14 in
      (rotr32 17 w2 XOR rotr32 19 w2 XOR drop_bit 10 w2) + w ! 9
        + (rotr32 7 w15 XOR rotr32 18 w15 XOR drop_bit 3 w15) + w ! 0)"

fun sha_schedule :: "nat \<Rightarrow> u32 list \<Rightarrow> u32 list" where
  "sha_schedule 0 w = w"
| "sha_schedule (Suc n) w = hd w # sha_schedule n (tl w @ [sha_next w])"

fun sha_round :: "sha_state \<Rightarrow> u32 \<times> u32 \<Rightarrow> sha_state" where
  "sha_round (Sha_State a b c d e f g h) (k, w) =
     (let t1 = h + (rotr32 6 e XOR rotr32 11 e XOR rotr32 25 e)
                 + ((e AND f) XOR (NOT e AND g)) + k + w;
          t2 = (rotr32 2 a XOR rotr32 13 a XOR rotr32 22 a)
                 + ((a AND b) XOR (a AND c) XOR (b AND c))
      in Sha_State (t1 + t2) a b c (d + t1) e f g)"

fun sha_add :: "sha_state \<Rightarrow> sha_state \<Rightarrow> sha_state" where
  "sha_add (Sha_State a b c d e f g h) (Sha_State a' b' c' d' e' f' g' h') =
     Sha_State (a + a') (b + b') (c + c') (d + d') (e + e') (f + f') (g + g') (h + h')"

definition sha_block :: "sha_state \<Rightarrow> u32 list \<Rightarrow> sha_state" where
  "sha_block st w = sha_add st (foldl sha_round st (zip sha_k (sha_schedule 48 w)))"

fun be_words :: "byte list \<Rightarrow> u32 list" where
  "be_words (a # b # c # d # r) =
     word_of_nat (a * 16777216 + b * 65536 + c * 256 + d) # be_words r"
| "be_words _ = []"

definition be_bytes :: "nat \<Rightarrow> nat \<Rightarrow> byte list" where
  "be_bytes n x = map (\<lambda>i. x div 256 ^ i mod 256) (rev [0..<n])"

definition sha_pad :: "byte list \<Rightarrow> byte list" where
  "sha_pad m = m @ [0x80] @ replicate ((119 - length m mod 64) mod 64) 0
                 @ be_bytes 8 (8 * length m)"

function sha_blocks :: "sha_state \<Rightarrow> u32 list \<Rightarrow> sha_state" where
  "sha_blocks st ws =
     (if ws = [] then st else sha_blocks (sha_block st (take 16 ws)) (drop 16 ws))"
  by pat_completeness auto
termination
  by (relation "measure (\<lambda>(st, ws). length ws)") auto

declare sha_blocks.simps [simp del]

fun sha_digest :: "sha_state \<Rightarrow> byte list" where
  "sha_digest (Sha_State a b c d e f g h) =
     concat (map (\<lambda>w. be_bytes 4 (unat w)) [a, b, c, d, e, f, g, h])"

definition sha256 :: "byte list \<Rightarrow> byte list" where
  "sha256 m = sha_digest (sha_blocks sha_init (be_words (sha_pad m)))"

lemma length_be_bytes [simp]: "length (be_bytes n x) = n"
  by (simp add: be_bytes_def)

lemma be_bytes_bytes: "list_all (\<lambda>b. b < 256) (be_bytes n x)"
  by (simp add: be_bytes_def list_all_iff)

lemma length_sha256: "length (sha256 m) = 32"
  unfolding sha256_def by (cases "sha_blocks sha_init (be_words (sha_pad m))") simp

lemma sha256_bytes: "list_all (\<lambda>b. b < 256) (sha256 m)"
  unfolding sha256_def
  by (cases "sha_blocks sha_init (be_words (sha_pad m))") (simp add: be_bytes_bytes)

end
