(* ===== verification/Run_Build.thy ===== *)
theory Run_Build
  imports Config Go_Hash
begin

text \<open>
  \<^verbatim>\<open>internal/agenticrun/build.go\<close> and \<^verbatim>\<open>request.tmpl\<close>: the translation of an
  alert into an \<^verbatim>\<open>AgenticRun\<close>.

  The definitions carry the names of the functions of the file, in snake case. A slice
  expression out of bounds panics, so \<^verbatim>\<open>truncate_dns\<close> and what is built from it
  return an \<^verbatim>\<open>outcome\<close>. Theory \<^verbatim>\<open>Run_Names\<close> shows that building a name never panics
  and that the search for a free name ends.
\<close>

section \<open>Constants\<close>

definition run_namespace_default :: string where
  "run_namespace_default = ''openshift-lightspeed''"
definition default_agent :: string where "default_agent = ''default''"

definition label_source :: string where
  "label_source = ''agentic.openshift.io/source''"
definition label_fingerprint :: string where
  "label_fingerprint = ''agentic.openshift.io/alert-fingerprint''"
definition label_dedup_fingerprint :: string where
  "label_dedup_fingerprint = ''agentic.openshift.io/alert-group-id''"
definition label_alert_name :: string where
  "label_alert_name = ''agentic.openshift.io/alert-name''"
definition label_severity :: string where
  "label_severity = ''agentic.openshift.io/alert-severity''"
definition annot_starts_at :: string where
  "annot_starts_at = ''agentic.openshift.io/alert-starts-at''"
definition annot_summary :: string where
  "annot_summary = ''agentic.openshift.io/alert-summary''"

definition source_value :: string where "source_value = ''alertmanager''"

definition max_label_value_len :: nat where "max_label_value_len = 63"
definition fingerprint_len :: nat where "fingerprint_len = 8"
definition max_summary_len :: nat where "max_summary_len = 256"
definition starts_at_hash_len :: nat where "starts_at_hash_len = 8"

lemmas label_defs = label_source_def label_fingerprint_def label_dedup_fingerprint_def
  label_alert_name_def label_severity_def annot_starts_at_def annot_summary_def source_value_def

lemmas len_defs = max_label_value_len_def fingerprint_len_def max_summary_len_def
  starts_at_hash_len_def

text \<open>The character classes of the regular expressions, on runes.\<close>

definition is_lower_alnum :: "rune \<Rightarrow> bool" where
  "is_lower_alnum r \<longleftrightarrow> 97 \<le> r \<and> r \<le> 122 \<or> 48 \<le> r \<and> r \<le> 57"

definition valid_dns_rune :: "rune \<Rightarrow> bool" where
  "valid_dns_rune r \<longleftrightarrow> is_lower_alnum r \<or> r = 45"

definition is_alnum :: "rune \<Rightarrow> bool" where
  "is_alnum r \<longleftrightarrow> is_lower_alnum r \<or> 65 \<le> r \<and> r \<le> 90"

definition valid_label_rune :: "rune \<Rightarrow> bool" where
  "valid_label_rune r \<longleftrightarrow> is_alnum r \<or> r = 46 \<or> r = 95 \<or> r = 45"

section \<open>Names\<close>

text \<open>\<^verbatim>\<open>s[:n]\<close> of a string: a panic when the bound is outside the string.\<close>

definition slice_to :: "string \<Rightarrow> int \<Rightarrow> ('e, string) outcome" where
  "slice_to s n = (if 0 \<le> n \<and> n \<le> int (length s) then Ok (take (nat n) s) else Panic)"

definition truncate_dns :: "string \<Rightarrow> int \<Rightarrow> (go_error, string) outcome" where
  "truncate_dns s max_len =
     (if int (length s) \<le> max_len then Ok s
      else bind_outcome (slice_to s max_len) (\<lambda>s. Ok (trim_right s ''-_.'')))"

definition starts_at_input :: "time \<Rightarrow> string \<Rightarrow> string" where
  "starts_at_input t target_id =
     (let input = rfc3339 t in
      if target_id \<noteq> '''' then input @ CHR 0x00 # target_id else input)"

definition starts_at_hash :: "time \<Rightarrow> string \<Rightarrow> string" where
  "starts_at_hash t target_id =
     take starts_at_hash_len (hex_encode (sha256 (str_bytes (starts_at_input t target_id))))"

definition dns_part :: "string \<Rightarrow> string" where
  "dns_part s = replace_class valid_dns_rune (to_lower s)"

definition build_name :: "string \<Rightarrow> string \<Rightarrow> time \<Rightarrow> string \<Rightarrow> (go_error, string) outcome" where
  "build_name alert_name namespace starts_at target_id =
     (let hash = starts_at_hash starts_at target_id;
          name = dns_part alert_name
      in if namespace \<noteq> '''' then
           let ns = dns_part namespace;
               combined = name @ ''-'' @ ns @ ''-'' @ hash
           in if length combined \<le> max_label_value_len then Ok combined
              else let available =
                     max (int max_label_value_len - int (length ns) - int (length hash) - 2) 1
                   in bind_outcome (truncate_dns name available)
                        (\<lambda>t. Ok (t @ ''-'' @ ns @ ''-'' @ hash))
         else
           let combined = name @ ''-'' @ hash
           in if length combined \<le> max_label_value_len then Ok combined
              else let available = int max_label_value_len - int (length hash) - 1
                   in bind_outcome (truncate_dns name available) (\<lambda>t. Ok (t @ ''-'' @ hash)))"

section \<open>Retry names\<close>

definition retry_candidate :: "string \<Rightarrow> nat \<Rightarrow> (go_error, string) outcome" where
  "retry_candidate base_name i =
     (let suffix = ''-retry-'' @ decimal i
      in bind_outcome (truncate_dns base_name (int max_label_value_len - int (length suffix)))
           (\<lambda>t. Ok (t @ suffix)))"

lemma retry_candidate_Ok:
  "retry_candidate b i = Ok c \<Longrightarrow> \<exists>t. c = t @ ''-retry-'' @ decimal i"
  by (auto simp: retry_candidate_def Let_def bind_outcome_Ok_iff)

lemma decimal_no_dash: "CHR ''-'' \<notin> set (decimal n)"
  using decimal_digits [of n] by (auto simp: list_all_iff is_digit_char_def in_range_def)

lemma retry_candidate_inj:
  assumes "retry_candidate b i = Ok c" and "retry_candidate b' j = Ok c"
  shows "i = j"
proof -
  obtain t t' where "c = t @ ''-retry-'' @ decimal i" and "c = t' @ ''-retry-'' @ decimal j"
    using retry_candidate_Ok [OF assms(1)] retry_candidate_Ok [OF assms(2)] by blast
  then have "(t @ ''-retry'') @ CHR ''-'' # decimal i = (t' @ ''-retry'') @ CHR ''-'' # decimal j"
    by simp
  from last_takeWhile_sep [OF decimal_no_dash decimal_no_dash this] show ?thesis by simp
qed

text \<open>
  The loop of \<^verbatim>\<open>NextAvailableName\<close>, which has no bound of its own. It ends because
  every step that continues has met an existing name that no later step can meet.
\<close>

definition retry_names_from :: "string \<Rightarrow> string list \<Rightarrow> nat \<Rightarrow> string set" where
  "retry_names_from base_name existing i =
     {c \<in> set existing. \<exists>j\<ge>i. retry_candidate base_name j = Ok c}"

lemma finite_retry_names [simp]: "finite (retry_names_from b existing i)"
  by (simp add: retry_names_from_def)

lemma retry_names_decrease:
  assumes "retry_candidate b i = Ok c" and "c \<in> set existing"
  shows "card (retry_names_from b existing (Suc i)) < card (retry_names_from b existing i)"
proof (rule psubset_card_mono)
  have "c \<in> retry_names_from b existing i" using assms by (auto simp: retry_names_from_def)
  moreover have "c \<notin> retry_names_from b existing (Suc i)"
    using retry_candidate_inj assms(1) by (fastforce simp: retry_names_from_def)
  ultimately show "retry_names_from b existing (Suc i) \<subset> retry_names_from b existing i"
    by (auto simp: retry_names_from_def intro: Suc_leD)
qed simp

function next_retry :: "string \<Rightarrow> string list \<Rightarrow> nat \<Rightarrow> (go_error, string) outcome" where
  "next_retry base_name existing i =
     (case retry_candidate base_name i of
        Ok candidate \<Rightarrow>
          if candidate \<in> set existing then next_retry base_name existing (Suc i)
          else Ok candidate
      | Err e \<Rightarrow> Err e
      | Panic \<Rightarrow> Panic)"
  by pat_completeness auto
termination
  by (relation "measure (\<lambda>(b, existing, i). card (retry_names_from b existing i))")
    (simp_all add: retry_names_decrease)

declare next_retry.simps [simp del]

definition next_available_name :: "string \<Rightarrow> string list \<Rightarrow> (go_error, string) outcome" where
  "next_available_name base_name existing =
     (if base_name \<notin> set existing then Ok base_name else next_retry base_name existing 1)"

section \<open>Labels and annotations\<close>

definition sanitize_label_value :: "string \<Rightarrow> string" where
  "sanitize_label_value s =
     (if s = '''' then s
      else let s = replace_class valid_label_rune s;
               s = (if max_label_value_len < length s then take max_label_value_len s else s);
               s = trim_left s ''-_.''
           in trim_right s ''-_.'')"

definition build_labels :: "string \<Rightarrow> string \<Rightarrow> string \<Rightarrow> string \<Rightarrow> gomap" where
  "build_labels alert_name severity original_fingerprint stable_fp =
     [(label_source, source_value),
      (label_fingerprint,
        sanitize_label_value
          (take (min (length original_fingerprint) fingerprint_len) original_fingerprint)),
      (label_dedup_fingerprint, stable_fp),
      (label_alert_name, sanitize_label_value (to_lower alert_name)),
      (label_severity, sanitize_label_value severity)]"

definition build_annotations :: "alert \<Rightarrow> gomap" where
  "build_annotations a =
     (let annots = [];
          annots = (case alert_starts_at a of
              None \<Rightarrow> annots
            | Some t \<Rightarrow> if \<not> is_zero_time t then gomap_put annots annot_starts_at (rfc3339 t)
                        else annots)
      in case gomap_lookup (alert_annotations a) ''summary'' of
           None \<Rightarrow> annots
         | Some summary \<Rightarrow>
             if summary \<noteq> '''' then
               gomap_put annots annot_summary
                 (if max_summary_len < length summary then take max_summary_len summary
                  else summary)
             else annots)"

section \<open>The request\<close>

definition is_backtick :: "char \<Rightarrow> bool" where
  "is_backtick c \<longleftrightarrow> char_code c = 96"

text \<open>Deleting the matches of three or more backticks, each match as long as possible.\<close>

function strip_backtick_runs :: "string \<Rightarrow> string" where
  "strip_backtick_runs [] = []"
| "strip_backtick_runs (c # s) =
     (if is_backtick c then
        let run = c # takeWhile is_backtick s
        in (if 3 \<le> length run then [] else run) @ strip_backtick_runs (dropWhile is_backtick s)
      else c # strip_backtick_runs s)"
  by pat_completeness auto
termination
  by (relation "measure length") (auto simp: le_imp_less_Suc length_dropWhile_le)

definition prompt_rune :: "rune \<Rightarrow> rune option" where
  "prompt_rune r =
     (if r = 10 then Some r
      else if unicode_is_control r \<or> unicode_in_cf r then None
      else Some r)"

definition sanitize_prompt_value :: "string \<Rightarrow> string" where
  "sanitize_prompt_value s = strip_backtick_runs (strings_map prompt_rune s)"

record request_data =
  req_alert_name :: string
  req_severity :: string
  req_runbook_url :: string
  req_namespace :: string
  req_summary :: string
  req_description :: string
  req_skill_names :: "string list"

definition newline :: string where "newline = [CHR 0x0A]"

text \<open>
  \<^verbatim>\<open>request.tmpl\<close> as \<^verbatim>\<open>text/template\<close> executes it: \<^verbatim>\<open>{{-\<close> trims the
  white space before an action, so every line feed of the output starts a text node
  except the last, which ends the file.
\<close>

definition request_template :: "request_data \<Rightarrow> string" where
  "request_template d =
     ''Alert: '' @ req_alert_name d @ '' ('' @ req_severity d @ '')'' @ newline @
     ''Namespace: '' @ req_namespace d @ newline @
     ''Description: '' @ req_description d @
     (if req_runbook_url d \<noteq> '''' then newline @ ''Runbook URL: '' @ req_runbook_url d else '''') @
     (if req_skill_names d \<noteq> [] then
        newline @ ''Investigate using the following skills:'' @
        concat (map (\<lambda>n. '' '' @ n) (req_skill_names d))
      else newline @ ''Investigate, follow causality chains to the root cause.'') @
     newline"

definition skill_names :: "skills_source list \<Rightarrow> string list" where
  "skill_names shared = concat (map (\<lambda>s. map path_base (skills_paths s)) shared)"

definition request_data_of :: "alert \<Rightarrow> skills_source list \<Rightarrow> request_data" where
  "request_data_of a shared =
     \<lparr>req_alert_name = sanitize_prompt_value (gomap_get (alert_labels a) ''alertname''),
      req_severity = sanitize_prompt_value (gomap_get (alert_labels a) ''severity''),
      req_runbook_url = sanitize_prompt_value (gomap_get (alert_annotations a) ''runbook_url''),
      req_namespace = sanitize_prompt_value (gomap_get (alert_labels a) ''namespace''),
      req_summary = sanitize_prompt_value (gomap_get (alert_annotations a) ''summary''),
      req_description = sanitize_prompt_value (gomap_get (alert_annotations a) ''description''),
      req_skill_names = skill_names shared\<rparr>"

definition build_request :: "alert \<Rightarrow> skills_source list \<Rightarrow> (go_error, string) outcome" where
  "build_request a shared = Ok (request_template (request_data_of a shared))"

section \<open>The stable fingerprint\<close>

definition kept_keys :: "gomap \<Rightarrow> string list \<Rightarrow> string list" where
  "kept_keys labels ignored = filter (\<lambda>k. k \<notin> set ignored) (map fst labels)"

text \<open>One length-prefixed string, as the loop writes it to the hash.\<close>

definition write_string :: "u64 \<Rightarrow> string \<Rightarrow> u64" where
  "write_string h s =
     fnv_write (fnv_write h (put_uvarint (word_of_nat (length s)))) (str_bytes s)"

definition stable_fingerprint :: "gomap \<Rightarrow> string list \<Rightarrow> string" where
  "stable_fingerprint labels ignored =
     (let keys = sort (kept_keys labels ignored);
          h = foldl (\<lambda>h k. write_string (write_string h k) (gomap_get labels k)) fnv_offset keys
      in take fingerprint_len (hex16 h))"

section \<open>Building a run\<close>

definition resolve_agent :: "string \<Rightarrow> string \<Rightarrow> string" where
  "resolve_agent per_step global =
     (if per_step \<noteq> '''' then per_step
      else if global \<noteq> '''' then global
      else default_agent)"

definition build_for_target ::
  "alert \<Rightarrow> tools_config \<Rightarrow> agent_config \<Rightarrow> string list \<Rightarrow> string \<Rightarrow> string \<Rightarrow> string
   \<Rightarrow> (go_error, agentic_run) outcome" where
  "build_for_target a tools agent ignored target_namespace target_id target_cluster =
     (case alert_fingerprint a of
        None \<Rightarrow> Err FingerprintNil
      | Some original_fp \<Rightarrow>
          let alert_name = gomap_get (alert_labels a) ''alertname'';
              namespace = gomap_get (alert_labels a) ''namespace'';
              stable_fp = stable_fingerprint (alert_labels a) ignored;
              severity = gomap_get (alert_labels a) ''severity''
          in case alert_starts_at a of
               None \<Rightarrow> Err StartsAtNil
             | Some starts_at \<Rightarrow>
                 bind_outcome (build_request a (tools_shared tools)) (\<lambda>request.
                 bind_outcome (build_name alert_name namespace starts_at target_id) (\<lambda>name.
                 Ok \<lparr>run_api_version = ''agentic.openshift.io/v1alpha1'',
                     run_kind = ''AgenticRun'',
                     run_name = name,
                     run_namespace = target_namespace,
                     run_labels = build_labels alert_name severity original_fp stable_fp,
                     run_annotations = build_annotations a,
                     run_spec =
                       \<lparr>spec_request = request,
                        spec_analysis = resolve_agent (agent_analysis agent) (agent_default agent),
                        spec_execution = resolve_agent (agent_execution agent) (agent_default agent),
                        spec_verification =
                          resolve_agent (agent_verification agent) (agent_default agent),
                        spec_target_cluster =
                          (if target_cluster \<noteq> '''' then target_cluster else ''''),
                        spec_tools =
                          (if 0 < length (tools_shared tools) then tools_shared tools else [])\<rparr>,
                     run_conditions = []\<rparr>)))"

definition build ::
  "alert \<Rightarrow> tools_config \<Rightarrow> agent_config \<Rightarrow> string list \<Rightarrow> string
   \<Rightarrow> (go_error, agentic_run) outcome" where
  "build a tools agent ignored target_namespace =
     build_for_target a tools agent ignored target_namespace '''' ''''"

section \<open>Short hexadecimal digests\<close>

text \<open>
  The contract the names, labels and keys of the program have with its three digests: the
  occurrence hash of a name, the stable fingerprint and the suffix of a long target
  identity. Each is a fixed number of lower-case hexadecimal digits.
\<close>

locale hex_digest =
  fixes digest :: "'a \<Rightarrow> string" and width :: nat
  assumes digest_length: "length (digest x) = width"
    and digest_hex: "list_all is_hex_char (digest x)"
begin

lemma digest_dns: "list_all (\<lambda>c. is_lower_alnum (char_code c)) (digest x)"
  using digest_hex [of x]
  by (auto simp: list_all_iff is_hex_char_def in_range_def is_lower_alnum_def)

lemma digest_no_char:
  assumes "\<not> is_lower_alnum (char_code c)"
  shows "c \<notin> set (digest x)"
  using digest_dns [of x] assms by (auto simp: list_all_iff)

lemma digest_nonempty: "0 < width \<Longrightarrow> digest x \<noteq> []"
  using digest_length [of x] by auto

end

lemma list_all_hex_take: "list_all is_hex_char s \<Longrightarrow> list_all is_hex_char (take n s)"
  by (rule list_all_take)

interpretation occurrence: hex_digest "\<lambda>(t, target_id). starts_at_hash t target_id" starts_at_hash_len
  by unfold_locales
    (auto simp: starts_at_hash_def length_sha256 len_defs
       intro!: list_all_hex_take hex_encode_hex sha256_bytes)

interpretation group_id: hex_digest "\<lambda>(labels, ignored). stable_fingerprint labels ignored" fingerprint_len
  by unfold_locales
    (auto simp: stable_fingerprint_def Let_def len_defs intro!: list_all_hex_take hex16_hex)

lemma length_starts_at_hash [simp]: "length (starts_at_hash t i) = 8"
  using occurrence.digest_length [of "(t, i)"] by (simp add: len_defs)

lemma length_stable_fingerprint [simp]: "length (stable_fingerprint l i) = 8"
  using group_id.digest_length [of "(l, i)"] by (simp add: len_defs)

end
