(* ===== verification/Run_Names.thy ===== *)
theory Run_Names
  imports Run_Build
begin

text \<open>
  What the names of runs and the values of labels look like: shape and length of a built
  name (\<^verbatim>\<open>build_name_shape\<close>), the occurrence hash as a function of start time and target,
  the label values of Kubernetes (\<^verbatim>\<open>k8s_label_value\<close>), the search for a retry name and the
  names a cluster refuses.
\<close>

section \<open>Names\<close>

lemma unicode_to_lower_valid: 
  assumes "valid_rune r" shows "valid_rune (unicode_to_lower r)"
proof -
  have tab: "list_all (\<lambda>(lo, hi, stride, delta).
     0 \<le> int lo + delta \<and> (int hi + delta < 0xD800 \<or> 0xDFFF < int lo + delta \<and> int hi + delta \<le> 0x10FFFF)) lower_table"
    by (simp add: lower_table_def)
  show ?thesis
  proof (cases "r < 128")
    case True
    then show ?thesis by (simp add: valid_rune_def)
  next
    case False
    show ?thesis
    proof (cases "find (in_row r) lower_table")
      case None
      with False assms show ?thesis by (simp add: unicode_to_lower_def)
    next
      case (Some row)
      obtain lo hi st d where row: "row = (lo, hi, st, d)" by (cases row)
      have "row \<in> set lower_table" and "in_row r row"
        using Some by (auto simp: find_Some_iff)
      then have "lo \<le> r" "r \<le> hi" "0 \<le> int lo + d"
        "int hi + d < 0xD800 \<or> 0xDFFF < int lo + d \<and> int hi + d \<le> 0x10FFFF"
        using tab by (auto simp: list_all_iff row in_row_def)
      with False Some row show ?thesis
        by (auto simp: unicode_to_lower_def valid_rune_def)
    qed
  qed
qed

lemma length_map_filter_Some: "length (List.map_filter (\<lambda>x. Some (f x)) xs) = length xs"
  by (induction xs) (simp_all add: map_filter_simps)

lemma length_runes_to_lower: "length (runes (to_lower s)) = length (runes s)"
proof -
  have "map fst (runes (to_lower s)) = List.map_filter (\<lambda>r. Some (unicode_to_lower r)) (map fst (runes s))"
    unfolding to_lower_def by (rule runes_strings_map) (auto simp: unicode_to_lower_valid)
  then have "length (map fst (runes (to_lower s))) = length (map fst (runes s))"
    by (simp only: length_map_filter_Some)
  then show ?thesis by simp
qed

lemma length_runes_le: "length (runes s) \<le> length s"
proof (induction s rule: runes.induct)
  case (1 s)
  show ?case
  proof (cases "s = []")
    case False
    have "length (runes (drop (snd (decode_rune s)) s)) \<le> length s - snd (decode_rune s)"
      using "1.IH" [OF False] by simp
    with decode_rune_width [OF False]
    have "Suc (length (runes (drop (snd (decode_rune s)) s))) \<le> length s" by linarith
    with False show ?thesis by (simp add: runes.simps [of s])
  qed simp
qed

lemma valid_dns_rune_ascii: "valid_dns_rune r \<Longrightarrow> r < 128"
  by (auto simp: valid_dns_rune_def is_lower_alnum_def)

lemma length_replace_class:
  assumes "\<And>r. keep r \<Longrightarrow> r < 128"
  shows "length (replace_class keep s) = length (runes s)"
proof -
  have "list_all (\<lambda>(r, bs). length (if keep r then bs else ''-'') = 1) (runes s)"
    using runes_ascii_bytes assms by (fastforce simp: list_all_iff)
  moreover have "list_all (\<lambda>(r, bs). length (if keep r then bs else ''-'') = 1) xs \<Longrightarrow>
     length (concat (map (\<lambda>(r, bs). if keep r then bs else ''-'') xs)) = length xs" for xs
    by (induction xs) auto
  ultimately show ?thesis by (simp add: replace_class_def)
qed

lemma length_dns_part: "length (dns_part s) \<le> length s"
  using length_runes_le [of s]
  by (simp add: dns_part_def length_replace_class valid_dns_rune_ascii length_runes_to_lower)

definition dns_chars :: "string \<Rightarrow> bool" where
  "dns_chars s \<longleftrightarrow> list_all (\<lambda>c. valid_dns_rune (char_code c)) s"

lemma dns_chars_simps [simp]:
  "dns_chars []" "dns_chars (c # s) \<longleftrightarrow> valid_dns_rune (char_code c) \<and> dns_chars s"
  "dns_chars (s @ t) \<longleftrightarrow> dns_chars s \<and> dns_chars t"
  by (auto simp: dns_chars_def)

lemma valid_dns_dash [simp]: "valid_dns_rune 45"
  by (simp add: valid_dns_rune_def)

lemma dns_part_chars: "dns_chars (dns_part s)"
proof -
  have "valid_dns_rune (char_code c)" if "c \<in> set (dns_part s)" for c
  proof -
    have "c = CHR ''-'' \<or> valid_dns_rune (char_code c)"
      using that valid_dns_rune_ascii unfolding dns_part_def by (rule replace_class_chars [rotated])
    then show ?thesis by auto
  qed
  then show ?thesis by (simp add: dns_chars_def list_all_iff)
qed

lemma dns_chars_starts_at_hash: "dns_chars (starts_at_hash t i)"
  using occurrence.digest_dns [of "(t, i)"]
  by (auto simp: dns_chars_def list_all_iff valid_dns_rune_def)

lemma dns_chars_subset: "set s \<subseteq> set t \<Longrightarrow> dns_chars t \<Longrightarrow> dns_chars s"
  by (auto simp: dns_chars_def list_all_iff)

text \<open>What a truncation with a non-negative bound returns.\<close>

lemma truncate_dns_Ok:
  assumes "0 \<le> n"
  obtains u where "truncate_dns s n = Ok u" and "int (length u) \<le> n" and "set u \<subseteq> set s"
    and "u = [] \<or> hd u = hd s"
proof (cases "int (length s) \<le> n")
  case True
  with that [of s] show ?thesis by (simp add: truncate_dns_def)
next
  case False
  let ?v = "take (nat n) s" and ?u = "trim_right (take (nat n) s) ''-_.''"
  have "length ?u \<le> length ?v" by (rule length_trim_right)
  then have "int (length ?u) \<le> n" using assms False by simp
  moreover have "set ?u \<subseteq> set s" using set_trim_right [of ?v] set_take_subset [of "nat n" s] by blast
  moreover have "?u = [] \<or> hd ?u = hd s"
    using hd_trim_right [of ?v "''-_.''"]
    by (cases s; cases "nat n") (auto simp: trim_right_def)
  ultimately show ?thesis using that [of ?u] False assms
    by (simp add: truncate_dns_def slice_to_def)
qed

lemma truncate_dns_Panic: "n < 0 \<Longrightarrow> truncate_dns s n = Panic"
  by (simp add: truncate_dns_def slice_to_def)

lemma truncate_dns_not_Err: "truncate_dns s n \<noteq> Err e"
  by (simp add: truncate_dns_def slice_to_def)

text \<open>
  Every name is a part, a dash and the occurrence hash; the part starts with the first
  character of the sanitised alert name, or with the dash when nothing is left of it.
\<close>

lemma build_name_shape:
  "\<exists>p. build_name an ns t i = Ok (p @ ''-'' @ starts_at_hash t i) \<and>
     length p \<le> max 54 (length (dns_part ns) + 2) \<and> dns_chars p \<and>
     (ns = [] \<longrightarrow> length p \<le> 54) \<and>
     (p = [] \<or> hd p = CHR ''-'' \<or> hd p = hd (dns_part an)) \<and>
     (ns \<noteq> [] \<longrightarrow> (\<exists>q. p = q @ ''-'' @ dns_part ns))" (is "\<exists>p. ?S p")
proof -
  let ?h = "starts_at_hash t i" and ?n = "dns_part an" and ?m = "dns_part ns"
  have dashed: "?n @ ''-'' @ ?m = [] \<or> hd (?n @ ''-'' @ ?m) = CHR ''-'' \<or> hd (?n @ ''-'' @ ?m) = hd ?n"
    by (cases "?n") simp_all
  consider (plain) "ns = ''''" "length ?n \<le> 54" | (plain_cut) "ns = ''''" "54 < length ?n"
    | (full) "ns \<noteq> ''''" "length ?n + length ?m \<le> 53" | (cut) "ns \<noteq> ''''" "53 < length ?n + length ?m"
    by linarith
  then show ?thesis
  proof cases
    case plain
    then have "?S ?n"
      using dns_part_chars [of an] by (simp add: build_name_def Let_def len_defs)
    then show ?thesis ..
  next
    case plain_cut
    obtain u where "truncate_dns ?n 54 = Ok u" "length u \<le> 54" "set u \<subseteq> set ?n" "u = [] \<or> hd u = hd ?n"
      by (rule truncate_dns_Ok [of 54 ?n]) auto
    with plain_cut have "?S u"
      using dns_chars_subset dns_part_chars [of an]
      by (auto simp: build_name_def Let_def len_defs)
    then show ?thesis ..
  next
    case full
    then have "build_name an ns t i = Ok ((?n @ ''-'' @ ?m) @ ''-'' @ ?h)"
      by (simp add: build_name_def Let_def len_defs)
    moreover have "length (?n @ ''-'' @ ?m) \<le> max 54 (length ?m + 2)" using full by simp
    moreover have "dns_chars (?n @ ''-'' @ ?m)" by (simp add: dns_part_chars)
    ultimately show ?thesis using full(1) dashed by blast
  next
    case cut
    let ?a = "max (53 - int (length ?m)) 1"
    obtain u where u: "truncate_dns ?n ?a = Ok u" "int (length u) \<le> ?a" "set u \<subseteq> set ?n"
      "u = [] \<or> hd u = hd ?n"
      by (rule truncate_dns_Ok [of ?a ?n]) auto
    have "max (int 63 - int (length ?m) - int (length ?h) - 2) 1 = ?a" by simp
    then have "build_name an ns t i = Ok ((u @ ''-'' @ ?m) @ ''-'' @ ?h)"
      using cut u(1) by (simp add: build_name_def Let_def len_defs)
    moreover have "length (u @ ''-'' @ ?m) \<le> max 54 (length ?m + 2)" using u(2) by simp
    moreover have "dns_chars u" using u(3) dns_chars_subset dns_part_chars by blast
    then have "dns_chars (u @ ''-'' @ ?m)" by (simp add: dns_part_chars)
    moreover have "u @ ''-'' @ ?m = [] \<or> hd (u @ ''-'' @ ?m) = CHR ''-'' \<or> hd (u @ ''-'' @ ?m) = hd ?n"
      using u(4) by (cases u) simp_all
    ultimately show ?thesis using cut(1) by blast
  qed
qed

text \<open>
  C32. buildName never panics, and the name it returns has at most 63 bytes when the alert
  has no namespace and at most the larger of 63 and 11 bytes more than the sanitised
  namespace otherwise.
\<close>

theorem build_name_total_bound:
  "\<exists>n. build_name an ns t i = Ok n \<and> length n \<le> max 63 (length (dns_part ns) + 11) \<and>
       (ns = [] \<longrightarrow> length n \<le> 63)"
  using build_name_shape [of an ns t i] by auto

text \<open>
  C33. A built name consists of lower-case letters, digits and dashes, ends in a letter or
  digit, and its last component is the occurrence hash of the start time and the target.
\<close>

theorem build_name_dns:
  assumes "build_name an ns t i = Ok n"
  shows "dns_chars n \<and> is_lower_alnum (char_code (last n)) \<and>
    (\<exists>p. n = p @ ''-'' @ starts_at_hash t i)"
proof -
  obtain p where p: "n = p @ ''-'' @ starts_at_hash t i" "dns_chars p"
    using assms build_name_shape [of an ns t i] by auto
  have "starts_at_hash t i \<noteq> []" by (metis length_starts_at_hash length_0_conv zero_neq_numeral)
  then have "last n \<in> set (starts_at_hash t i)" using p by simp
  then show ?thesis
    using p occurrence.digest_dns [of "(t, i)"] dns_chars_starts_at_hash [of t i]
    by (auto simp: list_all_iff)
qed

theorem build_name_dns_witness:
  "\<exists>n. build_name ''A'' ''b'' 0 '''' = Ok n \<and> is_lower_alnum (char_code (last n))"
proof -
  obtain p where "build_name ''A'' ''b'' 0 '''' = Ok (p @ ''-'' @ starts_at_hash 0 '''')"
    using build_name_shape by blast
  from this build_name_dns [OF this] show ?thesis by blast
qed

lemma char_of_97 [simp]: "char_of (97::nat) = CHR ''a''"
proof -
  have "char_of (char_code (CHR ''a'')) = CHR ''a''" by (rule char_of_char)
  then show ?thesis by simp
qed
lemma dns_part_upper_A: "dns_part ''A'' = dns_part ''a''"
  by (simp add: dns_part_def valid_dns_rune_def is_lower_alnum_def)

text \<open>
  C34. Two alerts that get the same name have the same occurrence hash, whatever their
  names and namespaces: a new start time or another target can only share a name by a
  collision of the hash.
\<close>

theorem build_name_hash_eq:
  assumes "build_name an ns t i = build_name an' ns' t' i'"
  shows "starts_at_hash t i = starts_at_hash t' i'"
proof -
  obtain p where p: "build_name an ns t i = Ok (p @ ''-'' @ starts_at_hash t i)"
    using build_name_shape by blast
  obtain p' where p': "build_name an' ns' t' i' = Ok (p' @ ''-'' @ starts_at_hash t' i')"
    using build_name_shape by blast
  have "p @ ''-'' @ starts_at_hash t i = p' @ ''-'' @ starts_at_hash t' i'"
    using assms p p' by simp
  then show ?thesis by (simp add: append_eq_append_conv)
qed

theorem build_name_hash_eq_witness:
  "build_name ''A'' [] 0 ''east'' = build_name ''a'' [] 0 ''east'' \<and> starts_at_hash 0 ''east'' = starts_at_hash 0 ''east''"
proof -
  have "build_name ''A'' [] 0 ''east'' = build_name ''a'' [] 0 ''east''"
    by (simp add: build_name_def dns_part_upper_A)
  with build_name_hash_eq [OF this] show ?thesis by simp
qed

text \<open>
  C35. The string that is hashed determines the start time to the second and the target
  identity, for start times from the year 1 on: the zero byte separates the two.
\<close>

theorem starts_at_input_inj:
  assumes "0 \<le> t" and "0 \<le> u"
  shows "starts_at_input t i = starts_at_input u j \<longleftrightarrow> t div second = u div second \<and> i = j"
proof
  assume eq: "starts_at_input t i = starts_at_input u j"
  have split: "takeWhile (\<lambda>c. c \<noteq> CHR 0x00) (starts_at_input t i) = rfc3339 t" for t i
    using rfc3339_no_nul [of t]
    by (auto simp: starts_at_input_def Let_def takeWhile_append takeWhile_eq_all_conv)
  have r: "rfc3339 t = rfc3339 u" using split [of t i] split [of u j] eq by simp
  from eq r have "i = j" by (auto simp: starts_at_input_def Let_def split: if_splits)
  with rfc3339_inj [OF assms r] show "t div second = u div second \<and> i = j" by simp
next
  assume "t div second = u div second \<and> i = j"
  then show "starts_at_input t i = starts_at_input u j"
    by (simp add: starts_at_input_def rfc3339_def)
qed

theorem starts_at_input_inj_witness:
  "starts_at_input 5 ''spoke-east'' \<noteq> starts_at_input 7 ''spoke-west'' \<and>
   starts_at_input 5 ''spoke-east'' = starts_at_input 7 ''spoke-east''"
  using starts_at_input_inj [of 5 7 "''spoke-east''" "''spoke-west''"]
    starts_at_input_inj [of 5 7 "''spoke-east''" "''spoke-east''"]
  by (simp add: second_def)

theorem build_name_total_bound_witness:
  "\<exists>n. build_name ''Watchdog'' '''' 0 '''' = Ok n \<and> length n \<le> 63"
  using build_name_total_bound [of "''Watchdog''" "''''" 0 "''''"] by auto

section \<open>Label values\<close>

text \<open>The rules of Kubernetes for the value of a label.\<close>

definition k8s_label_value :: "string \<Rightarrow> bool" where
  "k8s_label_value s \<longleftrightarrow> length s \<le> 63 \<and> list_all (\<lambda>c. valid_label_rune (char_code c)) s \<and>
     (s = '''' \<or> is_alnum (char_code (hd s)) \<and> is_alnum (char_code (last s)))"

lemma valid_label_rune_ascii: "valid_label_rune r \<Longrightarrow> r < 128"
  by (auto simp: valid_label_rune_def is_alnum_def is_lower_alnum_def)

lemma label_cut_char:
  "valid_label_rune (char_code c) \<Longrightarrow> is_alnum (char_code c) \<longleftrightarrow> c \<notin> set ''-_.''"
proof -
  have "char_code c = 45 \<longleftrightarrow> c = CHR ''-''" "char_code c = 46 \<longleftrightarrow> c = CHR ''.''"
    "char_code c = 95 \<longleftrightarrow> c = CHR ''_''"
    using char_code_inj [of c "CHR ''-''"] char_code_inj [of c "CHR ''.''"]
      char_code_inj [of c "CHR ''_''"] by simp_all
  moreover have "\<not> is_alnum 45" "\<not> is_alnum 46" "\<not> is_alnum 95"
    by (simp_all add: is_alnum_def is_lower_alnum_def)
  ultimately show "valid_label_rune (char_code c) \<Longrightarrow> ?thesis"
    by (auto simp: valid_label_rune_def)
qed

lemma trimmed_ends:
  fixes s cs :: string
  defines "t \<equiv> trim_right (trim_left s cs) cs"
  shows "set t \<subseteq> set s" and "length t \<le> length s"
    and "t \<noteq> [] \<Longrightarrow> hd t \<notin> set cs \<and> last t \<notin> set cs"
proof -
  show "set t \<subseteq> set s" unfolding t_def using set_trim_right set_trim_left by blast
  show "length t \<le> length s" unfolding t_def
    using length_trim_right length_trim_left le_trans by blast
  assume "t \<noteq> []"
  moreover from this have "hd t = hd (trim_left s cs)" unfolding t_def by (rule hd_trim_right)
  moreover have "trim_left s cs \<noteq> []" using \<open>t \<noteq> []\<close> by (auto simp: t_def trim_right_def)
  ultimately show "hd t \<notin> set cs \<and> last t \<notin> set cs"
    using trim_left_hd trim_right_last unfolding t_def by metis
qed

lemma k8s_label_value_sanitize: "k8s_label_value (sanitize_label_value s)"
proof (cases "s = ''''")
  case False
  let ?r = "replace_class valid_label_rune s"
  let ?c = "if max_label_value_len < length ?r then take max_label_value_len ?r else ?r"
  let ?t = "trim_right (trim_left ?c ''-_.'') ''-_.''"
  have r: "valid_label_rune (char_code c)" if "c \<in> set ?r" for c
    using replace_class_chars [OF valid_label_rune_ascii that]
    by (auto simp: valid_label_rune_def)
  have "set ?c \<subseteq> set ?r" by (auto dest: in_set_takeD)
  with r trimmed_ends(1) have v: "valid_label_rune (char_code c)" if "c \<in> set ?t" for c
    using that by blast
  have "length ?c \<le> 63" by (simp add: len_defs)
  with trimmed_ends(2) have "length ?t \<le> 63" using le_trans by blast
  moreover have "?t = [] \<or> is_alnum (char_code (hd ?t)) \<and> is_alnum (char_code (last ?t))"
    using trimmed_ends(3) [of ?c "''-_.''"] v label_cut_char by (metis hd_in_set last_in_set)
  ultimately show ?thesis
    using False v by (simp add: sanitize_label_value_def Let_def k8s_label_value_def list_all_iff)
qed (simp add: sanitize_label_value_def k8s_label_value_def)

lemma sanitize_label_value_id:
  assumes "k8s_label_value s"
  shows "sanitize_label_value s = s"
proof (cases "s = ''''")
  case False
  have "replace_class valid_label_rune s = s"
    by (rule replace_class_id)
      (use assms valid_label_rune_ascii in \<open>auto simp: k8s_label_value_def list_all_iff\<close>)
  moreover have "hd s \<notin> set ''-_.''" "last s \<notin> set ''-_.''"
    using assms False label_cut_char unfolding k8s_label_value_def list_all_iff
    by (metis hd_in_set last_in_set)+
  ultimately show ?thesis using assms False
    by (simp add: sanitize_label_value_def Let_def k8s_label_value_def len_defs
        trim_left_id trim_right_id del: set_simps)
qed (simp add: sanitize_label_value_def)

text \<open>
  C18. A sanitised label value always obeys the rules of Kubernetes (63 bytes, the allowed
  characters, alphanumeric ends), and exactly the values that obey them are left
  unchanged.
\<close>

theorem sanitize_label_value_valid:
  "k8s_label_value (sanitize_label_value s) \<and>
   (sanitize_label_value s = s \<longleftrightarrow> k8s_label_value s)"
  using k8s_label_value_sanitize sanitize_label_value_id by metis

section \<open>Retry names\<close>

lemma retry_candidate_total:
  assumes "i < 10 ^ 56"
  obtains c where "retry_candidate b i = Ok c" and "length c \<le> 63"
    and "dns_chars b \<longrightarrow> dns_chars c"
proof -
  let ?s = "''-retry-'' @ decimal i"
  have d: "length (decimal i) \<le> 56" using assms by (intro length_decimal) simp_all
  then have "0 \<le> 63 - int (length ?s)" by simp
  then obtain u where u: "truncate_dns b (63 - int (length ?s)) = Ok u"
    "int (length u) \<le> 63 - int (length ?s)" "set u \<subseteq> set b"
    by (rule truncate_dns_Ok)
  have "dns_chars (decimal i)"
    using decimal_digits [of i]
    by (auto simp: dns_chars_def list_all_iff is_digit_char_def in_range_def valid_dns_rune_def
        is_lower_alnum_def)
  then have "dns_chars b \<longrightarrow> dns_chars (u @ ?s)"
    using dns_chars_subset [OF u(3)] by (simp add: valid_dns_rune_def is_lower_alnum_def)
  moreover have "length (u @ ?s) \<le> 63" using u(2) by simp
  ultimately show ?thesis
    using that [of "u @ ?s"] u(1) by (simp add: retry_candidate_def Let_def len_defs)
qed

text \<open>The search meets only existing names before it stops, and stops on the first free one.\<close>

definition first_free_retry :: "string \<Rightarrow> string list \<Rightarrow> nat \<Rightarrow> nat \<Rightarrow> string \<Rightarrow> bool" where
  "first_free_retry b existing i k n \<longleftrightarrow> i \<le> k \<and> retry_candidate b k = Ok n \<and> n \<notin> set existing \<and>
     (\<forall>j\<in>{i..<k}. \<exists>c\<in>set existing. retry_candidate b j = Ok c)"

lemma next_retry_first_free:
  assumes "\<And>j. j \<le> m \<Longrightarrow> \<exists>c. retry_candidate b j = Ok c"
    and "i + card (retry_names_from b existing i) \<le> m"
  shows "\<exists>k n. next_retry b existing i = Ok n \<and> k \<le> m \<and> first_free_retry b existing i k n"
  using assms
proof (induction b existing i rule: next_retry.induct)
  case (1 b existing i)
  from "1.prems" obtain c where c: "retry_candidate b i = Ok c" by fastforce
  show ?case
  proof (cases "c \<in> set existing")
    case False
    with c "1.prems" show ?thesis
      by (intro exI [of _ i] exI [of _ c])
        (simp add: next_retry.simps [of b] first_free_retry_def)
  next
    case True
    have "Suc i + card (retry_names_from b existing (Suc i)) \<le> m"
      using retry_names_decrease [OF c True] "1.prems"(2) by linarith
    with "1.IH" [OF c True] "1.prems"(1) obtain k n where kn: "next_retry b existing (Suc i) = Ok n"
      "k \<le> m" "first_free_retry b existing (Suc i) k n" by blast
    have "{i..<k} = insert i {Suc i..<k}" if "Suc i \<le> k" using that by auto
    with kn(3) c True have "first_free_retry b existing i k n"
      by (auto simp: first_free_retry_def)
    moreover have "next_retry b existing i = Ok n"
      using kn(1) c True by (simp add: next_retry.simps [of b existing i])
    ultimately show ?thesis using kn(2) by blast
  qed
qed

lemma card_retry_names: "card (retry_names_from b existing i) \<le> length existing"
proof -
  have "card (retry_names_from b existing i) \<le> card (set existing)"
    by (rule card_mono) (auto simp: retry_names_from_def)
  with card_length [of existing] show ?thesis by linarith
qed

lemma next_available_name_Ok:
  assumes "length existing < 2 ^ 63"
  shows "\<exists>n. next_available_name b existing = Ok n \<and> n \<notin> set existing \<and>
    (if b \<in> set existing
     then length n \<le> 63 \<and> (dns_chars b \<longrightarrow> dns_chars n) \<and> (\<exists>k. first_free_retry b existing 1 k n)
     else n = b)"
proof (cases "b \<in> set existing")
  case True
  let ?m = "1 + card (retry_names_from b existing 1)"
  have m: "j < 10 ^ 56" if "j \<le> ?m" for j
  proof -
    have "j \<le> 1 + length existing" using that card_retry_names [of b existing 1] by linarith
    also have "\<dots> < 10 ^ 56" using assms by simp
    finally show ?thesis .
  qed
  have "\<exists>c. retry_candidate b j = Ok c" if "j \<le> ?m" for j
    using retry_candidate_total [OF m [OF that]] by blast
  from next_retry_first_free [OF this order.refl] obtain k n
    where kn: "next_retry b existing 1 = Ok n" "k \<le> ?m" "first_free_retry b existing 1 k n" by blast
  then have "retry_candidate b k = Ok n" "n \<notin> set existing" by (auto simp: first_free_retry_def)
  moreover obtain c where "retry_candidate b k = Ok c" "length c \<le> 63" "dns_chars b \<longrightarrow> dns_chars c"
    using retry_candidate_total [OF m [OF kn(2)]] by blast
  ultimately show ?thesis using kn True by (auto simp: next_available_name_def)
qed (simp add: next_available_name_def)

text \<open>
  C13. The unbounded search for a retry name ends without a panic for every list of
  existing names a Go slice can hold; the name it returns is not among them, is the base
  name when that is free, and otherwise is the first free candidate, has at most 63 bytes
  and keeps to the characters of DNS names.
\<close>

theorem next_available_name_total:
  assumes "length existing < 2 ^ 63"
  shows "\<exists>n. next_available_name b existing = Ok n \<and> n \<notin> set existing \<and>
    (if b \<in> set existing
     then length n \<le> 63 \<and> (dns_chars b \<longrightarrow> dns_chars n) \<and> (\<exists>k. first_free_retry b existing 1 k n)
     else n = b)"
  using assms by (rule next_available_name_Ok)

theorem next_available_name_total_witness:
  "\<exists>n. next_available_name ''a-01234567'' [''a-01234567'', ''b''] = Ok n \<and>
     n \<notin> {''a-01234567'', ''b''} \<and> length n \<le> 63"
  using next_available_name_total [of "[''a-01234567'', ''b'']" "''a-01234567''"] by auto

section \<open>Names the cluster refuses\<close>

text \<open>
  C36. A namespace of 54 or more characters after sanitising always gives a name of more
  than 63 bytes, because only the alert name is truncated.
\<close>

theorem build_name_long_namespace:
  assumes "build_name an ns t i = Ok n" and "54 \<le> length (dns_part ns)"
  shows "63 < length n"
proof -
  have "ns \<noteq> []" using assms(2) length_dns_part [of ns] by auto
  with assms(1) build_name_shape [of an ns t i] obtain q where
    "n = q @ ''-'' @ dns_part ns @ ''-'' @ starts_at_hash t i" by auto
  with assms(2) show ?thesis by simp
qed

lemma dns_part_replicate: "dns_part (replicate k (CHR ''n'')) = replicate k (CHR ''n'')"
  by (induction k) (simp_all add: dns_part_def valid_dns_rune_def is_lower_alnum_def)

theorem build_name_long_namespace_witness:
  "\<exists>n. build_name ''A'' (replicate 60 (CHR ''n'')) 0 '''' = Ok n \<and> 63 < length n"
proof -
  obtain n where n: "build_name ''A'' (replicate 60 (CHR ''n'')) 0 '''' = Ok n"
    using build_name_shape by blast
  with build_name_long_namespace [OF n] show ?thesis by (simp add: dns_part_replicate)
qed

text \<open>
  C37. An alert name that is empty or whose first character is not a lower-case letter or
  digit after lower-casing gives a run name that begins with a dash, which a Kubernetes
  object name must not.
\<close>

theorem build_name_leading_dash:
  assumes "build_name an ns t i = Ok n" and "dns_part an = '''' \<or> hd (dns_part an) = CHR ''-''"
  shows "hd n = CHR ''-''"
proof -
  obtain p where p: "n = p @ ''-'' @ starts_at_hash t i" "p = [] \<or> hd p = CHR ''-'' \<or> hd p = hd (dns_part an)"
    using assms(1) build_name_shape [of an ns t i] by auto
  have "hd p = CHR ''-''" if "p \<noteq> []" "dns_part an = []"
    using assms(1) p(1) that
    by (cases p) (auto simp: build_name_def Let_def truncate_dns_def len_defs split: if_splits)
  with p assms(2) show ?thesis by (cases p) auto
qed

theorem build_name_leading_dash_witness:
  "\<exists>n. build_name ''_internal'' ''ns'' 0 '''' = Ok n \<and> hd n = CHR ''-''"
proof -
  obtain n where n: "build_name ''_internal'' ''ns'' 0 '''' = Ok n" using build_name_shape by blast
  have "hd (dns_part ''_internal'') = CHR ''-''"
    by (simp add: dns_part_def valid_dns_rune_def is_lower_alnum_def)
  with n build_name_leading_dash [OF n] show ?thesis by blast
qed

end
