(* ===== verification/Run_Group.thy ===== *)
theory Run_Group
  imports Run_Build
begin

text \<open>
  The group fingerprint: what it depends on and the injectivity of the bytes it hashes.
\<close>

section \<open>The group fingerprint\<close>

text \<open>
  What the fingerprint is of: the labels that are not ignored, as a partial map, and the
  bytes that are hashed, which encode exactly that map.
\<close>

definition kept_label :: "gomap \<Rightarrow> string list \<Rightarrow> string \<Rightarrow> string option" where
  "kept_label labels ignored k =
     (if k \<in> set ignored then None else gomap_lookup labels k)"

definition enc_string :: "string \<Rightarrow> byte list" where
  "enc_string s = put_uvarint (word_of_nat (length s)) @ str_bytes s"

definition fingerprint_input :: "gomap \<Rightarrow> string list \<Rightarrow> byte list" where
  "fingerprint_input labels ignored =
     concat (map (\<lambda>k. enc_string k @ enc_string (gomap_get labels k)) (sort (kept_keys labels ignored)))"

definition go_sized :: "gomap \<Rightarrow> bool" where
  "go_sized m \<longleftrightarrow> list_all (\<lambda>(k, v). length k < 2 ^ 63 \<and> length v < 2 ^ 63) m"

lemma write_string_enc: "write_string h s = fnv_write h (enc_string s)"
  by (simp add: write_string_def enc_string_def)

lemma stable_fingerprint_input:
  "stable_fingerprint labels ignored =
     take fingerprint_len (hex16 (fnv_write fnv_offset (fingerprint_input labels ignored)))"
proof -
  have "foldl (\<lambda>h k. write_string (write_string h k) (gomap_get labels k)) h ks =
    fnv_write h (concat (map (\<lambda>k. enc_string k @ enc_string (gomap_get labels k)) ks))" for h ks
    by (induction ks arbitrary: h) (simp_all add: write_string_enc)
  then show ?thesis by (simp add: stable_fingerprint_def fingerprint_input_def Let_def)
qed

lemma set_kept_keys: "k \<in> set (kept_keys l ign) \<longleftrightarrow> kept_label l ign k \<noteq> None"
  using map_of_eq_None_iff [of l k] by (auto simp: kept_keys_def kept_label_def gomap_lookup_def)

lemma kept_label_get: "k \<in> set (kept_keys l ign) \<Longrightarrow> kept_label l ign k = Some (gomap_get l k)"
  by (auto simp: set_kept_keys kept_label_def gomap_get_def split: if_splits)

lemma distinct_kept_keys: "gomap_wf l \<Longrightarrow> distinct (kept_keys l ign)"
  by (simp add: gomap_wf_def kept_keys_def)

lemma fingerprint_input_cong:
  assumes "gomap_wf l" and "gomap_wf l'" and eq: "kept_label l ign = kept_label l' ign'"
  shows "fingerprint_input l ign = fingerprint_input l' ign'"
proof -
  have s: "set (kept_keys l ign) = set (kept_keys l' ign')"
    using eq by (auto simp: set_kept_keys)
  with assms(1,2) have "sort (kept_keys l ign) = sort (kept_keys l' ign')"
    by (intro sorted_distinct_set_unique) (simp_all add: distinct_kept_keys)
  moreover have "gomap_get l k = gomap_get l' k" if "k \<in> set (kept_keys l' ign')" for k
    using kept_label_get that s eq by (metis option.inject)
  ultimately show ?thesis unfolding fingerprint_input_def
    by (intro arg_cong [where f = concat] map_cong) auto
qed

lemma enc_string_append_inj:
  assumes "length s < 2 ^ 63" "length t < 2 ^ 63" "enc_string s @ x = enc_string t @ y"
  shows "s = t \<and> x = y"
proof -
  have "put_uvarint (word_of_nat (length s)) @ (str_bytes s @ x) =
      put_uvarint (word_of_nat (length t)) @ (str_bytes t @ y)"
    using assms(3) by (simp add: enc_string_def)
  from put_uvarint_append_inj [OF this]
  have w: "(word_of_nat (length s) :: u64) = word_of_nat (length t)"
    and r: "str_bytes s @ x = str_bytes t @ y" by simp_all
  have "length s < 2 ^ LENGTH(64)" "length t < 2 ^ LENGTH(64)" using assms(1,2) by simp_all
  then have "length s = length t" using w
    by (metis of_nat_inverse)
  with r show ?thesis by simp
qed

lemma enc_pairs_inj:
  assumes "\<And>k. k \<in> set ks \<Longrightarrow> length k < 2 ^ 63 \<and> length (g k) < 2 ^ 63"
    and "\<And>k. k \<in> set ks' \<Longrightarrow> length k < 2 ^ 63 \<and> length (g' k) < 2 ^ 63"
    and "concat (map (\<lambda>k. enc_string k @ enc_string (g k)) ks) =
      concat (map (\<lambda>k. enc_string k @ enc_string (g' k)) ks')"
  shows "ks = ks' \<and> map g ks = map g' ks'"
  using assms
proof (induction ks arbitrary: ks')
  case Nil
  then show ?case by (cases ks') (simp_all add: enc_string_def)
next
  case (Cons k ks)
  then obtain k' ks'' where ks': "ks' = k' # ks''"
    by (cases ks') (auto simp: enc_string_def)
  let ?f = "\<lambda>g ks. concat (map (\<lambda>k. enc_string k @ enc_string (g k)) ks)"
  have "enc_string k @ (enc_string (g k) @ ?f g ks) = enc_string k' @ (enc_string (g' k') @ ?f g' ks'')"
    using Cons.prems(3) ks' by simp
  from enc_string_append_inj [OF _ _ this] have kk: "k = k'"
    and r: "enc_string (g k) @ ?f g ks = enc_string (g' k') @ ?f g' ks''"
    using Cons.prems(1) [of k] Cons.prems(2) [of k'] ks' by auto
  from enc_string_append_inj [OF _ _ r] have gg: "g k = g' k'" and t: "?f g ks = ?f g' ks''"
    using Cons.prems(1) [of k] Cons.prems(2) [of k'] ks' by auto
  have "ks = ks'' \<and> map g ks = map g' ks''"
    by (rule Cons.IH [OF _ _ t]) (use Cons.prems(1,2) ks' in auto)
  with kk gg ks' show ?case by auto
qed

lemma go_sized_kept:
  assumes "go_sized l" and "k \<in> set (sort (kept_keys l ign))"
  shows "length k < 2 ^ 63 \<and> length (gomap_get l k) < 2 ^ 63"
proof -
  have "gomap_lookup l k = Some (gomap_get l k)"
    using assms(2) kept_label_get [of k l ign] by (auto simp: kept_label_def split: if_splits)
  then have "(k, gomap_get l k) \<in> set l" by (simp add: gomap_lookup_def map_of_SomeD)
  with assms(1) show ?thesis by (auto simp: go_sized_def list_all_iff)
qed

lemma fingerprint_input_kept:
  assumes "go_sized l" and "go_sized l'" and "fingerprint_input l ign = fingerprint_input l' ign'"
  shows "kept_label l ign = kept_label l' ign'"
proof
  fix k
  have "sort (kept_keys l ign) = sort (kept_keys l' ign') \<and>
    map (gomap_get l) (sort (kept_keys l ign)) = map (gomap_get l') (sort (kept_keys l' ign'))"
    using assms(3) unfolding fingerprint_input_def
    by (intro enc_pairs_inj go_sized_kept assms(1,2))
  then have s: "set (kept_keys l ign) = set (kept_keys l' ign')"
    and g: "\<And>k. k \<in> set (kept_keys l ign) \<Longrightarrow> gomap_get l k = gomap_get l' k"
    by (metis set_sort, metis map_eq_conv set_sort)
  show "kept_label l ign k = kept_label l' ign' k"
    using kept_label_get [of k] set_kept_keys [of k] g [of k] s by (metis not_None_eq)
qed

text \<open>
  C15. The group fingerprint is a function of the labels that are not ignored: neither the
  order in which Go ranges over the map nor the value of an ignored label changes it.
\<close>

theorem stable_fingerprint_cong:
  assumes "gomap_wf l" and "gomap_wf l'"
    and "\<And>k. kept_label l ign k = kept_label l' ign' k"
  shows "stable_fingerprint l ign = stable_fingerprint l' ign'"
  using fingerprint_input_cong [OF assms(1,2) ext [OF assms(3)]]
  by (simp add: stable_fingerprint_input)

theorem stable_fingerprint_cong_witness:
  "stable_fingerprint [(''alertname'', ''A''), (''pod'', ''x''), (''namespace'', ''n'')] [''pod''] =
   stable_fingerprint [(''namespace'', ''n''), (''alertname'', ''A''), (''pod'', ''y'')] [''pod'', ''uid'']"
  by (rule stable_fingerprint_cong) (simp_all add: gomap_wf_def kept_label_def)

text \<open>
  C14. The bytes that are hashed into the group fingerprint determine the labels that are
  not ignored: the length prefixes make the encoding injective, so two groups share a
  fingerprint only by a collision of the truncated hash.
\<close>

theorem stable_fingerprint_encoding:
  assumes "gomap_wf l" and "gomap_wf l'" and "go_sized l" and "go_sized l'"
  shows "(fingerprint_input l ign = fingerprint_input l' ign') =
      (\<forall>k. kept_label l ign k = kept_label l' ign' k) \<and>
    stable_fingerprint l ign =
      take fingerprint_len (hex16 (fnv_write fnv_offset (fingerprint_input l ign)))"
  using fingerprint_input_cong [OF assms(1,2), of ign ign']
    fingerprint_input_kept [OF assms(3,4), of ign ign'] stable_fingerprint_input [of l ign]
  unfolding fun_eq_iff by blast

theorem stable_fingerprint_encoding_witness:
  "fingerprint_input [(''a'', ''bc'')] [] \<noteq> fingerprint_input [(''ab'', ''c'')] []"
  using stable_fingerprint_encoding [of "[(''a'', ''bc'')]" "[(''ab'', ''c'')]" "[]" "[]"]
  by (auto simp: gomap_wf_def go_sized_def kept_label_def)

end
