(* ===== verification/Run_Prompt.thy ===== *)
theory Run_Prompt
  imports Run_Build
begin

text \<open>
  The request text: what sanitising removes, and that no alert can put a code fence into it.
\<close>

section \<open>The prompt\<close>

text \<open>Three backticks in a row, anywhere in the text.\<close>

fun has_fence :: "string \<Rightarrow> bool" where
  "has_fence (a # b # c # s) \<longleftrightarrow>
     is_backtick a \<and> is_backtick b \<and> is_backtick c \<or> has_fence (b # c # s)"
| "has_fence _ \<longleftrightarrow> False"

lemma has_fence_short: "length s < 3 \<Longrightarrow> \<not> has_fence s"
  by (cases s rule: has_fence.cases) auto

lemma has_fence_Cons:
  "\<not> is_backtick c \<Longrightarrow> has_fence (c # s) \<longleftrightarrow> has_fence s"
  by (cases s rule: has_fence.cases) auto

lemma has_fence_sep:
  "\<not> is_backtick c \<Longrightarrow> has_fence (s @ c # t) \<longleftrightarrow> has_fence s \<or> has_fence t"
proof (induction s)
  case (Cons a s)
  then show ?case
    by (cases s rule: has_fence.cases; cases t rule: has_fence.cases) auto
qed (auto simp: has_fence_Cons)

lemma has_fence_append_sep:
  assumes "s \<noteq> ''''" and "\<not> is_backtick (last s)"
  shows "has_fence (s @ t) \<longleftrightarrow> has_fence s \<or> has_fence t"
proof -
  obtain u c where s: "s = u @ [c]" using assms(1) by (cases s rule: rev_cases) auto
  with assms(2) have c: "\<not> is_backtick c" by simp
  from s has_fence_sep [OF c, of u t] has_fence_sep [OF c, of u "[]"] show ?thesis
    by (simp add: has_fence_short)
qed

lemma has_fence_prepend_sep:
  assumes "t \<noteq> ''''" and "\<not> is_backtick (hd t)"
  shows "has_fence (s @ t) \<longleftrightarrow> has_fence s \<or> has_fence t"
  using assms has_fence_sep [of "hd t" s "tl t"] has_fence_Cons [of "hd t" "tl t"]
  by (cases t) auto

lemma not_has_fence_no_backtick:
  "list_all (\<lambda>c. \<not> is_backtick c) s \<Longrightarrow> \<not> has_fence s"
  by (induction s) (auto simp: has_fence_Cons has_fence_short)

lemma strip_backtick_runs_plain:
  "list_all (\<lambda>c. \<not> is_backtick c) u \<Longrightarrow> strip_backtick_runs (u @ s) = u @ strip_backtick_runs s"
  by (induction u) auto

lemma hd_strip_backtick_runs:
  "s \<noteq> [] \<Longrightarrow> \<not> is_backtick (hd s) \<Longrightarrow>
   strip_backtick_runs s \<noteq> [] \<and> \<not> is_backtick (hd (strip_backtick_runs s))"
  by (cases s) auto

lemma not_has_fence_strip: "\<not> has_fence (strip_backtick_runs s)"
proof (induction s rule: strip_backtick_runs.induct)
  case (2 c s)
  show ?case
  proof (cases "is_backtick c")
    case True
    let ?r = "strip_backtick_runs (dropWhile is_backtick s)"
    let ?u = "if 3 \<le> length (c # takeWhile is_backtick s) then [] else c # takeWhile is_backtick s"
    have u: "\<not> has_fence ?u" using has_fence_short [of ?u] by simp
    have "\<not> has_fence (?u @ ?r)"
    proof (cases "dropWhile is_backtick s = []")
      case False
      then have "?r \<noteq> [] \<and> \<not> is_backtick (hd ?r)"
        using hd_strip_backtick_runs [OF False hd_dropWhile [OF False]] by blast
      then show ?thesis using u "2.IH"(1) [OF True refl] has_fence_prepend_sep by blast
    next
      case True
      then have "?r = []" by (simp only: strip_backtick_runs.simps(1))
      with u show ?thesis by (simp only: append_Nil2 not_False_eq_True)
    qed
    with True show ?thesis by simp
  next
    case False
    with "2.IH"(2) show ?thesis by (simp add: has_fence_Cons)
  qed
qed simp

text \<open>
  Deleting backticks from well-formed text keeps it well-formed: the runes that are left
  are runes of the text.
\<close>

definition encode_all :: "rune list \<Rightarrow> string" where
  "encode_all rs = concat (map encode_rune rs)"

lemma encode_all_simps [simp]:
  "encode_all [] = []" "encode_all (r # rs) = encode_rune r @ encode_all rs"
  by (simp_all add: encode_all_def)

lemma map_fst_runes_encode_all:
  "list_all valid_rune rs \<Longrightarrow> map fst (runes (encode_all rs)) = rs"
  by (induction rs) (simp_all add: runes_encode)

lemma is_backtick_char_of: "is_backtick (char_of n) \<longleftrightarrow> n mod 256 = 96" for n :: nat
  by (simp add: is_backtick_def)

lemma encode_rune_backtick:
  assumes "valid_rune r"
  shows "if r = 96 then encode_rune r = [CHR ''`''] else list_all (\<lambda>c. \<not> is_backtick c) (encode_rune r)"
proof (cases "r < 128")
  case True
  have "char_of (char_code (CHR ''`'')) = CHR ''`''" by (rule char_of_char)
  with True show ?thesis by (auto simp: is_backtick_char_of)
next
  case False
  have "list_all (\<lambda>c. 128 \<le> char_code c) (encode_rune r)"
  proof -
    have m: "128 + n mod 64 < 256" for n :: nat by (simp add: less_trans [OF mod_less_divisor])
    have "r < 2048 \<Longrightarrow> 192 + r div 64 < 256" by (simp add: less_mult_imp_div_less)
    moreover have "r < 65536 \<Longrightarrow> 224 + r div 4096 < 256" 
      by (rule less_le_trans [of _ "224 + 16"]) (simp_all add: less_mult_imp_div_less)
    moreover have "r \<le> 0x10FFFF \<Longrightarrow> 240 + r div 262144 < 256"
      by (rule less_le_trans [of _ "240 + 5"]) (simp_all add: less_mult_imp_div_less)
    ultimately show ?thesis using False assms m
      by (auto simp: encode_rune_def valid_rune_def Let_def)
  qed
  with False show ?thesis by (auto simp: list_all_iff is_backtick_def)
qed

lemma strip_encode_all:
  assumes "list_all valid_rune rs"
  shows "\<exists>rs'. strip_backtick_runs (encode_all rs) = encode_all rs' \<and> set rs' \<subseteq> set rs"
  using assms
proof (induction "length rs" arbitrary: rs rule: less_induct)
  case less
  have tw: "takeWhile is_backtick (encode_all xs) = encode_all (takeWhile (\<lambda>r. r = 96) xs)"
    and dw: "dropWhile is_backtick (encode_all xs) = encode_all (dropWhile (\<lambda>r. r = 96) xs)"
    if "list_all valid_rune xs" for xs
  proof -
    have "takeWhile is_backtick (encode_all xs) = encode_all (takeWhile (\<lambda>r. r = 96) xs) \<and>
      dropWhile is_backtick (encode_all xs) = encode_all (dropWhile (\<lambda>r. r = 96) xs)"
      using that
    proof (induction xs)
      case (Cons x xs)
      then show ?case
        using encode_rune_backtick [of x]
        by (cases "encode_rune x") (auto simp: is_backtick_def encode_rune_def Let_def split: if_splits)
    qed simp
    then show "takeWhile is_backtick (encode_all xs) = encode_all (takeWhile (\<lambda>r. r = 96) xs)"
      "dropWhile is_backtick (encode_all xs) = encode_all (dropWhile (\<lambda>r. r = 96) xs)" by auto
  qed
  show ?case
  proof (cases rs)
    case (Cons r xs)
    with less.prems have v: "valid_rune r" "list_all valid_rune xs" by auto
    show ?thesis
    proof (cases "r = 96")
      case True
      let ?d = "dropWhile (\<lambda>r. r = 96) xs" and ?t = "takeWhile (\<lambda>r. r = 96) xs"
      have "length ?d < length rs" "list_all valid_rune ?d"
        using Cons length_dropWhile_le [of "\<lambda>r. r = 96" xs] v(2) by (auto intro: list_all_dropWhile)
      from less.hyps [OF this] obtain ds where
        ds: "strip_backtick_runs (encode_all ?d) = encode_all ds" "set ds \<subseteq> set ?d" by blast
      have e: "encode_rune 96 = [CHR ''`'']" "is_backtick (CHR ''`'')"
        using encode_rune_backtick [OF v(1)] True by (auto simp: is_backtick_def)
      have "strip_backtick_runs (encode_all rs) = encode_all ds \<or>
        strip_backtick_runs (encode_all rs) = encode_all (96 # ?t @ ds)"
        using Cons True e tw [OF v(2)] dw [OF v(2)] ds(1) by (simp add: encode_all_def)
      moreover have "set ds \<subseteq> set rs" "set (96 # ?t @ ds) \<subseteq> set rs"
        using ds(2) Cons True by (auto dest: set_dropWhileD set_takeWhileD)
      ultimately show ?thesis by blast
    next
      case False
      obtain xs' where "strip_backtick_runs (encode_all xs) = encode_all xs'" "set xs' \<subseteq> set xs"
        using less.hyps [of xs] Cons v(2) by auto
      then show ?thesis
        using encode_rune_backtick [OF v(1)] False Cons
        by (intro exI [of _ "r # xs'"]) (auto simp: strip_backtick_runs_plain)
    qed
  qed (intro exI [of _ "[]"], simp)
qed

lemma strings_map_encode_all:
  "strings_map f s = encode_all (List.map_filter f (map fst (runes s)))"
proof -
  have "concat (map (\<lambda>(r, bs). case f r of None \<Rightarrow> [] | Some r' \<Rightarrow> encode_rune r') xs) =
    encode_all (List.map_filter f (map fst xs))" for xs :: "(rune \<times> string) list"
    by (induction xs) (auto simp: map_filter_simps split: option.split)
  then show ?thesis by (simp add: strings_map_def)
qed

definition prompt_rune_ok :: "rune \<Rightarrow> bool" where
  "prompt_rune_ok r \<longleftrightarrow> r = 10 \<or> \<not> unicode_is_control r \<and> \<not> unicode_in_cf r"

lemma in_set_map_filter: "x \<in> set (List.map_filter f xs) \<longleftrightarrow> (\<exists>y\<in>set xs. f y = Some x)"
  by (induction xs) (auto simp: map_filter_simps split: option.split)

lemma prompt_rune_Some: "prompt_rune r = Some r' \<Longrightarrow> r' = r \<and> prompt_rune_ok r"
  by (auto simp: prompt_rune_def prompt_rune_ok_def split: if_splits)

lemma sanitize_prompt_value_no_fence: "\<not> has_fence (sanitize_prompt_value s)"
  by (simp add: sanitize_prompt_value_def not_has_fence_strip)

text \<open>
  C16. A sanitised prompt value holds no control or format characters other than the line
  feed and no three backticks in a row, also where the input was not valid UTF-8 or the
  deletion joined parts of it.
\<close>

theorem sanitize_prompt_value_safe:
  "list_all prompt_rune_ok (map fst (runes (sanitize_prompt_value s))) \<and>
   \<not> has_fence (sanitize_prompt_value s)"
proof -
  let ?rs = "List.map_filter prompt_rune (map fst (runes s))"
  have sub: "set ?rs \<subseteq> set (map fst (runes s)) \<inter> {r. prompt_rune_ok r}"
  proof
    fix r assume "r \<in> set ?rs"
    then obtain q where "q \<in> set (map fst (runes s))" "prompt_rune q = Some r"
      unfolding in_set_map_filter by blast
    with prompt_rune_Some [of q r] show "r \<in> set (map fst (runes s)) \<inter> {r. prompt_rune_ok r}" by blast
  qed
  then have v: "list_all valid_rune ?rs" using runes_valid by (fastforce simp: list_all_iff)
  from strip_encode_all [OF this] obtain rs' where
    rs': "sanitize_prompt_value s = encode_all rs'" "set rs' \<subseteq> set ?rs"
    by (auto simp: sanitize_prompt_value_def strings_map_encode_all)
  then have "list_all valid_rune rs'" using v by (auto simp: list_all_iff)
  from map_fst_runes_encode_all [OF this] rs' sub
  have "list_all prompt_rune_ok (map fst (runes (sanitize_prompt_value s)))"
    by (auto simp: list_all_iff)
  with sanitize_prompt_value_no_fence show ?thesis by simp
qed

lemma has_fence_skills:
  assumes "\<not> is_backtick c"
  shows "has_fence (concat (map (\<lambda>n. '' '' @ n) ns) @ c # t) \<longleftrightarrow>
    list_ex has_fence ns \<or> has_fence t"
proof (induction ns)
  case Nil
  with assms show ?case by (simp add: has_fence_Cons)
next
  case (Cons n ns)
  let ?r = "concat (map (\<lambda>n. '' '' @ n) ns) @ c # t"
  have sp: "\<not> is_backtick (CHR '' '')" by (simp add: is_backtick_def)
  have "?r \<noteq> [] \<and> \<not> is_backtick (hd ?r)" using assms sp by (cases ns) simp_all
  then have "has_fence (n @ ?r) \<longleftrightarrow> has_fence n \<or> has_fence ?r"
    using has_fence_prepend_sep by blast
  with Cons.IH sp show ?case by (simp add: has_fence_Cons)
qed

lemma has_fence_template:
  "has_fence (request_template d) \<longleftrightarrow>
     has_fence (req_alert_name d) \<or> has_fence (req_severity d) \<or> has_fence (req_namespace d) \<or>
     has_fence (req_description d) \<or> has_fence (req_runbook_url d) \<or>
     list_ex has_fence (req_skill_names d)"
proof -
  have nl: "\<not> is_backtick (CHR 0x0A)" by (simp add: is_backtick_def)
  note sk = has_fence_skills [OF nl, of "req_skill_names d" "''''"]
  have sp: "((@) '' '') = (#) (CHR '' '')" by (rule ext) simp
  show ?thesis
    using sk
    by (cases "req_runbook_url d = ''''"; cases "req_skill_names d = []")
      (simp_all add: request_template_def newline_def has_fence_sep has_fence_Cons is_backtick_def
        has_fence_short disj_ac sp)
qed

text \<open>
  C17. A code fence in the rendered request can only come from the name of a configured
  skill, never from the labels or annotations of the alert.
\<close>

theorem build_request_no_fence:
  assumes "build_request a shared = Ok text" and "has_fence text"
  shows "list_ex has_fence (skill_names shared)"
  using assms sanitize_prompt_value_no_fence
  by (auto simp: build_request_def has_fence_template request_data_of_def)

theorem build_request_no_fence_witness:
  "list_ex has_fence (skill_names [\<lparr>skills_image = ''i'', skills_paths = [''/skills/```'']\<rparr>])"
proof (rule build_request_no_fence)
  let ?s = "[\<lparr>skills_image = ''i'', skills_paths = [''/skills/```'']\<rparr>]"
  let ?a = "\<lparr>alert_labels = [], alert_annotations = [], alert_fingerprint = None,
     alert_starts_at = None, alert_receivers = []\<rparr>"
  show "build_request ?a ?s = Ok (request_template (request_data_of ?a ?s))"
    by (simp add: build_request_def)
  have "has_fence ''```''" by (simp add: is_backtick_def)
  then show "has_fence (request_template (request_data_of ?a ?s))"
    by (simp add: has_fence_template request_data_of_def skill_names_def path_base_def trim_right_def)
qed

end
