(* ===== verification/Run_Assembly.thy ===== *)
theory Run_Assembly
  imports Run_Names Run_Group Run_Prompt
begin

text \<open>
  The run as a whole, as \<^verbatim>\<open>build_for_target\<close> assembles it.
\<close>

section \<open>The run\<close>

lemma hex_is_label_value:
  assumes "list_all is_hex_char s" and "length s \<le> 63"
  shows "k8s_label_value s"
proof -
  have "is_alnum (char_code c)" if "c \<in> set s" for c
    using assms(1) that
    by (auto simp: list_all_iff is_hex_char_def in_range_def is_alnum_def is_lower_alnum_def)
  then show ?thesis using assms(2)
    by (cases "s = []") (auto simp: k8s_label_value_def list_all_iff valid_label_rune_def)
qed

lemma stable_fingerprint_label: "k8s_label_value (stable_fingerprint l ign)"
  using group_id.digest_hex [of "(l, ign)"] by (intro hex_is_label_value) simp_all

lemma source_value_label: "k8s_label_value source_value"
  by (simp add: source_value_def k8s_label_value_def valid_label_rune_def is_alnum_def
      is_lower_alnum_def)

lemma build_labels_valid:
  assumes "k8s_label_value fp"
  shows "list_all (\<lambda>(k, v). k8s_label_value v) (build_labels n sev ofp fp)"
  using assms source_value_label by (simp add: build_labels_def k8s_label_value_sanitize)

lemma build_labels_group: "gomap_get (build_labels n sev ofp fp) label_dedup_fingerprint = fp"
  by (simp add: build_labels_def label_defs gomap_get_def)

lemma build_labels_wf: "gomap_wf (build_labels n sev ofp fp)"
  by (simp add: build_labels_def label_defs gomap_wf_def)

text \<open>
  C12. BuildForTarget never panics: a missing fingerprint and a missing start time give
  their errors in this order, and every other alert gives a run with the built name, the
  target namespace, pairwise different labels whose values all obey the rules of
  Kubernetes, the group fingerprint under alert-group-id, the target cluster and the
  shared skills as given, and a non-empty agent for each step.
\<close>

theorem build_for_target_cases:
  "case (alert_fingerprint a, alert_starts_at a) of
     (None, _) \<Rightarrow> build_for_target a tools agent ign ns tid tc = Err FingerprintNil
   | (Some fp, None) \<Rightarrow> build_for_target a tools agent ign ns tid tc = Err StartsAtNil
   | (Some fp, Some t) \<Rightarrow> (\<exists>r. build_for_target a tools agent ign ns tid tc = Ok r \<and>
       build_name (gomap_get (alert_labels a) ''alertname'') (gomap_get (alert_labels a) ''namespace'')
         t tid = Ok (run_name r) \<and>
       run_namespace r = ns \<and>
       gomap_wf (run_labels r) \<and> list_all (\<lambda>(k, v). k8s_label_value v) (run_labels r) \<and>
       gomap_get (run_labels r) label_dedup_fingerprint = stable_fingerprint (alert_labels a) ign \<and>
       spec_target_cluster (run_spec r) = tc \<and> spec_tools (run_spec r) = tools_shared tools \<and>
       '''' \<notin> {spec_analysis (run_spec r), spec_execution (run_spec r), spec_verification (run_spec r)} \<and>
       run_conditions r = [])"
proof (cases "alert_fingerprint a")
  case (Some fp)
  show ?thesis
  proof (cases "alert_starts_at a")
    case t: (Some t)
    obtain n where n: "build_name (gomap_get (alert_labels a) ''alertname'')
        (gomap_get (alert_labels a) ''namespace'') t tid = Ok n"
      using build_name_shape by blast
    have ra: "resolve_agent x y \<noteq> ''''" for x y by (simp add: resolve_agent_def default_agent_def)
    show ?thesis
      using Some t n ra [THEN not_sym] stable_fingerprint_label
      by (auto simp: build_for_target_def Let_def build_request_def build_labels_valid
          build_labels_group build_labels_wf)
  qed (simp add: Some build_for_target_def Let_def)
qed (simp add: build_for_target_def)

lemma build_for_target_Ok_ex:
  assumes "alert_fingerprint a = Some fp" and "alert_starts_at a = Some t"
  shows "\<exists>r. build_for_target a tools agent ign ns tid tc = Ok r"
proof -
  obtain n where "build_name (gomap_get (alert_labels a) ''alertname'')
      (gomap_get (alert_labels a) ''namespace'') t tid = Ok n"
    using build_name_shape by blast
  with assms show ?thesis by (simp add: build_for_target_def Let_def build_request_def)
qed

text \<open>The facts about a run that was built.\<close>

lemma build_for_target_Ok:
  assumes "build_for_target a tools agent ign ns tid tc = Ok r"
  shows "gomap_get (run_labels r) label_dedup_fingerprint = stable_fingerprint (alert_labels a) ign"
    and "run_conditions r = []" and "run_namespace r = ns"
    and "spec_target_cluster (run_spec r) = tc"
    and "\<exists>t. alert_starts_at a = Some t \<and>
      build_name (gomap_get (alert_labels a) ''alertname'') (gomap_get (alert_labels a) ''namespace'') t tid
        = Ok (run_name r)"
  using assms
  by (auto simp: build_for_target_def Let_def build_labels_group bind_outcome_Ok_iff
      split: option.splits)

lemma build_for_target_no_panic: "build_for_target a tools agent ign ns tid tc \<noteq> Panic"
proof (cases "alert_fingerprint a = None \<or> alert_starts_at a = None")
  case False
  then obtain fp t where "alert_fingerprint a = Some fp" "alert_starts_at a = Some t" by auto
  moreover obtain n where "build_name (gomap_get (alert_labels a) ''alertname'')
      (gomap_get (alert_labels a) ''namespace'') t tid = Ok n"
    using build_name_shape by blast
  ultimately show ?thesis by (simp add: build_for_target_def Let_def build_request_def)
qed (auto simp: build_for_target_def Let_def split: option.splits)

end
