(* ===== verification/Adapter.thy ===== *)
theory Adapter
  imports Config Run_Assembly
begin

text \<open>
  \<^verbatim>\<open>internal/adapter/adapter.go\<close>, part one: the decisions about one alert and the
  reconciliation of one target.

  What the code reaches through interfaces and packages outside the repository is a record
  \<^verbatim>\<open>env\<close> of operations on a state \<^verbatim>\<open>'w\<close> of the outside world: the alert source, the run
  client, the context, the clock and the shared table of creation backoffs
  (\<^verbatim>\<open>flowcontrol.Backoff\<close>). Every operation may change \<^verbatim>\<open>'w\<close> in any way, so what other
  goroutines do between two calls is covered. \<^verbatim>\<open>DerivePhase\<close> of the operator is the
  argument \<^verbatim>\<open>phase\<close>.

  \<^verbatim>\<open>reconcile_alert\<close> is the body of the loop over the alerts and \<^verbatim>\<open>reconcile_alerts\<close> the
  loop; \<^verbatim>\<open>control\<close> tells the ways a body ends apart. The loop state carries the local
  variables of the code and the log; \<^verbatim>\<open>ls_calls\<close> additionally records the arguments of
  the calls to \<^verbatim>\<open>CreateAgenticRun\<close>.
\<close>

section \<open>Decisions\<close>

definition creation_backoff_key :: "string \<Rightarrow> string \<Rightarrow> string" where
  "creation_backoff_key target_name stable_fp = target_name @ CHR 0x00 # stable_fp"

fun receiver_allowed :: "string list \<Rightarrow> receiver option \<Rightarrow> bool" where
  "receiver_allowed allowed None = False"
| "receiver_allowed allowed (Some r) =
     (case receiver_name r of None \<Rightarrow> False | Some n \<Rightarrow> to_lower n \<in> set allowed)"

fun skip_receivers :: "receiver option list \<Rightarrow> string list \<Rightarrow> bool" where
  "skip_receivers [] allowed = True"
| "skip_receivers (r # rs) allowed =
     (if receiver_allowed allowed r then False else skip_receivers rs allowed)"

definition skip_receiver :: "alert \<Rightarrow> string list \<Rightarrow> bool" where
  "skip_receiver a allowed = skip_receivers (alert_receivers a) allowed"

definition receiver_names :: "alert \<Rightarrow> string list" where
  "receiver_names a =
     List.map_filter (\<lambda>r. case r of None \<Rightarrow> None | Some r \<Rightarrow> receiver_name r) (alert_receivers a)"

definition too_early :: "alert \<Rightarrow> time \<Rightarrow> duration \<Rightarrow> bool" where
  "too_early a now threshold =
     (case alert_starts_at a of
        None \<Rightarrow> True
      | Some t \<Rightarrow> time_sub now t < threshold)"

definition run_group :: "agentic_run \<Rightarrow> string" where
  "run_group r = gomap_get (run_labels r) label_dedup_fingerprint"

definition is_terminal :: "run_phase \<Rightarrow> bool" where
  "is_terminal p =
     (case p of
        PhaseCompleted \<Rightarrow> True | PhaseFailed \<Rightarrow> True | PhaseDenied \<Rightarrow> True
      | PhaseEscalated \<Rightarrow> True | PhaseEmergencyStopped \<Rightarrow> True
      | OtherPhase _ \<Rightarrow> False)"

type_synonym phase_fun = "run_condition list \<Rightarrow> run_phase"

fun has_active_run :: "phase_fun \<Rightarrow> string \<Rightarrow> agentic_run list \<Rightarrow> bool" where
  "has_active_run phase fp [] = False"
| "has_active_run phase fp (r # rs) =
     (if run_group r \<noteq> fp then has_active_run phase fp rs
      else if \<not> is_terminal (phase (run_conditions r)) then True
      else has_active_run phase fp rs)"

fun has_emergency_stopped_name_conflict ::
  "phase_fun \<Rightarrow> string \<Rightarrow> string \<Rightarrow> agentic_run list \<Rightarrow> bool" where
  "has_emergency_stopped_name_conflict phase name fp [] = False"
| "has_emergency_stopped_name_conflict phase name fp (r # rs) =
     (if run_name r \<noteq> name \<or> run_group r \<noteq> fp
      then has_emergency_stopped_name_conflict phase name fp rs
      else if phase (run_conditions r) = PhaseEmergencyStopped then True
      else has_emergency_stopped_name_conflict phase name fp rs)"

definition run_names :: "agentic_run list \<Rightarrow> string list" where
  "run_names rs = map run_name rs"

fun find_failed_condition_type :: "run_condition list \<Rightarrow> condition_type" where
  "find_failed_condition_type [] = OtherCondition ''''"
| "find_failed_condition_type (c # cs) =
     (if cond_status c = ConditionFalse then cond_type c else find_failed_condition_type cs)"

fun transition_of :: "condition_type \<Rightarrow> run_condition list \<Rightarrow> time option" where
  "transition_of t [] = None"
| "transition_of t (c # cs) = (if cond_type c = t then Some (cond_transition c) else transition_of t cs)"

definition terminal_condition :: "phase_fun \<Rightarrow> run_condition list \<Rightarrow> condition_type option" where
  "terminal_condition phase cs =
     (case phase cs of
        PhaseCompleted \<Rightarrow> Some ConditionVerified
      | PhaseFailed \<Rightarrow> Some (find_failed_condition_type cs)
      | PhaseDenied \<Rightarrow> Some ConditionDenied
      | PhaseEscalated \<Rightarrow> Some ConditionEscalated
      | PhaseEmergencyStopped \<Rightarrow> Some ConditionEmergencyStopped
      | OtherPhase _ \<Rightarrow> None)"

definition terminal_time :: "phase_fun \<Rightarrow> agentic_run \<Rightarrow> time option" where
  "terminal_time phase r =
     (case terminal_condition phase (run_conditions r) of
        None \<Rightarrow> None
      | Some t \<Rightarrow> if t = OtherCondition '''' then None else transition_of t (run_conditions r))"

fun too_recent :: "phase_fun \<Rightarrow> string \<Rightarrow> agentic_run list \<Rightarrow> time \<Rightarrow> duration \<Rightarrow> bool" where
  "too_recent phase fp [] now window = False"
| "too_recent phase fp (r # rs) now window =
     (if run_group r \<noteq> fp then too_recent phase fp rs now window
      else case terminal_time phase r of
          Some tt \<Rightarrow> if time_sub now tt < window then True else too_recent phase fp rs now window
        | None \<Rightarrow> too_recent phase fp rs now window)"

section \<open>The environment\<close>

definition creation_backoff_initial :: duration where "creation_backoff_initial = minute"
definition creation_backoff_max :: duration where "creation_backoff_max = 10 * minute"

record target =
  target_name :: string
  target_id :: string
  target_namespace :: string

record 'w env =
  env_get_alerts :: "'w \<Rightarrow> 'w \<times> (go_error + alert option list)"
  env_list_runs :: "'w \<Rightarrow> 'w \<times> (go_error + agentic_run list)"
  env_create_run :: "'w \<Rightarrow> agentic_run \<Rightarrow> 'w \<times> agentic_run \<times> (go_error + bool)"
  env_ctx_err :: "'w \<Rightarrow> 'w \<times> bool"
  env_now :: "'w \<Rightarrow> 'w \<times> time"
  env_backoff_get :: "'w \<Rightarrow> string \<Rightarrow> 'w \<times> duration"
  env_in_backoff :: "'w \<Rightarrow> string \<Rightarrow> time \<Rightarrow> 'w \<times> bool"
  env_backoff_next :: "'w \<Rightarrow> string \<Rightarrow> time \<Rightarrow> 'w"
  env_backoff_reset :: "'w \<Rightarrow> string \<Rightarrow> 'w"

section \<open>The loop over the alerts\<close>

datatype skip_reason = NoMatchingReceiver "string list" | PreRunDelay | ActiveRunExists
  | PostRunDelay | CreationBackoff duration

datatype log_entry =
    GetAlertsFailed go_error
  | ListRunsFailed go_error
  | AlertSkipped string string skip_reason      \<comment> \<open>alert name, fingerprint\<close>
  | BuildFailed string string go_error
  | CreationFailed bool string go_error duration \<comment> \<open>increasing, run, error, backoff\<close>
  | BackoffCleared string duration
  | RunCreated string
  | CycleComplete nat nat nat                   \<comment> \<open>alerts, skipped, created\<close>

record 'w loop_state =
  ls_world :: 'w
  ls_runs :: "agentic_run list"
  ls_created :: nat
  ls_skipped :: nat
  ls_log :: "log_entry list"
  ls_calls :: "agentic_run list"

datatype control = NextAlert | ReturnEarly | Crash

definition add_log :: "log_entry \<Rightarrow> 'w loop_state \<Rightarrow> 'w loop_state" where
  "add_log l s = s\<lparr>ls_log := ls_log s @ [l]\<rparr>"

definition skip_alert :: "string \<Rightarrow> string \<Rightarrow> skip_reason \<Rightarrow> 'w loop_state \<Rightarrow> 'w loop_state" where
  "skip_alert name fp reason s =
     add_log (AlertSkipped name fp reason) (s\<lparr>ls_skipped := Suc (ls_skipped s)\<rparr>)"

text \<open>The four filters before a run is built, in the order of the code.\<close>

definition filter_alert ::
  "phase_fun \<Rightarrow> config \<Rightarrow> time \<Rightarrow> alert \<Rightarrow> agentic_run list \<Rightarrow> skip_reason option" where
  "filter_alert phase cfg now a runs =
     (if skip_receiver a (allowed_receivers cfg) then Some (NoMatchingReceiver (receiver_names a))
      else if 0 < pre_run_delay cfg \<and> too_early a now (pre_run_delay cfg) then Some PreRunDelay
      else let stable_fp = stable_fingerprint (alert_labels a) (ignored_labels cfg) in
        if has_active_run phase stable_fp runs then Some ActiveRunExists
        else if 0 < post_run_delay cfg \<and> too_recent phase stable_fp runs now (post_run_delay cfg)
        then Some PostRunDelay
        else None)"

text \<open>The name of the run to create: a retry name when an emergency-stopped run has the built one.\<close>

definition retry_name ::
  "phase_fun \<Rightarrow> string \<Rightarrow> agentic_run list \<Rightarrow> agentic_run \<Rightarrow> (go_error, agentic_run) outcome" where
  "retry_name phase stable_fp runs p =
     (if has_emergency_stopped_name_conflict phase (run_name p) stable_fp runs
      then bind_outcome (next_available_name (run_name p) (run_names runs)) (\<lambda>n. Ok (p\<lparr>run_name := n\<rparr>))
      else Ok p)"

text \<open>From the lookup of the backoff to the end of the body.\<close>

definition attempt_create ::
  "'w env \<Rightarrow> target \<Rightarrow> time \<Rightarrow> string \<Rightarrow> string \<Rightarrow> string \<Rightarrow> agentic_run \<Rightarrow> 'w loop_state
   \<Rightarrow> control \<times> 'w loop_state" where
  "attempt_create env tgt now alert_name fp stable_fp p s =
     (let key = creation_backoff_key (target_name tgt) stable_fp;
          (w, previous) = env_backoff_get env (ls_world s) key;
          (w, blocked) = env_in_backoff env w key now;
          s = s\<lparr>ls_world := w\<rparr>
      in if blocked then (NextAlert, skip_alert alert_name fp (CreationBackoff previous) s)
      else
        let s = s\<lparr>ls_calls := ls_calls s @ [p]\<rparr>;
            (w, p, res) = env_create_run env w p;
            s = s\<lparr>ls_world := w\<rparr>
        in case res of
          Inl err \<Rightarrow>
            let (w, cancelled) = env_ctx_err env w; s = s\<lparr>ls_world := w\<rparr> in
            if cancelled then (ReturnEarly, s)
            else
              let w = env_backoff_next env w key now;
                  (w, current) = env_backoff_get env w key
              in (NextAlert,
                  add_log (CreationFailed (0 < previous) (run_name p) err current) (s\<lparr>ls_world := w\<rparr>))
        | Inr was_created \<Rightarrow>
            let s = (if 0 < previous
                     then add_log (BackoffCleared (run_name p) previous)
                            (s\<lparr>ls_world := env_backoff_reset env w key\<rparr>)
                     else s);
                s = (if was_created
                     then add_log (RunCreated (run_name p))
                            (s\<lparr>ls_runs := ls_runs s @ [p], ls_created := Suc (ls_created s)\<rparr>)
                     else s)
            in (NextAlert, s))"

definition reconcile_alert ::
  "'w env \<Rightarrow> phase_fun \<Rightarrow> config \<Rightarrow> target \<Rightarrow> time \<Rightarrow> alert option \<Rightarrow> 'w loop_state
   \<Rightarrow> control \<times> 'w loop_state" where
  "reconcile_alert env phase cfg tgt now alert s =
     (let (w, cancelled) = env_ctx_err env (ls_world s); s = s\<lparr>ls_world := w\<rparr> in
      if cancelled then (ReturnEarly, s)
      else case alert of
        None \<Rightarrow> (Crash, s)
      | Some a \<Rightarrow>
          let fp = (case alert_fingerprint a of None \<Rightarrow> '''' | Some f \<Rightarrow> f);
              alert_name = gomap_get (alert_labels a) ''alertname''
          in case filter_alert phase cfg now a (ls_runs s) of
            Some reason \<Rightarrow> (NextAlert, skip_alert alert_name fp reason s)
          | None \<Rightarrow>
              let stable_fp = stable_fingerprint (alert_labels a) (ignored_labels cfg);
                  target_cluster = (if target_id tgt \<noteq> '''' then target_name tgt else '''')
              in case build_for_target a (config_tools cfg) (config_agent cfg) (ignored_labels cfg)
                        (target_namespace tgt) (target_id tgt) target_cluster of
                Panic \<Rightarrow> (Crash, s)
              | Err e \<Rightarrow> (NextAlert, add_log (BuildFailed alert_name fp e) s)
              | Ok p \<Rightarrow>
                  (case retry_name phase stable_fp (ls_runs s) p of
                     Ok p \<Rightarrow> attempt_create env tgt now alert_name fp stable_fp p s
                   | _ \<Rightarrow> (Crash, s)))"

fun reconcile_alerts ::
  "'w env \<Rightarrow> phase_fun \<Rightarrow> config \<Rightarrow> target \<Rightarrow> time \<Rightarrow> alert option list \<Rightarrow> 'w loop_state
   \<Rightarrow> control \<times> 'w loop_state" where
  "reconcile_alerts env phase cfg tgt now [] s = (NextAlert, s)"
| "reconcile_alerts env phase cfg tgt now (a # as) s =
     (case reconcile_alert env phase cfg tgt now a s of
        (NextAlert, s) \<Rightarrow> reconcile_alerts env phase cfg tgt now as s
      | (c, s) \<Rightarrow> (c, s))"

definition loop_start :: "'w \<Rightarrow> agentic_run list \<Rightarrow> 'w loop_state" where
  "loop_start w runs =
     \<lparr>ls_world = w, ls_runs = runs, ls_created = 0, ls_skipped = 0, ls_log = [], ls_calls = []\<rparr>"

definition reconcile_target ::
  "'w env \<Rightarrow> phase_fun \<Rightarrow> config \<Rightarrow> target \<Rightarrow> 'w \<Rightarrow> control \<times> 'w loop_state" where
  "reconcile_target env phase cfg tgt w =
     (case env_get_alerts env w of
        (w, Inl err) \<Rightarrow> (ReturnEarly, add_log (GetAlertsFailed err) (loop_start w []))
      | (w, Inr alerts) \<Rightarrow>
          (case env_list_runs env w of
             (w, Inl err) \<Rightarrow> (ReturnEarly, add_log (ListRunsFailed err) (loop_start w []))
           | (w, Inr runs) \<Rightarrow>
               let (w, now) = env_now env w in
               (case reconcile_alerts env phase cfg tgt now alerts (loop_start w runs) of
                  (NextAlert, s) \<Rightarrow>
                    (NextAlert,
                     add_log (CycleComplete (length alerts) (ls_skipped s) (ls_created s)) s)
                | (c, s) \<Rightarrow> (c, s))))"

section \<open>The decisions, as statements about all runs\<close>

lemma skip_receiver_iff:
  "skip_receiver a allowed \<longleftrightarrow>
     (\<forall>r n. Some r \<in> set (alert_receivers a) \<and> receiver_name r = Some n \<longrightarrow> to_lower n \<notin> set allowed)"
proof -
  have "skip_receivers rs allowed \<longleftrightarrow> list_all (\<lambda>r. \<not> receiver_allowed allowed r) rs" for rs
    by (induction rs) auto
  moreover have "receiver_allowed allowed r \<longleftrightarrow>
      (\<exists>x n. r = Some x \<and> receiver_name x = Some n \<and> to_lower n \<in> set allowed)" for r
    by (cases r) (auto split: option.splits)
  ultimately show ?thesis by (auto simp: skip_receiver_def list_all_iff)
qed

lemma has_active_run_iff:
  "has_active_run phase fp rs \<longleftrightarrow>
     (\<exists>r\<in>set rs. run_group r = fp \<and> \<not> is_terminal (phase (run_conditions r)))"
  by (induction rs) auto

lemma name_conflict_iff:
  "has_emergency_stopped_name_conflict phase name fp rs \<longleftrightarrow>
     (\<exists>r\<in>set rs. run_name r = name \<and> run_group r = fp \<and> phase (run_conditions r) = PhaseEmergencyStopped)"
  by (induction rs) auto

lemma too_recent_iff:
  "too_recent phase fp rs now window \<longleftrightarrow>
     (\<exists>r\<in>set rs. run_group r = fp \<and> (\<exists>tt. terminal_time phase r = Some tt \<and> time_sub now tt < window))"
  by (induction rs) (auto split: option.splits)

lemma transition_of_Some:
  "transition_of t cs = Some x \<Longrightarrow> \<exists>c\<in>set cs. cond_type c = t \<and> cond_transition c = x"
  by (induction cs) (auto split: if_splits)

lemma transition_of_None: "transition_of t cs = None \<longleftrightarrow> (\<forall>c\<in>set cs. cond_type c \<noteq> t)"
  by (induction cs) auto

lemma terminal_time_terminal: "terminal_time phase r \<noteq> None \<Longrightarrow> is_terminal (phase (run_conditions r))"
  by (auto simp: terminal_time_def terminal_condition_def is_terminal_def split: run_phase.splits)

text \<open>Which alerts pass the filters, without the order in which the code tests them.\<close>

definition admitted :: "phase_fun \<Rightarrow> config \<Rightarrow> time \<Rightarrow> alert \<Rightarrow> agentic_run list \<Rightarrow> bool" where
  "admitted phase cfg now a runs \<longleftrightarrow>
     (\<exists>r n. Some r \<in> set (alert_receivers a) \<and> receiver_name r = Some n \<and>
        to_lower n \<in> set (allowed_receivers cfg)) \<and>
     (pre_run_delay cfg \<le> 0 \<or>
        (\<exists>t. alert_starts_at a = Some t \<and> pre_run_delay cfg \<le> time_sub now t)) \<and>
     (\<forall>r\<in>set runs. run_group r = stable_fingerprint (alert_labels a) (ignored_labels cfg) \<longrightarrow>
        is_terminal (phase (run_conditions r)) \<and>
        (0 < post_run_delay cfg \<longrightarrow>
          (\<forall>tt. terminal_time phase r = Some tt \<longrightarrow> post_run_delay cfg \<le> time_sub now tt)))"

lemma filter_alert_None: "filter_alert phase cfg now a runs = None \<longleftrightarrow> admitted phase cfg now a runs"
proof -
  have "(\<not> skip_receiver a (allowed_receivers cfg)) =
      (\<exists>r n. Some r \<in> set (alert_receivers a) \<and> receiver_name r = Some n \<and>
        to_lower n \<in> set (allowed_receivers cfg))"
    unfolding skip_receiver_iff by blast
  moreover have "(\<not> (0 < pre_run_delay cfg \<and> too_early a now (pre_run_delay cfg))) =
      (pre_run_delay cfg \<le> 0 \<or>
        (\<exists>t. alert_starts_at a = Some t \<and> pre_run_delay cfg \<le> time_sub now t))"
    by (auto simp: too_early_def not_less split: option.split)
  moreover have "filter_alert phase cfg now a runs = None \<longleftrightarrow>
      \<not> skip_receiver a (allowed_receivers cfg) \<and>
      \<not> (0 < pre_run_delay cfg \<and> too_early a now (pre_run_delay cfg)) \<and>
      \<not> has_active_run phase (stable_fingerprint (alert_labels a) (ignored_labels cfg)) runs \<and>
      \<not> (0 < post_run_delay cfg \<and>
          too_recent phase (stable_fingerprint (alert_labels a) (ignored_labels cfg)) runs now
            (post_run_delay cfg))"
    by (simp add: filter_alert_def Let_def)
  ultimately show ?thesis
    unfolding admitted_def has_active_run_iff too_recent_iff by (auto simp: not_less)
qed

text \<open>
  C7. The chain of filters lets exactly the admitted alerts through: those with an allowed
  receiver, old enough, whose group has only terminal runs, none of them inside the
  cooldown.
\<close>

theorem filter_alert_admitted:
  "(filter_alert phase cfg now a runs = None) = admitted phase cfg now a runs"
  by (rule filter_alert_None)

section \<open>The key of the backoff table\<close>

lemma creation_backoff_key_inj:
  "creation_backoff_key n (stable_fingerprint l i) = creation_backoff_key n' (stable_fingerprint l' i') \<longleftrightarrow>
   n = n' \<and> stable_fingerprint l i = stable_fingerprint l' i'"
  by (auto simp: creation_backoff_key_def)

section \<open>The cooldown\<close>

text \<open>
  C38. A run in the completed phase without a Verified condition is terminal but has no
  terminal time, so it neither counts as active nor starts the cooldown of its group.
\<close>

theorem completed_without_verified_not_cooling:
  assumes "phase (run_conditions r) = PhaseCompleted"
    and "\<forall>c\<in>set (run_conditions r). cond_type c \<noteq> ConditionVerified"
  shows "is_terminal (phase (run_conditions r)) \<and> terminal_time phase r = None \<and>
    \<not> too_recent phase fp [r] now window \<and> \<not> has_active_run phase fp [r]"
proof -
  have "terminal_time phase r = None"
    using assms by (simp add: terminal_time_def terminal_condition_def transition_of_None)
  with assms(1) show ?thesis by (auto simp: is_terminal_def)
qed

definition sample_run :: agentic_run where
  "sample_run = \<lparr>run_api_version = '''', run_kind = '''', run_name = ''a-00000000'', run_namespace = '''',
     run_labels = [], run_annotations = [],
     run_spec = \<lparr>spec_request = '''', spec_analysis = '''', spec_execution = '''',
       spec_verification = '''', spec_target_cluster = '''', spec_tools = []\<rparr>,
     run_conditions = []\<rparr>"

theorem completed_without_verified_not_cooling_witness:
  "\<not> too_recent (\<lambda>_. PhaseCompleted) '''' [sample_run] 0 hour \<and>
   \<not> has_active_run (\<lambda>_. PhaseCompleted) '''' [sample_run]"
  using completed_without_verified_not_cooling [of "\<lambda>_. PhaseCompleted" sample_run "''''" 0 hour]
  by (simp add: sample_run_def)

end
