(* ===== verification/Registry.thy ===== *)
theory Registry
  imports Adapter "HOL-Library.AList"
begin

text \<open>
  \<^verbatim>\<open>internal/multicluster/registry.go\<close>: the fixed local targets and the spoke targets by
  name, with \<^verbatim>\<open>StaticTargetSource\<close> of the adapter beside it.

  Every operation of the code holds the lock for its whole body, so it is one step of the
  state. The Go map of spokes is an association list without duplicate keys
  (\<^verbatim>\<open>registry_wf\<close>), whose order is the order of one iteration over the map. The locale
  \<^verbatim>\<open>spoke_map\<close> is the contract with the controller: the spokes are a finite map.
\<close>

record 't registry =
  reg_local :: "'t list"
  reg_spokes :: "(string \<times> 't) list"

definition new_registry :: "'a target_scheme list \<Rightarrow> 'a target_scheme list \<Rightarrow> 'a target_scheme registry" where
  "new_registry local spokes =
     \<lparr>reg_local = [] @ local,
      reg_spokes = foldl (\<lambda>m t. AList.update (target_name t) t m) [] spokes\<rparr>"

definition set_spoke ::
  "'a target_scheme \<Rightarrow> 'a target_scheme registry \<Rightarrow> 'a target_scheme registry \<times> bool" where
  "set_spoke t r =
     (let exists = (map_of (reg_spokes r) (target_name t) \<noteq> None)
      in (r\<lparr>reg_spokes := AList.update (target_name t) t (reg_spokes r)\<rparr>, \<not> exists))"

definition remove_spoke ::
  "string \<Rightarrow> 'a target_scheme registry \<Rightarrow> 'a target_scheme registry \<times> bool" where
  "remove_spoke name r =
     (let exists = (map_of (reg_spokes r) name \<noteq> None)
      in (r\<lparr>reg_spokes := AList.delete name (reg_spokes r)\<rparr>, exists))"

definition registry_targets :: "'a target_scheme registry \<Rightarrow> 'a target_scheme list" where
  "registry_targets r = [] @ reg_local r @ map snd (reg_spokes r)"

definition static_targets :: "'a target_scheme list \<Rightarrow> 'a target_scheme list" where
  "static_targets s = s"

section \<open>The contract with the controller\<close>

locale spoke_map =
  fixes fixed :: "'r \<Rightarrow> 't list" and spoke_of :: "'r \<Rightarrow> string \<Rightarrow> 't option" and inv :: "'r \<Rightarrow> bool"
    and name_of :: "'t \<Rightarrow> string" and put :: "'t \<Rightarrow> 'r \<Rightarrow> 'r \<times> bool"
    and drop_name :: "string \<Rightarrow> 'r \<Rightarrow> 'r \<times> bool" and snapshot :: "'r \<Rightarrow> 't list"
  assumes put_map: "inv r \<Longrightarrow> spoke_of (fst (put t r)) = (spoke_of r)(name_of t \<mapsto> t)"
    and put_new: "inv r \<Longrightarrow> snd (put t r) \<longleftrightarrow> spoke_of r (name_of t) = None"
    and put_inv: "inv r \<Longrightarrow> inv (fst (put t r)) \<and> fixed (fst (put t r)) = fixed r"
    and drop_map: "inv r \<Longrightarrow> spoke_of (fst (drop_name n r)) = (spoke_of r)(n := None)"
    and drop_known: "inv r \<Longrightarrow> snd (drop_name n r) \<longleftrightarrow> spoke_of r n \<noteq> None"
    and drop_inv: "inv r \<Longrightarrow> inv (fst (drop_name n r)) \<and> fixed (fst (drop_name n r)) = fixed r"
    and snapshot_set: "inv r \<Longrightarrow> set (snapshot r) = set (fixed r) \<union> ran (spoke_of r)"
    and snapshot_size: "inv r \<Longrightarrow> length (snapshot r) = length (fixed r) + card (dom (spoke_of r))"
    and named: "inv r \<Longrightarrow> spoke_of r n = Some t \<Longrightarrow> name_of t = n"
begin

text \<open>A change of the registry: a target that is set, or the name of one that is removed.\<close>

definition change :: "'r \<Rightarrow> 't + string \<Rightarrow> 'r" where
  "change r c = fst (case c of Inl t \<Rightarrow> put t r | Inr n \<Rightarrow> drop_name n r)"

definition change_map :: "(string \<Rightarrow> 't option) \<Rightarrow> 't + string \<Rightarrow> (string \<Rightarrow> 't option)" where
  "change_map m c = (case c of Inl t \<Rightarrow> m(name_of t \<mapsto> t) | Inr n \<Rightarrow> m(n := None))"

lemma change_refines:
  "inv r \<Longrightarrow> inv (change r c) \<and> fixed (change r c) = fixed r \<and>
     spoke_of (change r c) = change_map (spoke_of r) c"
  by (cases c) (simp_all add: change_def change_map_def put_map put_inv drop_map drop_inv)

lemma changes_refine:
  "inv r \<Longrightarrow> inv (foldl change r cs) \<and> fixed (foldl change r cs) = fixed r \<and>
     spoke_of (foldl change r cs) = foldl change_map (spoke_of r) cs"
proof (induction cs arbitrary: r)
  case (Cons c cs)
  from change_refines [OF Cons.prems, of c] Cons.IH [of "change r c"] show ?case by simp
qed simp

lemma snapshot_names:
  assumes "inv r" and "t \<in> set (snapshot r)" and "t \<notin> set (fixed r)"
  shows "spoke_of r (name_of t) = Some t"
  using assms named [OF assms(1)] by (auto simp: snapshot_set ran_def)

end

definition registry_wf :: "'a target_scheme registry \<Rightarrow> bool" where
  "registry_wf r \<longleftrightarrow> distinct (map fst (reg_spokes r)) \<and>
     list_all (\<lambda>(n, t). target_name t = n) (reg_spokes r)"

definition spoke_lookup :: "'a target_scheme registry \<Rightarrow> string \<Rightarrow> 'a target_scheme option" where
  "spoke_lookup r = map_of (reg_spokes r)"

lemma set_update_subset: "set (AList.update k v xs) \<subseteq> insert (k, v) (set xs)"
  by (induction xs) auto

lemma set_delete_subset: "set (AList.delete k xs) \<subseteq> set xs"
  by (auto simp: AList.delete_eq)

lemma registry_wf_update:
  "registry_wf (r\<lparr>reg_spokes := xs\<rparr>) \<Longrightarrow>
   registry_wf (r\<lparr>reg_spokes := AList.update (target_name t) t xs\<rparr>)"
  using set_update_subset [of "target_name t" t xs]
  by (auto simp: registry_wf_def distinct_update list_all_iff)

interpretation spokes: spoke_map reg_local spoke_lookup registry_wf target_name set_spoke remove_spoke
  registry_targets
proof unfold_locales
  fix r :: "'a target_scheme registry" and t :: "'a target_scheme" and n
  assume wf: "registry_wf r"
  then have d: "distinct (map fst (reg_spokes r))" by (simp add: registry_wf_def)
  show "spoke_lookup (fst (set_spoke t r)) = (spoke_lookup r)(target_name t \<mapsto> t)"
    by (simp add: set_spoke_def spoke_lookup_def update_conv' Let_def)
  show "snd (set_spoke t r) \<longleftrightarrow> spoke_lookup r (target_name t) = None"
    by (simp add: set_spoke_def spoke_lookup_def Let_def)
  show "registry_wf (fst (set_spoke t r)) \<and> reg_local (fst (set_spoke t r)) = reg_local r"
    using registry_wf_update [where r = r and xs = "reg_spokes r" and t = t] wf by (simp add: set_spoke_def Let_def)
  show "spoke_lookup (fst (remove_spoke n r)) = (spoke_lookup r)(n := None)"
    by (simp add: remove_spoke_def spoke_lookup_def delete_conv' Let_def)
  show "snd (remove_spoke n r) \<longleftrightarrow> spoke_lookup r n \<noteq> None"
    by (simp add: remove_spoke_def spoke_lookup_def Let_def)
  show "registry_wf (fst (remove_spoke n r)) \<and> reg_local (fst (remove_spoke n r)) = reg_local r"
    using wf set_delete_subset [of n "reg_spokes r"]
    by (auto simp: remove_spoke_def registry_wf_def distinct_delete list_all_iff Let_def)
  show "set (registry_targets r) = set (reg_local r) \<union> ran (spoke_lookup r)"
    using d by (auto simp: registry_targets_def spoke_lookup_def ran_distinct)
  show "length (registry_targets r) = length (reg_local r) + card (dom (spoke_lookup r))"
    using d distinct_card [OF d] by (simp add: registry_targets_def spoke_lookup_def dom_map_of_conv_image_fst)
next
  fix r :: "'a target_scheme registry" and t :: "'a target_scheme" and n
  assume "registry_wf r" "spoke_lookup r n = Some t"
  then show "target_name t = n"
    by (auto simp: registry_wf_def spoke_lookup_def list_all_iff dest: map_of_SomeD)
qed

text \<open>The last target of a name wins.\<close>

lemma spoke_lookup_new:
  "spoke_lookup (new_registry local spokes) = map_of (rev (map (\<lambda>t. (target_name t, t)) spokes))"
proof -
  have "map_of (foldl (\<lambda>m t. AList.update (target_name t) t m) m ts) =
      map_of (rev (map (\<lambda>t. (target_name t, t)) ts) @ m)"
    for m :: "(string \<times> 'a target_scheme) list" and ts
    by (induction ts arbitrary: m) (auto simp: update_conv' map_add_def fun_eq_iff split: option.split)
  from this [of "[]" spokes] show ?thesis by (simp add: spoke_lookup_def new_registry_def)
qed

lemma registry_wf_new: "registry_wf (new_registry local spokes)"
proof -
  have "registry_wf \<lparr>reg_local = [] @ local, reg_spokes = m\<rparr> \<Longrightarrow>
    registry_wf \<lparr>reg_local = [] @ local, reg_spokes = foldl (\<lambda>m t. AList.update (target_name t) t m) m ts\<rparr>"
    for m :: "(string \<times> 'a target_scheme) list" and ts
  proof (induction ts arbitrary: m)
    case (Cons t ts)
    have "registry_wf \<lparr>reg_local = [] @ local, reg_spokes = AList.update (target_name t) t m\<rparr>"
      using registry_wf_update [where r = "\<lparr>reg_local = [] @ local, reg_spokes = []\<rparr>" and xs = m and t = t] Cons.prems by simp
    from Cons.IH [OF this] show ?case by simp
  qed simp
  then show ?thesis by (simp add: new_registry_def registry_wf_def)
qed

text \<open>
  C20. Under every sequence of changes the registry behaves as the fixed local targets
  with a finite map from names to spoke targets: a snapshot contains exactly these
  targets, each spoke once.
\<close>

theorem registry_refines_map:
  assumes "registry_wf r"
  shows "registry_wf (foldl spokes.change r cs) \<and>
    set (registry_targets (foldl spokes.change r cs)) =
      set (reg_local r) \<union> ran (foldl spokes.change_map (spoke_lookup r) cs) \<and>
    length (registry_targets (foldl spokes.change r cs)) =
      length (reg_local r) + card (dom (foldl spokes.change_map (spoke_lookup r) cs))"
  using spokes.changes_refine [OF assms, of cs]
    spokes.snapshot_set [of "foldl spokes.change r cs"] spokes.snapshot_size [of "foldl spokes.change r cs"]
  by simp

theorem registry_refines_map_witness:
  "length (registry_targets (foldl spokes.change (new_registry [] [])
     [Inl \<lparr>target_name = ''a'', target_id = ''spoke-a'', target_namespace = ''n''\<rparr>, Inr ''a'',
      Inl \<lparr>target_name = ''b'', target_id = ''spoke-b'', target_namespace = ''n''\<rparr>])) = 1"
  using registry_refines_map [OF registry_wf_new, of "[]" "[]"
      "[Inl \<lparr>target_name = ''a'', target_id = ''spoke-a'', target_namespace = ''n''\<rparr>, Inr ''a'',
      Inl \<lparr>target_name = ''b'', target_id = ''spoke-b'', target_namespace = ''n''\<rparr>]"]
  by (simp add: spokes.change_map_def new_registry_def spoke_lookup_def)

end
