(* ===== verification/Run_Client.thy ===== *)
theory Run_Client
  imports Run_Names
begin

text \<open>
  \<^verbatim>\<open>internal/agenticrun/client.go\<close>: the identity of a spoke target and the client that
  lists and creates the runs of one target.

  The Kubernetes client is not part of the repository: it is a record of two operations on
  a state \<^verbatim>\<open>'w\<close> of the outside world (\<^verbatim>\<open>k8s_list\<close> in a namespace with matching labels and
  \<^verbatim>\<open>k8s_create\<close>). Creating writes the answer of the server back into the object it was
  given, so the object is part of the result. \<^verbatim>\<open>Labels\<close> of an object that has none is a
  nil map, which reads and ranges as the empty one.
\<close>

section \<open>The identity of a spoke target\<close>

definition label_spoke_cluster :: string where
  "label_spoke_cluster = ''hub.openshift.io/spoke-cluster''"
definition spoke_target_prefix :: string where "spoke_target_prefix = ''spoke-''"
definition target_hash_len :: nat where "target_hash_len = 12"
definition target_id_max_len :: nat where "target_id_max_len = 63"

definition target_suffix :: "string \<Rightarrow> string" where
  "target_suffix name = take target_hash_len (hex_encode (sha256 (str_bytes name)))"

definition spoke_target_id :: "string \<Rightarrow> string" where
  "spoke_target_id name =
     (if length spoke_target_prefix + length name \<le> target_id_max_len then spoke_target_prefix @ name
      else let suffix = target_suffix name;
               name_max_len = target_id_max_len - length spoke_target_prefix - length suffix - 1
           in spoke_target_prefix @ take name_max_len name @ ''-'' @ suffix)"

section \<open>The client\<close>

record 'w k8s_client =
  k8s_list :: "'w \<Rightarrow> string \<Rightarrow> gomap \<Rightarrow> 'w \<times> (api_error + agentic_run list)"
  k8s_create :: "'w \<Rightarrow> agentic_run \<Rightarrow> 'w \<times> agentic_run \<times> api_error option"

record run_client =
  rc_namespace :: string
  rc_target :: string

definition new_client :: "string \<Rightarrow> string \<Rightarrow> run_client" where
  "new_client namespace target = \<lparr>rc_namespace = namespace, rc_target = target\<rparr>"

definition list_labels :: "run_client \<Rightarrow> gomap" where
  "list_labels c =
     (let labels = [(label_source, source_value)]
      in if rc_target c \<noteq> '''' then gomap_put labels label_spoke_cluster (rc_target c) else labels)"

definition unscoped :: "agentic_run \<Rightarrow> bool" where
  "unscoped r \<longleftrightarrow> gomap_lookup (run_labels r) label_spoke_cluster = None"

definition list_agentic_runs ::
  "'w k8s_client \<Rightarrow> run_client \<Rightarrow> 'w \<Rightarrow> 'w \<times> (go_error + agentic_run list)" where
  "list_agentic_runs k c w =
     (case k8s_list k w (rc_namespace c) (list_labels c) of
        (w, Inl e) \<Rightarrow> (w, Inl (ListingRuns e))
      | (w, Inr items) \<Rightarrow>
          if rc_target c = '''' then (w, Inr (filter unscoped items)) else (w, Inr items))"

definition scope_run :: "run_client \<Rightarrow> agentic_run \<Rightarrow> agentic_run" where
  "scope_run c p =
     (if rc_target c \<noteq> ''''
      then p\<lparr>run_labels := gomap_put (run_labels p) label_spoke_cluster (rc_target c)\<rparr>
      else p)"

definition create_agentic_run ::
  "'w k8s_client \<Rightarrow> run_client \<Rightarrow> 'w \<Rightarrow> agentic_run \<Rightarrow> 'w \<times> agentic_run \<times> (go_error + bool)" where
  "create_agentic_run k c w p =
     (let p = scope_run c p in
      case k8s_create k w p of
        (w, p', None) \<Rightarrow> (w, p', Inr True)
      | (w, p', Some e) \<Rightarrow>
          if e = AlreadyExists then (w, p', Inr False)
          else (w, p', Inl (CreatingRun (run_namespace p') (run_name p') e)))"

section \<open>The digest of a long name\<close>

interpretation target_hash: hex_digest target_suffix target_hash_len
  by unfold_locales
    (auto simp: target_suffix_def target_hash_len_def length_sha256
       intro!: list_all_hex_take hex_encode_hex sha256_bytes)

lemma length_target_suffix [simp]: "length (target_suffix n) = 12"
  using target_hash.digest_length by (simp add: target_hash_len_def)

section \<open>Properties of the identity\<close>

lemmas spoke_defs = spoke_target_prefix_def target_hash_len_def target_id_max_len_def

lemma spoke_target_id_short:
  "length name \<le> 57 \<Longrightarrow> spoke_target_id name = ''spoke-'' @ name"
  by (simp add: spoke_target_id_def spoke_defs)

lemma spoke_target_id_long:
  "57 < length name \<Longrightarrow> spoke_target_id name = ''spoke-'' @ take 44 name @ ''-'' @ target_suffix name"
  by (simp add: spoke_target_id_def spoke_defs Let_def)

lemma k8s_label_value_spoke:
  assumes "list_all (\<lambda>c. valid_label_rune (char_code c)) name" and "is_alnum (char_code (last name))"
    and "name \<noteq> ''''"
  shows "k8s_label_value (spoke_target_id name)"
proof (cases "length name \<le> 57")
  case True
  with assms show ?thesis
    by (auto simp: spoke_target_id_short k8s_label_value_def valid_label_rune_def is_alnum_def
        is_lower_alnum_def)
next
  case False
  have s: "list_all (\<lambda>c. is_lower_alnum (char_code c)) (target_suffix name)" "target_suffix name \<noteq> []"
    using target_hash.digest_dns target_hash.digest_nonempty by (auto simp: target_hash_len_def)
  then have "is_lower_alnum (char_code (last (target_suffix name)))" by (auto simp: list_all_iff)
  moreover have "list_all (\<lambda>c. valid_label_rune (char_code c)) (target_suffix name)"
    using s by (auto simp: list_all_iff valid_label_rune_def is_alnum_def)
  moreover have "list_all (\<lambda>c. valid_label_rune (char_code c)) (take 44 name)"
    using assms(1) by (rule list_all_take)
  ultimately show ?thesis using False s(2)
    by (simp add: spoke_target_id_long k8s_label_value_def)
      (simp add: valid_label_rune_def is_alnum_def is_lower_alnum_def)
qed

text \<open>
  C29. The identity of a spoke whose name is made of label characters and ends in a letter
  or digit is a valid label value of at most 63 bytes whatever the length of the name, is
  not empty and is never the identity local of the hub.
\<close>

theorem spoke_target_id_label:
  assumes "list_all (\<lambda>c. valid_label_rune (char_code c)) name" and "name \<noteq> ''''"
    and "is_alnum (char_code (last name))"
  shows "k8s_label_value (spoke_target_id name) \<and> spoke_target_id name \<noteq> '''' \<and>
    spoke_target_id name \<noteq> ''local''"
proof -
  have "take 6 (spoke_target_id name) = ''spoke-''"
    by (cases "length name \<le> 57") (simp_all add: spoke_target_id_short spoke_target_id_long)
  then show ?thesis using k8s_label_value_spoke [OF assms(1,3,2)] by auto
qed

theorem spoke_target_id_label_witness:
  "k8s_label_value (spoke_target_id (replicate 253 (CHR ''a'')))"
proof -
  have "list_all (\<lambda>c. valid_label_rune (char_code c)) (replicate n (CHR ''a''))" for n
    by (simp add: list_all_iff valid_label_rune_def is_alnum_def is_lower_alnum_def)
  then show ?thesis
    using spoke_target_id_label [of "replicate 253 (CHR ''a'')"]
    by (simp add: is_alnum_def is_lower_alnum_def)
qed

text \<open>
  C30. Two different spoke names share an identity only if one of them is longer than 57
  bytes, and then either both agree on 44 bytes and on the 12 digits of their hash or the
  other has exactly 57 bytes.
\<close>

theorem spoke_target_id_inj:
  assumes "spoke_target_id n = spoke_target_id m" and "n \<noteq> m"
  shows "57 < max (length n) (length m) \<and>
    (if 57 < min (length n) (length m) then take 44 n = take 44 m \<and> target_suffix n = target_suffix m
     else 57 = min (length n) (length m))"
proof -
  have short: "length x \<le> 57 \<Longrightarrow> length (spoke_target_id x) = 6 + length x"
    and long: "57 < length x \<Longrightarrow> length (spoke_target_id x) = 63" for x
    by (simp_all add: spoke_target_id_short spoke_target_id_long)
  consider "length n \<le> 57" "length m \<le> 57" | "length n \<le> 57" "57 < length m"
    | "57 < length n" "length m \<le> 57" | "57 < length n" "57 < length m" by linarith
  then show ?thesis
  proof cases
    case 1
    with assms show ?thesis by (simp add: spoke_target_id_short)
  next
    case 2
    with short [of n] long [of m] assms(1) show ?thesis by simp
  next
    case 3
    with short [of m] long [of n] assms(1) show ?thesis by simp
  next
    case 4
    have "take 44 n @ (''-'' @ target_suffix n) = take 44 m @ (''-'' @ target_suffix m)"
      using assms(1) 4 by (simp add: spoke_target_id_long)
    moreover have "length (take 44 n) = length (take 44 m)" using 4 by simp
    ultimately have "take 44 n = take 44 m \<and> ''-'' @ target_suffix n = ''-'' @ target_suffix m"
      by (metis append_eq_append_conv)
    with 4 show ?thesis by simp
  qed
qed

text \<open>A long name has a short twin: the shortened name itself, without the prefix.\<close>

definition short_twin :: "string \<Rightarrow> string" where
  "short_twin n = take 44 n @ ''-'' @ target_suffix n"

lemma short_twin:
  assumes "57 < length n"
  shows "length (short_twin n) = 57" and "short_twin n \<noteq> n"
    and "spoke_target_id (short_twin n) = spoke_target_id n"
proof -
  show l: "length (short_twin n) = 57" using assms by (simp add: short_twin_def)
  then show "short_twin n \<noteq> n" using assms by (metis less_irrefl)
  show "spoke_target_id (short_twin n) = spoke_target_id n"
    using l assms spoke_target_id_short [of "short_twin n"]
    by (simp add: spoke_target_id_long short_twin_def)
qed

theorem spoke_target_id_inj_witness:
  "take 44 (replicate 58 (CHR ''a'')) \<noteq> short_twin (replicate 58 (CHR ''a'')) \<and>
   57 = min (length (short_twin (replicate 58 (CHR ''a'')))) (length (replicate 58 (CHR ''a'')))"
  using spoke_target_id_inj [of "short_twin (replicate 58 (CHR ''a''))" "replicate 58 (CHR ''a'')"]
    short_twin [of "replicate 58 (CHR ''a'')"]
  by (auto simp: short_twin_def)

text \<open>
  C31. The identities are not unique: every name longer than 57 bytes has a twin of 57
  bytes, made of the same kind of characters, with the same identity.
\<close>

theorem spoke_target_id_collision:
  assumes "57 < length n" and "list_all (\<lambda>c. valid_dns_rune (char_code c)) n"
  shows "\<exists>m. m \<noteq> n \<and> length m = 57 \<and> list_all (\<lambda>c. valid_dns_rune (char_code c)) m \<and>
    spoke_target_id m = spoke_target_id n"
proof (intro exI [of _ "short_twin n"] conjI)
  have "list_all (\<lambda>c. valid_dns_rune (char_code c)) (target_suffix n)"
    using target_hash.digest_dns [of n] by (auto simp: list_all_iff valid_dns_rune_def)
  then show "list_all (\<lambda>c. valid_dns_rune (char_code c)) (short_twin n)"
    using list_all_take [OF assms(2)] by (simp add: short_twin_def)
qed (use short_twin [OF assms(1)] in auto)

theorem spoke_target_id_collision_witness:
  "\<exists>m. m \<noteq> replicate 60 (CHR ''a'') \<and> spoke_target_id m = spoke_target_id (replicate 60 (CHR ''a''))"
  using spoke_target_id_collision [of "replicate 60 (CHR ''a'')"]
  by (auto simp: list_all_iff valid_dns_rune_def is_lower_alnum_def)

end
