(* ===== verification/Alertmanager_Client.thy ===== *)
theory Alertmanager_Client
  imports Api_Types
begin

text \<open>
  \<^verbatim>\<open>internal/alertmanager/client.go\<close>: the client of an Alertmanager.

  Outside the repository, and arguments here: \<^verbatim>\<open>url.Parse\<close> (an error, or scheme and
  host), \<^verbatim>\<open>os.ReadFile\<close>, \<^verbatim>\<open>AppendCertsFromPEM\<close> (whether a certificate was found) and the
  query of the generated API client. The transport a client holds is the scheme, the host
  and the PEM data its root certificates come from (\<^verbatim>\<open>None\<close> is the pool of the system).
  \<^verbatim>\<open>trim_space\<close> is \<^verbatim>\<open>strings.TrimSpace\<close>.
\<close>

section \<open>Trimming\<close>

definition is_space :: "rune \<Rightarrow> bool" where
  "is_space r \<longleftrightarrow> r \<in> {9, 10, 11, 12, 13, 32, 0x85, 0xA0, 0x1680, 0x2028, 0x2029, 0x202F, 0x205F, 0x3000} \<or>
     0x2000 \<le> r \<and> r \<le> 0x200A"

definition trim_runes :: "(rune \<times> string) list \<Rightarrow> (rune \<times> string) list" where
  "trim_runes rs = rev (dropWhile (is_space \<circ> fst) (rev (dropWhile (is_space \<circ> fst) rs)))"

definition trim_space :: "string \<Rightarrow> string" where
  "trim_space s = concat (map snd (trim_runes (runes s)))"

section \<open>Settings\<close>

definition default_url :: string where
  "default_url = ''https://alertmanager-main.openshift-monitoring.svc:9094''"
definition default_token_path :: string where
  "default_token_path = ''/var/run/secrets/kubernetes.io/serviceaccount/token''"
definition default_ca_path :: string where
  "default_ca_path = ''/var/run/secrets/kubernetes.io/serviceaccount/service-ca.crt''"

record am_config =
  am_url :: string
  am_ca_bundle :: string
  am_ca_source :: string
  am_token :: string
  am_token_path :: string
  am_ca_path :: string

definition set_defaults :: "am_config \<Rightarrow> am_config" where
  "set_defaults c =
     (let c = (if am_url c = '''' then c\<lparr>am_url := default_url\<rparr> else c)
      in if am_token c = '''' then
           let c = (if am_token_path c = '''' then c\<lparr>am_token_path := default_token_path\<rparr> else c)
           in (if am_ca_path c = '''' then c\<lparr>am_ca_path := default_ca_path\<rparr> else c)
         else c)"

section \<open>The client\<close>

record am_client =
  cl_scheme :: string
  cl_host :: string
  cl_roots :: "string option"
  cl_token :: string
  cl_token_path :: string

record am_world =
  url_parse :: "string \<Rightarrow> string + string \<times> string"
  read_file :: "string \<Rightarrow> string + string"
  certs_ok :: "string \<Rightarrow> bool"

text \<open>The pool of root certificates of the transport.\<close>

definition new_roots :: "am_world \<Rightarrow> am_config \<Rightarrow> go_error + string option" where
  "new_roots os c =
     (if 0 < length (am_ca_bundle c) then
        if \<not> certs_ok os (am_ca_bundle c) then Inl (NoCertificates (am_ca_source c))
        else Inr (Some (am_ca_bundle c))
      else if am_ca_path c \<noteq> '''' then
        case read_file os (am_ca_path c) of
          Inl e \<Rightarrow> Inl (ReadingCa (am_ca_path c) e)
        | Inr pem \<Rightarrow>
            if \<not> certs_ok os pem then Inl (NoCertificates (am_ca_path c)) else Inr (Some pem)
      else Inr None)"

definition am_new :: "am_world \<Rightarrow> am_config \<Rightarrow> go_error + am_client" where
  "am_new os cfg =
     (let c = set_defaults cfg in
      case url_parse os (am_url c) of
        Inl e \<Rightarrow> Inl (ParsingUrl e)
      | Inr (scheme, host) \<Rightarrow>
          if scheme = '''' \<or> host = '''' then Inl (InvalidUrl (am_url c))
          else if scheme \<noteq> ''https'' then Inl SchemeNotHttps
          else case new_roots os c of
              Inl e \<Rightarrow> Inl e
            | Inr roots \<Rightarrow>
                Inr \<lparr>cl_scheme = scheme, cl_host = host, cl_roots = roots,
                     cl_token = am_token c, cl_token_path = am_token_path c\<rparr>)"

record am_query =
  q_bearer :: string
  q_active :: bool
  q_silenced :: bool
  q_inhibited :: bool

definition get_alerts ::
  "('w \<Rightarrow> string \<Rightarrow> 'w \<times> (string + string)) \<Rightarrow> ('w \<Rightarrow> am_query \<Rightarrow> 'w \<times> (string + alert option list))
   \<Rightarrow> am_client \<Rightarrow> 'w \<Rightarrow> 'w \<times> (go_error + alert option list)" where
  "get_alerts read query c w =
     (let (w, token) = (if cl_token c = '''' then
                          (case read w (cl_token_path c) of
                             (w, Inl e) \<Rightarrow> (w, Inl (ReadingToken (cl_token_path c) e))
                           | (w, Inr value) \<Rightarrow> (w, Inr value))
                        else (w, Inr (cl_token c)))
      in case token of
           Inl e \<Rightarrow> (w, Inl e)
         | Inr token \<Rightarrow>
             (case query w \<lparr>q_bearer = trim_space token, q_active = True, q_silenced = False,
                q_inhibited = False\<rparr> of
                (w, Inl e) \<Rightarrow> (w, Inl (QueryingAlerts e))
              | (w, Inr alerts) \<Rightarrow> (w, Inr alerts)))"

section \<open>Properties\<close>

lemma set_defaults_idem: "set_defaults (set_defaults c) = set_defaults c"
  by (simp add: set_defaults_def Let_def default_url_def default_token_path_def default_ca_path_def)

text \<open>
  C24. A client of an Alertmanager is only created for an https URL with a host; its root
  certificates are those of the bundle or else of the CA file and contain a valid
  certificate, the system roots being used only for a client with a token and neither
  source; it always has a token or the path of one.
\<close>

theorem am_new_secure:
  assumes "am_new os cfg = Inr c"
  shows "cl_scheme c = ''https'' \<and> cl_host c \<noteq> '''' \<and>
    (case cl_roots c of
       None \<Rightarrow> am_token cfg \<noteq> '''' \<and> am_ca_bundle cfg = '''' \<and> am_ca_path cfg = ''''
     | Some pem \<Rightarrow> certs_ok os pem \<and> (if am_ca_bundle cfg \<noteq> '''' then pem = am_ca_bundle cfg
         else read_file os (am_ca_path (set_defaults cfg)) = Inr pem)) \<and>
    (cl_token c \<noteq> '''' \<or> cl_token_path c \<noteq> '''')"
proof -
  let ?c = "set_defaults cfg"
  have b: "am_ca_bundle ?c = am_ca_bundle cfg" "am_token ?c = am_token cfg"
    by (simp_all add: set_defaults_def Let_def)
  have p: "am_ca_path ?c = '''' \<longleftrightarrow> am_token cfg \<noteq> '''' \<and> am_ca_path cfg = ''''"
    by (simp add: set_defaults_def Let_def default_ca_path_def)
  have t: "am_token cfg \<noteq> '''' \<or> am_token_path ?c \<noteq> ''''"
    by (simp add: set_defaults_def Let_def default_token_path_def)
  obtain host roots where u: "url_parse os (am_url ?c) = Inr (''https'', host)" "host \<noteq> ''''"
    "new_roots os ?c = Inr roots"
    "c = \<lparr>cl_scheme = ''https'', cl_host = host, cl_roots = roots, cl_token = am_token ?c,
       cl_token_path = am_token_path ?c\<rparr>"
    using assms by (auto simp: am_new_def Let_def split: sum.splits if_splits)
  then show ?thesis using b p t
    by (auto simp: new_roots_def split: if_splits sum.splits)
qed

definition sample_os :: am_world where
  "sample_os = \<lparr>url_parse = (\<lambda>_. Inr (''https'', ''am:9094'')), read_file = (\<lambda>_. Inr ''PEM''),
     certs_ok = (\<lambda>s. s = ''PEM'')\<rparr>"

definition no_am_config :: am_config where
  "no_am_config = \<lparr>am_url = '''', am_ca_bundle = '''', am_ca_source = '''', am_token = '''',
     am_token_path = '''', am_ca_path = ''''\<rparr>"

theorem am_new_secure_witness:
  "\<exists>c. am_new sample_os no_am_config = Inr c \<and> cl_scheme c = ''https'' \<and> cl_roots c = Some ''PEM''"
proof -
  obtain c where c: "am_new sample_os no_am_config = Inr c" "cl_roots c = Some ''PEM''"
    by (simp add: am_new_def sample_os_def no_am_config_def set_defaults_def Let_def new_roots_def
        default_ca_path_def)
  with am_new_secure [OF c(1)] show ?thesis by simp
qed

text \<open>White space and printable characters, in ASCII.\<close>

definition ascii_space :: "char \<Rightarrow> bool" where
  "ascii_space c \<longleftrightarrow> char_code c < 128 \<and> is_space (char_code c)"

definition ascii_word :: "char \<Rightarrow> bool" where
  "ascii_word c \<longleftrightarrow> char_code c < 128 \<and> \<not> is_space (char_code c)"

lemma runes_ascii_string:
  "list_all (\<lambda>c. char_code c < 128) s \<Longrightarrow> runes s = map (\<lambda>c. (char_code c, [c])) s"
  by (induction s) auto

lemma trim_space_word:
  assumes "list_all ascii_space u" and "list_all ascii_word t" and "list_all ascii_space v"
  shows "trim_space (u @ t @ v) = t"
proof -
  let ?P = "is_space \<circ> fst" and ?f = "\<lambda>c. (char_code c, [c])"
  have "list_all (\<lambda>c. char_code c < 128) (u @ t @ v)"
    using assms by (auto simp: list_all_iff ascii_space_def ascii_word_def)
  then have r: "runes (u @ t @ v) = map ?f u @ map ?f t @ map ?f v"
    by (simp add: runes_ascii_string)
  have u: "\<forall>x\<in>set (map ?f u). ?P x" and v: "\<forall>x\<in>set (rev (map ?f v)). ?P x"
    and t: "\<forall>x\<in>set (map ?f t). \<not> ?P x"
    using assms by (auto simp: list_all_iff ascii_space_def ascii_word_def)
  have dt: "dropWhile ?P (xs @ ys) = xs @ ys" if "\<forall>x\<in>set xs. \<not> ?P x" "xs \<noteq> []" for xs ys
    using that by (cases xs) auto
  have "trim_runes (runes (u @ t @ v)) = map ?f t"
  proof (cases "t = []")
    case True
    have d: "dropWhile ?P (map ?f u @ map ?f v) = []"
      using u v by (simp only: dropWhile_eq_Nil_conv) auto
    have "trim_runes (runes (u @ t @ v)) = trim_runes (map ?f u @ map ?f v)" using r True by simp
    then show ?thesis
      by (simp only: trim_runes_def d True list.map rev.simps dropWhile.simps)
  next
    case False
    have "dropWhile ?P (runes (u @ t @ v)) = map ?f t @ map ?f v"
      unfolding r using u False dt [OF t, of "map ?f v"] by (simp add: dropWhile_append)
    moreover have "dropWhile ?P (rev (map ?f v) @ rev (map ?f t)) = rev (map ?f t)"
      using v False dt [of "rev (map ?f t)" "[]"] t by (simp add: dropWhile_append)
    ultimately show ?thesis by (simp add: trim_runes_def rev_map)
  qed
  then have "trim_space (u @ t @ v) = concat (map snd (map ?f t))" by (simp add: trim_space_def)
  also have "\<dots> = t" by (induction t) simp_all
  finally show ?thesis .
qed

text \<open>
  C40. Without a token of its own a client reads the token file on every query, sends its
  content without the surrounding white space as the bearer token, and asks for active
  alerts that are neither silenced nor inhibited.
\<close>

theorem get_alerts_file_token:
  assumes "cl_token c = ''''" and "read w (cl_token_path c) = (w', Inr (u @ t @ v))"
    and "list_all ascii_space u" and "list_all ascii_word t" and "list_all ascii_space v"
  shows "get_alerts read query c w =
    (case query w' \<lparr>q_bearer = t, q_active = True, q_silenced = False, q_inhibited = False\<rparr> of
       (w'', Inl e) \<Rightarrow> (w'', Inl (QueryingAlerts e))
     | (w'', Inr alerts) \<Rightarrow> (w'', Inr alerts))"
  using assms(1,2) by (simp add: get_alerts_def trim_space_word [OF assms(3-5)])

theorem get_alerts_file_token_witness:
  "get_alerts (\<lambda>w p. (w, Inr (''tok'' @ [CHR 0x0A]))) (\<lambda>w q. (q_bearer q, Inr []))
     \<lparr>cl_scheme = ''https'', cl_host = ''h'', cl_roots = None, cl_token = '''', cl_token_path = ''f''\<rparr> '''' =
   (''tok'', Inr [])"
  using get_alerts_file_token [where u = "''''" and t = "''tok''" and v = "[CHR 0x0A]"
      and read = "\<lambda>w p. (w, Inr (''tok'' @ [CHR 0x0A]))" and query = "\<lambda>w q. (q_bearer q, Inr [])"
      and w = "''''" and w' = "''''" and c = "\<lparr>cl_scheme = ''https'', cl_host = ''h'', cl_roots = None,
        cl_token = '''', cl_token_path = ''f''\<rparr>"]
  by (simp add: ascii_space_def ascii_word_def is_space_def)

end
