(* ===== verification/Spoke_Target.thy ===== *)
theory Spoke_Target
  imports Registry Run_Client Alertmanager_Client
begin

text \<open>
  \<^verbatim>\<open>internal/multicluster/target.go\<close> and \<^verbatim>\<open>controller.go\<close>: building the target of a spoke
  cluster from its credential Secret, and the controller that keeps the registry in step
  with the \<^verbatim>\<open>SpokeCluster\<close> objects.

  The two Kubernetes readers are arguments: reading a Secret answers its data as a map
  from keys to bytes (a missing key reads as no bytes), reading a \<^verbatim>\<open>SpokeCluster\<close> answers
  its name and labels. A target of the program is the record \<^verbatim>\<open>target\<close> of the adapter with
  its two clients.
\<close>

section \<open>Building a target\<close>

definition credential_secret_label :: string where
  "credential_secret_label = ''hub.openshift.io/alert-credential-secret''"
definition alertmanager_url_key :: string where "alertmanager_url_key = ''alertmanager-url''"
definition token_key :: string where "token_key = ''token''"
definition ca_bundle_key :: string where "ca_bundle_key = ''ca-bundle''"

record spoke_cluster =
  spoke_name :: string
  spoke_labels :: gomap

record cluster_target = target +
  tgt_alerts :: am_client
  tgt_runs :: run_client

datatype spoke_log =
    SecretFailed api_error
  | MissingKey string
  | ClientFailed go_error
  | SpokeRemoved string string
  | SpokeDiscovered string

definition ca_source :: "string \<Rightarrow> string \<Rightarrow> string" where
  "ca_source namespace secret =
     ''Secret '' @ namespace @ ''/'' @ secret @ '' data '' @ [CHR 0x22] @ ca_bundle_key @ [CHR 0x22]"

definition build_target ::
  "('w \<Rightarrow> string \<Rightarrow> string \<Rightarrow> 'w \<times> (api_error + gomap)) \<Rightarrow> am_world \<Rightarrow> string \<Rightarrow> spoke_cluster \<Rightarrow> 'w
   \<Rightarrow> 'w \<times> cluster_target option \<times> spoke_log list" where
  "build_target get_secret os namespace spoke w =
     (let secret_name = gomap_get (spoke_labels spoke) credential_secret_label in
      if secret_name = '''' then (w, None, [])
      else
        let id = spoke_target_id (spoke_name spoke) in
        case get_secret w namespace secret_name of
          (w, Inl err) \<Rightarrow> (w, None, [SecretFailed err])
        | (w, Inr data) \<Rightarrow>
            let url = gomap_get data alertmanager_url_key;
                token = gomap_get data token_key;
                ca_bundle = gomap_get data ca_bundle_key
            in if url = '''' then (w, None, [MissingKey alertmanager_url_key])
               else if token = '''' then (w, None, [MissingKey token_key])
               else if length ca_bundle = 0 then (w, None, [MissingKey ca_bundle_key])
               else case am_new os \<lparr>am_url = url, am_ca_bundle = ca_bundle,
                        am_ca_source = ca_source namespace secret_name, am_token = token,
                        am_token_path = '''', am_ca_path = ''''\<rparr> of
                   Inl err \<Rightarrow> (w, None, [ClientFailed err])
                 | Inr alerts \<Rightarrow>
                     (w, Some \<lparr>target_name = spoke_name spoke, target_id = id,
                               target_namespace = namespace, tgt_alerts = alerts,
                               tgt_runs = new_client namespace id\<rparr>, []))"

section \<open>The controller\<close>

text \<open>Removing a spoke, with the log record of the reason when it was known.\<close>

definition remove_logged ::
  "string \<Rightarrow> string \<Rightarrow> cluster_target registry \<Rightarrow> cluster_target registry \<times> spoke_log list" where
  "remove_logged name reason reg =
     (let (reg, removed) = remove_spoke name reg
      in (reg, if removed then [SpokeRemoved name reason] else []))"

definition reconcile_spoke ::
  "('w \<Rightarrow> string \<times> string \<Rightarrow> 'w \<times> (api_error + spoke_cluster))
   \<Rightarrow> ('w \<Rightarrow> string \<Rightarrow> string \<Rightarrow> 'w \<times> (api_error + gomap)) \<Rightarrow> am_world \<Rightarrow> string
   \<Rightarrow> string \<times> string \<Rightarrow> 'w \<Rightarrow> cluster_target registry
   \<Rightarrow> 'w \<times> cluster_target registry \<times> spoke_log list \<times> go_error option" where
  "reconcile_spoke get_spoke get_secret os namespace req w reg =
     (case get_spoke w req of
        (w, Inl err) \<Rightarrow>
          if err = NotFound then
            let (reg, logs) = remove_logged (snd req) ''SpokeCluster deleted'' reg in (w, reg, logs, None)
          else (w, reg, [], Some (GettingSpokeCluster (snd req) err))
      | (w, Inr spoke) \<Rightarrow>
          if gomap_get (spoke_labels spoke) credential_secret_label = '''' then
            let (reg, logs) = remove_logged (spoke_name spoke) ''credential label removed'' reg
            in (w, reg, logs, None)
          else
            case build_target get_secret os namespace spoke w of
              (w, None, logs1) \<Rightarrow>
                let (reg, logs) = remove_logged (spoke_name spoke) ''credentials unavailable'' reg
                in (w, reg, logs1 @ logs, None)
            | (w, Some target, logs1) \<Rightarrow>
                let (reg, added) = set_spoke target reg
                in (w, reg, logs1 @ (if added then [SpokeDiscovered (target_name target)] else []), None))"

section \<open>Properties\<close>

lemma build_target_Some:
  assumes "build_target get_secret os ns spoke w = (w', Some t, logs)"
  shows "target_name t = spoke_name spoke" and "target_id t = spoke_target_id (spoke_name spoke)"
    and "tgt_runs t = new_client ns (spoke_target_id (spoke_name spoke))"
    and "gomap_get (spoke_labels spoke) credential_secret_label \<noteq> ''''"
    and "\<exists>c. am_new os c = Inr (tgt_alerts t) \<and> am_token c \<noteq> '''' \<and> am_ca_bundle c \<noteq> ''''"
    and "target_namespace t = ns" and "logs = []"
  using assms
  by (auto simp: build_target_def Let_def split: if_splits prod.splits sum.splits)

text \<open>What was read from the Secret that the label names goes into the client.\<close>

lemma build_target_secret:
  assumes "build_target get_secret os ns spoke w = (w', Some t, logs)"
  obtains data where "get_secret w ns (gomap_get (spoke_labels spoke) credential_secret_label) = (w', Inr data)"
    and "gomap_get data alertmanager_url_key \<noteq> ''''" and "gomap_get data token_key \<noteq> ''''"
    and "gomap_get data ca_bundle_key \<noteq> ''''"
    and "am_new os \<lparr>am_url = gomap_get data alertmanager_url_key, am_ca_bundle = gomap_get data ca_bundle_key,
        am_ca_source = ca_source ns (gomap_get (spoke_labels spoke) credential_secret_label),
        am_token = gomap_get data token_key, am_token_path = '''', am_ca_path = ''''\<rparr> = Inr (tgt_alerts t)"
  using assms by (auto simp: build_target_def Let_def split: if_splits prod.splits sum.splits)

lemma am_new_bundle:
  assumes "am_new os c = Inr cl" and "am_url c \<noteq> ''''" and "am_token c \<noteq> ''''" and "am_ca_bundle c \<noteq> ''''"
  shows "cl_scheme cl = ''https'' \<and> cl_host cl \<noteq> '''' \<and>
    url_parse os (am_url c) = Inr (''https'', cl_host cl) \<and>
    cl_roots cl = Some (am_ca_bundle c) \<and> cl_token cl = am_token c \<and> certs_ok os (am_ca_bundle c)"
proof -
  have "set_defaults c = c" using assms(2,3) by (simp add: set_defaults_def Let_def)
  with assms show ?thesis
    by (auto simp: am_new_def new_roots_def Let_def split: sum.splits if_splits)
qed

text \<open>
  C21. A spoke target is only built with the identity computed from the name of its
  SpokeCluster, which is not empty and also scopes its run client, and with the contents
  of the Secret its label names in the namespace of the adapter: an https client of the
  host of alertmanager-url, with token as its bearer token, and ca-bundle, which holds a
  valid certificate, as its only roots; none of the three is empty.
\<close>

theorem build_target_secure:
  assumes "build_target get_secret os ns spoke w = (w', Some t, logs)"
  shows "target_name t = spoke_name spoke \<and> target_namespace t = ns \<and>
    target_id t = spoke_target_id (spoke_name spoke) \<and> target_id t \<noteq> '''' \<and>
    rc_target (tgt_runs t) = target_id t \<and> rc_namespace (tgt_runs t) = ns \<and>
    gomap_get (spoke_labels spoke) credential_secret_label \<noteq> '''' \<and>
    (\<exists>data. get_secret w ns (gomap_get (spoke_labels spoke) credential_secret_label) = (w', Inr data) \<and>
      url_parse os (gomap_get data ''alertmanager-url'') = Inr (''https'', cl_host (tgt_alerts t)) \<and>
      cl_scheme (tgt_alerts t) = ''https'' \<and> cl_host (tgt_alerts t) \<noteq> '''' \<and>
      cl_token (tgt_alerts t) = gomap_get data ''token'' \<and> cl_token (tgt_alerts t) \<noteq> '''' \<and>
      cl_roots (tgt_alerts t) = Some (gomap_get data ''ca-bundle'') \<and>
      gomap_get data ''ca-bundle'' \<noteq> '''' \<and> certs_ok os (gomap_get data ''ca-bundle''))"
proof -
  note b = build_target_Some [OF assms]
  note keys = alertmanager_url_key_def token_key_def ca_bundle_key_def
  have "spoke_target_id (spoke_name spoke) \<noteq> ''''"
    by (simp add: spoke_target_id_def spoke_target_prefix_def Let_def)
  moreover from assms obtain data where
    d: "get_secret w ns (gomap_get (spoke_labels spoke) credential_secret_label) = (w', Inr data)"
      "gomap_get data ''alertmanager-url'' \<noteq> ''''" "gomap_get data ''token'' \<noteq> ''''"
      "gomap_get data ''ca-bundle'' \<noteq> ''''"
      "am_new os \<lparr>am_url = gomap_get data ''alertmanager-url'', am_ca_bundle = gomap_get data ''ca-bundle'',
        am_ca_source = ca_source ns (gomap_get (spoke_labels spoke) credential_secret_label),
        am_token = gomap_get data ''token'', am_token_path = '''', am_ca_path = ''''\<rparr> = Inr (tgt_alerts t)"
    by (rule build_target_secret [unfolded keys])
  moreover note am_new_bundle [OF d(5)]
  ultimately show ?thesis using b d by (auto simp: new_client_def)
qed

definition sample_spoke :: spoke_cluster where
  "sample_spoke = \<lparr>spoke_name = ''east'', spoke_labels = [(credential_secret_label, ''cred'')]\<rparr>"

definition sample_secret :: "unit \<Rightarrow> string \<Rightarrow> string \<Rightarrow> unit \<times> (api_error + gomap)" where
  "sample_secret w ns n = (w, Inr [(alertmanager_url_key, ''https://am''), (token_key, ''t''),
     (ca_bundle_key, ''PEM'')])"

lemma sample_build:
  "\<exists>t. build_target sample_secret sample_os ''ns'' sample_spoke () = ((), Some t, [])"
  by (simp add: build_target_def sample_secret_def sample_spoke_def sample_os_def am_new_def new_roots_def
      set_defaults_def Let_def gomap_get_def alertmanager_url_key_def token_key_def ca_bundle_key_def)

theorem build_target_secure_witness:
  "\<exists>t. build_target sample_secret sample_os ''ns'' sample_spoke () = ((), Some t, []) \<and>
     rc_target (tgt_runs t) = ''spoke-east'' \<and> target_name t = ''east'' \<and>
     cl_token (tgt_alerts t) = ''t'' \<and> cl_roots (tgt_alerts t) = Some ''PEM''"
proof -
  obtain t where t: "build_target sample_secret sample_os ''ns'' sample_spoke () = ((), Some t, [])"
    using sample_build by blast
  have "spoke_target_id ''east'' = ''spoke-east''"
    by (simp add: spoke_target_id_def spoke_target_prefix_def target_id_max_len_def)
  with build_target_secure [OF t] t show ?thesis
    by (auto simp: sample_spoke_def sample_secret_def gomap_get_def alertmanager_url_key_def token_key_def
        ca_bundle_key_def)
qed

text \<open>The change one reconciliation makes: the target it found, or the name it removes.\<close>

definition spoke_change ::
  "('w \<Rightarrow> string \<times> string \<Rightarrow> 'w \<times> (api_error + spoke_cluster))
   \<Rightarrow> ('w \<Rightarrow> string \<Rightarrow> string \<Rightarrow> 'w \<times> (api_error + gomap)) \<Rightarrow> am_world \<Rightarrow> string
   \<Rightarrow> string \<times> string \<Rightarrow> 'w \<Rightarrow> go_error + cluster_target option" where
  "spoke_change get_spoke get_secret os namespace req w =
     (case get_spoke w req of
        (w, Inl err) \<Rightarrow> if err = NotFound then Inr None else Inl (GettingSpokeCluster (snd req) err)
      | (w, Inr spoke) \<Rightarrow> Inr (fst (snd (build_target get_secret os namespace spoke w))))"

lemma build_target_unlabelled:
  "gomap_get (spoke_labels spoke) credential_secret_label = '''' \<Longrightarrow>
   build_target get_secret os ns spoke w = (w, None, [])"
  by (simp add: build_target_def)

text \<open>
  C19. One reconciliation of a SpokeCluster updates the registry at the name of the
  request and nowhere else: to the target that was built, or to no target when the object
  is gone, unlabelled or its credentials cannot be used; when reading the object fails
  otherwise it returns that error and leaves the registry as it was.
\<close>

theorem reconcile_spoke_registry:
  assumes "registry_wf reg" and "\<And>w' spoke. get_spoke w req = (w', Inr spoke) \<Longrightarrow> spoke_name spoke = snd req"
  shows "case reconcile_spoke get_spoke get_secret os ns req w reg of (w', reg', logs, err) \<Rightarrow>
    registry_wf reg' \<and> reg_local reg' = reg_local reg \<and>
    (case spoke_change get_spoke get_secret os ns req w of
       Inl e \<Rightarrow> err = Some e \<and> reg' = reg
     | Inr found \<Rightarrow> err = None \<and> spoke_lookup reg' = (spoke_lookup reg)(snd req := found))"
proof -
  obtain w1 x where g: "get_spoke w req = (w1, x)" by fastforce
  have rm: "registry_wf (fst (remove_logged n why reg)) \<and>
      reg_local (fst (remove_logged n why reg)) = reg_local reg \<and>
      spoke_lookup (fst (remove_logged n why reg)) = (spoke_lookup reg)(n := None)" for n why
    using spokes.drop_inv [OF assms(1), of n] spokes.drop_map [OF assms(1), of n]
    by (cases "remove_spoke n reg") (simp add: remove_logged_def)
  show ?thesis
  proof (cases x)
    case (Inl e)
    with g rm [of "snd req" "''SpokeCluster deleted''"] assms(1) show ?thesis
      by (auto simp: reconcile_spoke_def spoke_change_def split: prod.split)
  next
    case (Inr spoke)
    with g assms(2) have n: "spoke_name spoke = snd req" by simp
    show ?thesis
    proof (cases "gomap_get (spoke_labels spoke) credential_secret_label = ''''")
      case True
      with g Inr n rm [of "snd req" "''credential label removed''"] show ?thesis
        by (auto simp: reconcile_spoke_def spoke_change_def build_target_unlabelled split: prod.split)
    next
      case False
      obtain w2 found logs where b: "build_target get_secret os ns spoke w1 = (w2, found, logs)"
        by (metis prod_cases3)
      show ?thesis
      proof (cases found)
        case None
        with g Inr n False b rm [of "snd req" "''credentials unavailable''"] show ?thesis
          by (auto simp: reconcile_spoke_def spoke_change_def split: prod.split)
      next
        case (Some t)
        note t = build_target_Some(1) [OF b [unfolded Some]]
        with g Inr n False b Some spokes.put_inv [OF assms(1), of t] spokes.put_map [OF assms(1), of t]
        show ?thesis
          by (auto simp: reconcile_spoke_def spoke_change_def split: prod.split)
      qed
    qed
  qed
qed

theorem reconcile_spoke_registry_witness:
  "\<exists>t. (case reconcile_spoke (\<lambda>w r. (w, Inr sample_spoke)) sample_secret sample_os ''ns'' ('''', ''east'') ()
      (new_registry [] []) of (w', reg', logs, err) \<Rightarrow> spoke_lookup reg' ''east'' = Some t)"
proof -
  obtain t where t: "build_target sample_secret sample_os ''ns'' sample_spoke () = ((), Some t, [])"
    using sample_build by blast
  have "spoke_name sample_spoke = snd ('''', ''east'')" by (simp add: sample_spoke_def)
  with reconcile_spoke_registry [OF registry_wf_new [of "[]" "[]"], where get_spoke = "\<lambda>w r. (w, Inr sample_spoke)"
      and req = "('''', ''east'')" and get_secret = sample_secret and os = sample_os and ns = "''ns''" and w = "()"] t
  show ?thesis by (auto simp: spoke_change_def split: prod.splits)
qed

end
