(* ===== verification/Ols_Config.thy ===== *)
theory Ols_Config
  imports Api_Types
begin

text \<open>
  \<^verbatim>\<open>internal/agenticolsconfig/client.go\<close>: whether the adapter is suspended. The get of the
  Kubernetes client is an argument; the object it returns is known by \<^verbatim>\<open>Spec.Suspended\<close>.
\<close>

definition config_name :: string where "config_name = ''cluster''"

definition suspended ::
  "('w \<Rightarrow> string \<Rightarrow> 'w \<times> (api_error + bool)) \<Rightarrow> 'w \<Rightarrow> 'w \<times> (go_error + bool)" where
  "suspended get w =
     (case get w config_name of
        (w, Inl err) \<Rightarrow>
          if err = NotFound \<or> err = NoMatch then (w, Inr False) else (w, Inl (GettingConfig err))
      | (w, Inr spec_suspended) \<Rightarrow> (w, Inr spec_suspended))"

end
