(* ===== verification/Adapter_Cycle.thy ===== *)
theory Adapter_Cycle
  imports Adapter Ols_Config "HOL-Library.Multiset"
begin

text \<open>
  \<^verbatim>\<open>internal/adapter/adapter.go\<close>, part two: the poll cycle over all targets and the loop
  around it.

  A cycle first asks whether the adapter is suspended (\<^verbatim>\<open>cycle_gate\<close>). The fan-out over the
  targets is a step relation: the spawning loop takes a token of the semaphore and starts a
  goroutine, or gives up when the context is cancelled (both may be possible, and
  \<^verbatim>\<open>select\<close> chooses freely); a goroutine that has run its body first returns its token and
  then leaves the wait group, as the order of its deferred calls demands; the cycle returns
  when the wait group is empty. A target that is \<^verbatim>\<open>running\<close> is one whose body has not ended.
\<close>

section \<open>The adapter\<close>

text \<open>
  The backoff table is a value of client-go; the adapter keeps the two durations it was made
  with, or none when the table is nil.
\<close>

record adapter =
  ad_cfg :: config
  ad_max_concurrent_targets :: int
  ad_creation_backoff :: "(duration \<times> duration) option"

definition new_with_max_concurrent_targets :: "config \<Rightarrow> int \<Rightarrow> adapter" where
  "new_with_max_concurrent_targets cfg n =
     \<lparr>ad_cfg = cfg, ad_max_concurrent_targets = n,
      ad_creation_backoff = Some (creation_backoff_initial, creation_backoff_max)\<rparr>"

definition backoff :: "adapter \<Rightarrow> duration \<times> duration" where
  "backoff a =
     (case ad_creation_backoff a of
        Some table \<Rightarrow> table
      | None \<Rightarrow> (creation_backoff_initial, creation_backoff_max))"

definition new_adapter :: "config \<Rightarrow> adapter" where
  "new_adapter cfg = new_with_max_concurrent_targets cfg 1"

datatype gate = GateFailed go_error | GateSuspended | GateOpen

definition cycle_gate :: "('w \<Rightarrow> 'w \<times> (go_error + bool)) \<Rightarrow> 'w \<Rightarrow> 'w \<times> gate" where
  "cycle_gate is_suspended w =
     (case is_suspended w of
        (w, Inl err) \<Rightarrow> (w, GateFailed err)
      | (w, Inr s) \<Rightarrow> if s then (w, GateSuspended) else (w, GateOpen))"

definition semaphore_size :: "adapter \<Rightarrow> nat" where
  "semaphore_size a =
     (let n = ad_max_concurrent_targets a in nat (if n < 1 then 1 else n))"

section \<open>The fan-out\<close>

datatype spawner = Spawning | Waiting | Returned

record 't cycle =
  cy_pending :: "'t list"
  cy_running :: "'t multiset"
  cy_leaving :: "'t multiset"
  cy_done :: "'t multiset"
  cy_spawner :: spawner
  cy_cancelled :: bool

definition cycle_init :: "'t list \<Rightarrow> 't cycle" where
  "cycle_init targets = \<lparr>cy_pending = targets, cy_running = {#}, cy_leaving = {#}, cy_done = {#},
     cy_spawner = Spawning, cy_cancelled = False\<rparr>"

inductive cycle_step :: "nat \<Rightarrow> 't cycle \<Rightarrow> 't cycle \<Rightarrow> bool" for cap where
  cancel: "cycle_step cap c (c\<lparr>cy_cancelled := True\<rparr>)"
| spawn: "cy_spawner c = Spawning \<Longrightarrow> cy_pending c = t # ts \<Longrightarrow>
    size (cy_running c) < cap \<Longrightarrow>
    cycle_step cap c (c\<lparr>cy_pending := ts, cy_running := add_mset t (cy_running c)\<rparr>)"
| give_up: "cy_spawner c = Spawning \<Longrightarrow> cy_pending c \<noteq> [] \<Longrightarrow> cy_cancelled c \<Longrightarrow>
    cycle_step cap c (c\<lparr>cy_spawner := Waiting\<rparr>)"
| all_spawned: "cy_spawner c = Spawning \<Longrightarrow> cy_pending c = [] \<Longrightarrow>
    cycle_step cap c (c\<lparr>cy_spawner := Waiting\<rparr>)"
| body_ends: "cy_running c = add_mset t rs \<Longrightarrow>
    cycle_step cap c (c\<lparr>cy_running := rs, cy_leaving := add_mset t (cy_leaving c)\<rparr>)"
| leaves: "cy_leaving c = add_mset t ls \<Longrightarrow>
    cycle_step cap c (c\<lparr>cy_leaving := ls, cy_done := add_mset t (cy_done c)\<rparr>)"
| returns: "cy_spawner c = Waiting \<Longrightarrow> cy_running c = {#} \<Longrightarrow> cy_leaving c = {#} \<Longrightarrow>
    cycle_step cap c (c\<lparr>cy_spawner := Returned\<rparr>)"

inductive_cases cycle_stepE: "cycle_step cap c c'"

definition cycle_reaches :: "nat \<Rightarrow> 't cycle \<Rightarrow> 't cycle \<Rightarrow> bool" where
  "cycle_reaches cap = (cycle_step cap)\<^sup>*\<^sup>*"

definition cycle_inv :: "nat \<Rightarrow> 't list \<Rightarrow> 't cycle \<Rightarrow> bool" where
  "cycle_inv cap targets c \<longleftrightarrow>
     size (cy_running c) \<le> cap \<and>
     mset (cy_pending c) + cy_running c + cy_leaving c + cy_done c = mset targets \<and>
     (cy_spawner c = Returned \<longrightarrow> cy_running c = {#} \<and> cy_leaving c = {#}) \<and>
     (cy_spawner c \<noteq> Spawning \<longrightarrow> cy_pending c = [] \<or> cy_cancelled c)"

lemma cycle_inv_init: "cycle_inv cap targets (cycle_init targets)"
  by (simp add: cycle_inv_def cycle_init_def)

lemma cycle_inv_step: "cycle_step cap c c' \<Longrightarrow> cycle_inv cap targets c \<Longrightarrow> cycle_inv cap targets c'"
  by (induction rule: cycle_step.induct) (auto simp: cycle_inv_def)

lemma cycle_inv_reaches:
  "cycle_reaches cap c c' \<Longrightarrow> cycle_inv cap targets c \<Longrightarrow> cycle_inv cap targets c'"
  unfolding cycle_reaches_def
  by (induction rule: rtranclp_induct) (auto intro: cycle_inv_step)

lemma cycle_reaches_inv:
  "cycle_reaches cap (cycle_init targets) c \<Longrightarrow> cycle_inv cap targets c"
  using cycle_inv_reaches cycle_inv_init by blast

text \<open>
  C10. In every state of a poll cycle at most max(1, limit) targets are reconciled at once
  and no target is started twice; when the cycle returns no goroutine is left, and every
  target has been reconciled unless the context was cancelled.
\<close>

theorem cycle_bounded_exactly_once:
  assumes "cycle_reaches (semaphore_size a) (cycle_init targets) c"
  shows "size (cy_running c) \<le> max 1 (nat (ad_max_concurrent_targets a)) \<and>
    cy_running c + cy_leaving c + cy_done c \<subseteq># mset targets \<and>
    (cy_spawner c = Returned \<longrightarrow> cy_running c = {#} \<and> cy_leaving c = {#} \<and>
       (cy_done c = mset targets \<or> cy_cancelled c))"
proof -
  note inv = cycle_reaches_inv [OF assms, unfolded cycle_inv_def]
  have "semaphore_size a = max 1 (nat (ad_max_concurrent_targets a))"
    by (simp add: semaphore_size_def Let_def)
  moreover have "cy_running c + cy_leaving c + cy_done c \<subseteq># mset targets"
    using inv by (metis mset_subset_eq_add_right add.assoc)
  ultimately show ?thesis using inv by auto
qed

theorem cycle_bounded_exactly_once_witness:
  "\<exists>c. cycle_reaches (semaphore_size (new_adapter default_config)) (cycle_init [1 :: nat, 2]) c \<and>
     cy_running c = {#1#} \<and> size (cy_running c) \<le> 1"
proof -
  let ?i = "cycle_init [1 :: nat, 2]" and ?a = "new_adapter default_config"
  let ?c = "?i\<lparr>cy_pending := [2], cy_running := add_mset 1 (cy_running ?i)\<rparr>"
  have "semaphore_size ?a = 1"
    by (simp add: semaphore_size_def new_adapter_def new_with_max_concurrent_targets_def)
  then have "cycle_step (semaphore_size ?a) ?i ?c"
    by (intro spawn) (simp_all add: cycle_init_def)
  then have r: "cycle_reaches (semaphore_size ?a) ?i ?c" by (simp add: cycle_reaches_def)
  from cycle_bounded_exactly_once [OF r] r show ?thesis
    by (intro exI [of _ ?c]) (simp add: cycle_init_def new_adapter_def new_with_max_concurrent_targets_def)
qed

text \<open>The measure of the steps that are not a cancellation.\<close>

definition cycle_measure :: "'t cycle \<Rightarrow> nat" where
  "cycle_measure c = 3 * length (cy_pending c) + 2 * size (cy_running c) + size (cy_leaving c) +
     (case cy_spawner c of Spawning \<Rightarrow> 2 | Waiting \<Rightarrow> 1 | Returned \<Rightarrow> 0)"

lemma cycle_step_measure:
  "cycle_step cap c c' \<Longrightarrow> cycle_measure c' < cycle_measure c \<or> c' = c\<lparr>cy_cancelled := True\<rparr>"
  by (induction rule: cycle_step.induct) (auto simp: cycle_measure_def)

lemma cycle_progress:
  assumes "0 < cap" and "cy_spawner c \<noteq> Returned"
  shows "\<exists>c'. cycle_step cap c c' \<and> cycle_measure c' < cycle_measure c"
proof (cases "cy_running c = {#}")
  case False
  then obtain t rs where "cy_running c = add_mset t rs" by (metis multiset_cases)
  from body_ends [OF this, of cap] this show ?thesis by (auto simp: cycle_measure_def intro!: exI)
next
  case run: True
  show ?thesis
  proof (cases "cy_leaving c = {#}")
    case False
    then obtain t ls where "cy_leaving c = add_mset t ls" by (metis multiset_cases)
    from leaves [OF this, of cap] this show ?thesis by (auto simp: cycle_measure_def intro!: exI)
  next
    case leave: True
    show ?thesis
    proof (cases "cy_spawner c")
      case Spawning
      show ?thesis
      proof (cases "cy_pending c")
        case Nil
        from all_spawned [OF Spawning this, of cap] Spawning show ?thesis
          by (auto simp: cycle_measure_def intro!: exI)
      next
        case (Cons t ts)
        with run assms(1) spawn [OF Spawning Cons, of cap] show ?thesis
          by (auto simp: cycle_measure_def intro!: exI)
      qed
    next
      case Waiting
      from returns [OF this run leave, of cap] Waiting show ?thesis
        by (auto simp: cycle_measure_def intro!: exI)
    qed (use assms(2) in simp)
  qed
qed

lemma cycle_can_return:
  "0 < cap \<Longrightarrow> \<exists>c'. cycle_reaches cap c c' \<and> cy_spawner c' = Returned"
proof (induction "cycle_measure c" arbitrary: c rule: less_induct)
  case less
  show ?case
  proof (cases "cy_spawner c = Returned")
    case False
    from cycle_progress [OF less.prems this] obtain c' where
      c': "cycle_step cap c c'" "cycle_measure c' < cycle_measure c" by blast
    from less.hyps [OF c'(2) less.prems] obtain c'' where
      "cycle_reaches cap c' c''" "cy_spawner c'' = Returned" by blast
    with c'(1) show ?thesis unfolding cycle_reaches_def by (meson converse_rtranclp_into_rtranclp)
  qed (auto simp: cycle_reaches_def)
qed

text \<open>
  C11. A poll cycle cannot deadlock or run forever: from every state it can reach its
  return, and every step other than a cancellation brings it closer.
\<close>

theorem cycle_never_stuck:
  "(\<forall>c'. cycle_step (semaphore_size a) c c' \<longrightarrow>
      cycle_measure c' < cycle_measure c \<or> c' = c\<lparr>cy_cancelled := True\<rparr>) \<and>
   (\<exists>c'. cycle_reaches (semaphore_size a) c c' \<and> cy_spawner c' = Returned)"
proof -
  have "0 < semaphore_size a" by (simp add: semaphore_size_def Let_def)
  then show ?thesis using cycle_step_measure cycle_can_return by blast
qed

theorem cycle_never_stuck_witness:
  "\<exists>c. cycle_reaches (semaphore_size (new_adapter default_config)) (cycle_init [1 :: nat, 2]) c \<and>
     cy_spawner c = Returned"
  using cycle_never_stuck [of "new_adapter default_config" "cycle_init [1 :: nat, 2]"] by blast

section \<open>The loop\<close>

datatype loop_event = TickerFires | ContextDone

text \<open>
  \<^verbatim>\<open>time.NewTicker\<close> panics for an interval that is not positive. The events are what the
  \<^verbatim>\<open>select\<close> of the loop receives, in order; \<^verbatim>\<open>None\<close> is a loop that still waits.
\<close>

fun run_loop :: "('w \<Rightarrow> 'w) \<Rightarrow> loop_event list \<Rightarrow> 'w \<Rightarrow> 'w \<times> go_error option option" where
  "run_loop reconcile [] w = (w, None)"
| "run_loop reconcile (ContextDone # es) w = (w, Some None)"
| "run_loop reconcile (TickerFires # es) w = run_loop reconcile es (reconcile w)"

definition run_adapter ::
  "adapter \<Rightarrow> ('w \<Rightarrow> 'w) \<Rightarrow> loop_event list \<Rightarrow> 'w \<Rightarrow> (go_error, 'w \<times> go_error option option) outcome" where
  "run_adapter a reconcile events w =
     (let w = reconcile w in
      if poll_interval (ad_cfg a) \<le> 0 then Panic else Ok (run_loop reconcile events w))"

lemma run_loop_ticks:
  "run_loop reconcile (replicate n TickerFires @ es) w = run_loop reconcile es ((reconcile ^^ n) w)"
  by (induction n arbitrary: w) (simp_all add: funpow_swap1)

end
