(* ===== verification/Kube_Setup.thy ===== *)
theory Kube_Setup
  imports Api_Types
begin

text \<open>
  Construction of the Kubernetes client and of the controller manager
  (\<^verbatim>\<open>newClient\<close>, \<^verbatim>\<open>newClientForConfig\<close> and \<^verbatim>\<open>startSpokeClusterController\<close> in
  \<^verbatim>\<open>cmd/alerts-adapter/main.go\<close>, the \<^verbatim>\<open>Reconciler\<close> record and \<^verbatim>\<open>SetupWithManager\<close> in
  \<^verbatim>\<open>internal/multicluster/controller.go\<close>).

  The library is the record \<^verbatim>\<open>kube_lib\<close>: schemes, REST configurations, clients and managers
  are types of its own, and what reads or changes something outside the process does so on
  the state of the outside world. A scheme that the code fills in place is passed on.
\<close>

section \<open>The library and the reconciler\<close>

record ('c, 'r) reconciler =
  rec_client :: 'c
  rec_api_reader :: 'r
  rec_run_client :: 'c
  rec_namespace :: string

record ('w, 'cfg, 's, 'c, 'm, 'r) kube_lib =
  kl_get_config :: "'w \<Rightarrow> 'w \<times> (go_error + 'cfg)"
  kl_new_scheme :: 's
  kl_add_core :: "'s \<Rightarrow> go_error + 's"
  kl_add_agentic :: "'s \<Rightarrow> go_error + 's"
  kl_add_hub :: "'s \<Rightarrow> go_error + 's"
  kl_client_new :: "'cfg \<Rightarrow> 's \<Rightarrow> 'w \<Rightarrow> 'w \<times> (go_error + 'c)"
  kl_client_scheme :: "'c \<Rightarrow> 's"
  kl_new_manager :: "'cfg \<Rightarrow> 's \<Rightarrow> string \<Rightarrow> 'w \<Rightarrow> 'w \<times> (go_error + 'm)"
  kl_manager_client :: "'m \<Rightarrow> 'c"
  kl_manager_reader :: "'m \<Rightarrow> 'r"
  kl_complete :: "'m \<Rightarrow> ('c, 'r) reconciler \<Rightarrow> 'w \<Rightarrow> 'w \<times> go_error option"

section \<open>The client\<close>

definition client_scheme :: "('w, 'cfg, 's, 'c, 'm, 'r) kube_lib \<Rightarrow> go_error + 's" where
  "client_scheme lib =
     (case kl_add_core lib (kl_new_scheme lib) of
        Inl err \<Rightarrow> Inl (RegisteringScheme ''core'' err)
      | Inr scheme \<Rightarrow>
          (case kl_add_agentic lib scheme of
             Inl err \<Rightarrow> Inl (RegisteringScheme ''agentic'' err)
           | Inr scheme \<Rightarrow>
               (case kl_add_hub lib scheme of
                  Inl err \<Rightarrow> Inl (RegisteringScheme ''hub'' err)
                | Inr scheme \<Rightarrow> Inr scheme)))"

definition new_client_for_config ::
  "('w, 'cfg, 's, 'c, 'm, 'r) kube_lib \<Rightarrow> 'cfg \<Rightarrow> 'w \<Rightarrow> 'w \<times> (go_error + 'c)" where
  "new_client_for_config lib cfg w =
     (case client_scheme lib of
        Inl err \<Rightarrow> (w, Inl err)
      | Inr scheme \<Rightarrow>
          (case kl_client_new lib cfg scheme w of
             (w, Inl err) \<Rightarrow> (w, Inl (CreatingClient err))
           | (w, Inr c) \<Rightarrow> (w, Inr c)))"

definition new_kube_client ::
  "('w, 'cfg, 's, 'c, 'm, 'r) kube_lib \<Rightarrow> 'w \<Rightarrow> 'w \<times> (go_error + 'c)" where
  "new_kube_client lib w =
     (case kl_get_config lib w of
        (w, Inl err) \<Rightarrow> (w, Inl (LoadingKubeconfig err))
      | (w, Inr cfg) \<Rightarrow> new_client_for_config lib cfg w)"

section \<open>The controller\<close>

definition setup_with_manager ::
  "('w, 'cfg, 's, 'c, 'm, 'r) kube_lib \<Rightarrow> ('c, 'r) reconciler \<Rightarrow> 'm \<Rightarrow> 'w \<Rightarrow> 'w \<times> go_error option" where
  "setup_with_manager lib r mgr w = kl_complete lib mgr r w"

text \<open>The manager that is started, with the reconciler that is registered with it.\<close>

definition start_spoke_cluster_controller ::
  "('w, 'cfg, 's, 'c, 'm, 'r) kube_lib \<Rightarrow> 'c \<Rightarrow> string \<Rightarrow> 'w
   \<Rightarrow> 'w \<times> (go_error + 'm \<times> ('c, 'r) reconciler)" where
  "start_spoke_cluster_controller lib k8s_client namespace w =
     (case kl_get_config lib w of
        (w, Inl err) \<Rightarrow> (w, Inl (LoadingManagerKubeconfig err))
      | (w, Inr rest_config) \<Rightarrow>
          (case kl_new_manager lib rest_config (kl_client_scheme lib k8s_client) ''0'' w of
             (w, Inl err) \<Rightarrow> (w, Inl (CreatingManager err))
           | (w, Inr manager) \<Rightarrow>
               let r = \<lparr>rec_client = kl_manager_client lib manager,
                        rec_api_reader = kl_manager_reader lib manager,
                        rec_run_client = k8s_client, rec_namespace = namespace\<rparr>
               in (case setup_with_manager lib r manager w of
                     (w, Some err) \<Rightarrow> (w, Inl (SettingUpController err))
                   | (w, None) \<Rightarrow> (w, Inr (manager, r)))))"

section \<open>Properties\<close>

text \<open>The types a client was registered for are those of all three API modules, in order.\<close>

lemma client_scheme_Inr:
  assumes "client_scheme lib = Inr s"
  obtains s1 s2 where "kl_add_core lib (kl_new_scheme lib) = Inr s1"
    and "kl_add_agentic lib s1 = Inr s2" and "kl_add_hub lib s2 = Inr s"
  using assms by (auto simp: client_scheme_def split: sum.splits)

lemma new_kube_client_Inr:
  assumes "new_kube_client lib w = (w', Inr c)"
  obtains v cfg s where "kl_get_config lib w = (v, Inr cfg)" and "client_scheme lib = Inr s"
    and "kl_client_new lib cfg s v = (w', Inr c)"
  using assms by (auto simp: new_kube_client_def new_client_for_config_def split: prod.splits sum.splits)

text \<open>
  The reconciler reads through the manager but creates runs and targets with the client and
  in the namespace of the poll loop.
\<close>

lemma start_controller_Inr:
  assumes "start_spoke_cluster_controller lib c ns w = (w', Inr (m, r))"
  shows "r = \<lparr>rec_client = kl_manager_client lib m, rec_api_reader = kl_manager_reader lib m,
      rec_run_client = c, rec_namespace = ns\<rparr>"
    and "\<exists>v. kl_complete lib m r v = (w', None)"
    and "\<exists>cfg u v. kl_new_manager lib cfg (kl_client_scheme lib c) ''0'' u = (v, Inr m)"
proof -
  show "r = \<lparr>rec_client = kl_manager_client lib m, rec_api_reader = kl_manager_reader lib m,
      rec_run_client = c, rec_namespace = ns\<rparr>"
    and "\<exists>v. kl_complete lib m r v = (w', None)"
    using assms
    by (auto simp: start_spoke_cluster_controller_def setup_with_manager_def Let_def
        split: prod.splits sum.splits option.splits)
  show "\<exists>cfg u v. kl_new_manager lib cfg (kl_client_scheme lib c) ''0'' u = (v, Inr m)"
    using assms
    by (auto simp: start_spoke_cluster_controller_def Let_def
        split: prod.splits sum.splits option.splits)
qed

end
