(* ===== verification/Program_Main.thy ===== *)
theory Program_Main
  imports Spoke_Target Adapter_Cycle Kube_Setup
begin

text \<open>
  \<^verbatim>\<open>cmd/alerts-adapter/main.go\<close>: the settings from the environment, the targets the program
  starts with, the manager of the controller and \<^verbatim>\<open>main\<close> itself.

  The environment, the configuration as \<^verbatim>\<open>config.LoadFromFile\<close> answered it and the Kubernetes
  library are arguments. \<^verbatim>\<open>startup\<close> is \<^verbatim>\<open>main\<close> up to the start of the poll loop,
  \<^verbatim>\<open>main_exit\<close> is what follows the loop, and \<^verbatim>\<open>main_program\<close> is the whole of it, where the
  first error of the start ends the process with status 1. \<^verbatim>\<open>atoi\<close> is \<^verbatim>\<open>strconv.Atoi\<close> for 64-bit integers.
\<close>

section \<open>Settings\<close>

definition max_concurrent_targets_env :: string where
  "max_concurrent_targets_env = ''MULTICLUSTER_MAX_CONCURRENT_TARGETS''"
definition default_multicluster_max_concurrent_targets :: int where
  "default_multicluster_max_concurrent_targets = 4"

definition atoi :: "string \<Rightarrow> int option" where
  "atoi s =
     (let signed = (s \<noteq> '''' \<and> (hd s = CHR ''-'' \<or> hd s = CHR ''+''));
          neg = (signed \<and> hd s = CHR ''-'');
          ds = (if signed then tl s else s);
          v = (if neg then - int (read_decimal ds) else int (read_decimal ds))
      in if ds = '''' \<or> \<not> list_all is_digit_char ds then None
         else if - (2 ^ 63) \<le> v \<and> v < 2 ^ 63 then Some v else None)"

definition multicluster_max_concurrent_targets ::
  "(string \<Rightarrow> string option) \<Rightarrow> bool \<Rightarrow> go_error + int" where
  "multicluster_max_concurrent_targets lookup_env multicluster =
     (if \<not> multicluster then Inr 1
      else case lookup_env max_concurrent_targets_env of
        None \<Rightarrow> Inr default_multicluster_max_concurrent_targets
      | Some value \<Rightarrow>
          (case atoi value of
             None \<Rightarrow> Inl (NotPositiveInteger max_concurrent_targets_env)
           | Some n \<Rightarrow> if n < 1 then Inl (NotPositiveInteger max_concurrent_targets_env) else Inr n))"

section \<open>Targets\<close>

definition local_target :: "am_client \<Rightarrow> string \<Rightarrow> bool \<Rightarrow> cluster_target" where
  "local_target alerts namespace multi_cluster =
     \<lparr>target_name = ''local'', target_id = '''', target_namespace = namespace, tgt_alerts = alerts,
      tgt_runs = new_client namespace (if multi_cluster then ''local'' else '''')\<rparr>"

definition local_targets ::
  "(string \<Rightarrow> string option) \<Rightarrow> am_world \<Rightarrow> string \<Rightarrow> bool \<Rightarrow> go_error + cluster_target list" where
  "local_targets lookup_env os namespace multi_cluster =
     (let url_set = lookup_env ''ALERTMANAGER_URL'';
          url = (case url_set of None \<Rightarrow> '''' | Some u \<Rightarrow> u)
      in if url_set \<noteq> None \<and> url = '''' then Inr []
         else case am_new os \<lparr>am_url = url, am_ca_bundle = '''', am_ca_source = '''', am_token = '''',
                  am_token_path = '''', am_ca_path = ''''\<rparr> of
             Inl err \<Rightarrow> Inl (LocalClient err)
           | Inr alerts \<Rightarrow> Inr [local_target alerts namespace multi_cluster])"

fun spoke_targets ::
  "('w \<Rightarrow> string \<Rightarrow> string \<Rightarrow> 'w \<times> (api_error + gomap)) \<Rightarrow> am_world \<Rightarrow> string \<Rightarrow> spoke_cluster list \<Rightarrow> 'w
   \<Rightarrow> 'w \<times> cluster_target list" where
  "spoke_targets get_secret os namespace [] w = (w, [])"
| "spoke_targets get_secret os namespace (spoke # spokes) w =
     (let (w, found, logs) = build_target get_secret os namespace spoke w;
          (w, ts) = spoke_targets get_secret os namespace spokes w
      in (w, case found of None \<Rightarrow> ts | Some t \<Rightarrow> t # ts))"

definition new_targets ::
  "(string \<Rightarrow> string option) \<Rightarrow> am_world \<Rightarrow> ('w \<Rightarrow> 'w \<times> (api_error + spoke_cluster list))
   \<Rightarrow> ('w \<Rightarrow> string \<Rightarrow> string \<Rightarrow> 'w \<times> (api_error + gomap)) \<Rightarrow> string \<Rightarrow> bool \<Rightarrow> 'w
   \<Rightarrow> 'w \<times> (go_error + cluster_target list)" where
  "new_targets lookup_env os list_spokes get_secret namespace multi_cluster w =
     (case local_targets lookup_env os namespace multi_cluster of
        Inl err \<Rightarrow> (w, Inl err)
      | Inr targets \<Rightarrow>
          if \<not> multi_cluster then
            (w, if length targets = 0 then Inl NoTargets else Inr targets)
          else case list_spokes w of
              (w, Inl err) \<Rightarrow> (w, Inl (ListingSpokeClusters err))
            | (w, Inr spokes) \<Rightarrow>
                let (w, ts) = spoke_targets get_secret os namespace spokes w
                in (w, Inr (targets @ ts)))"

definition new_target_registry :: "cluster_target list \<Rightarrow> cluster_target registry" where
  "new_target_registry targets =
     new_registry (filter (\<lambda>t. target_id t = '''') targets) (filter (\<lambda>t. target_id t \<noteq> '''') targets)"

section \<open>The controller manager\<close>

text \<open>
  What the goroutine of \<^verbatim>\<open>runControllerManager\<close> puts on its channel when \<^verbatim>\<open>start\<close> returned;
  it calls \<^verbatim>\<open>stop\<close> exactly when it puts an error there.
\<close>

definition run_controller_manager :: "bool \<Rightarrow> go_error option \<Rightarrow> go_error option" where
  "run_controller_manager ctx_cancelled start_result =
     (if ctx_cancelled then None
      else case start_result of None \<Rightarrow> Some ManagerStopped | Some err \<Rightarrow> Some err)"

section \<open>main\<close>

definition pod_namespace :: "(string \<Rightarrow> string option) \<Rightarrow> string" where
  "pod_namespace lookup_env =
     (let namespace = (case lookup_env ''POD_NAMESPACE'' of None \<Rightarrow> '''' | Some n \<Rightarrow> n)
      in if namespace = '''' then run_namespace_default else namespace)"

text \<open>
  \<^verbatim>\<open>main\<close> up to the start of the poll loop: the adapter, the registry and, in multicluster
  mode, the manager that was started. The calls that read the cluster get the client.
\<close>

definition startup ::
  "(string \<Rightarrow> string option) \<Rightarrow> am_world \<Rightarrow> ('w, 'cfg, 's, 'c, 'm, 'r) kube_lib
   \<Rightarrow> ('c \<Rightarrow> 'w \<Rightarrow> 'w \<times> (api_error + spoke_cluster list))
   \<Rightarrow> ('c \<Rightarrow> 'w \<Rightarrow> string \<Rightarrow> string \<Rightarrow> 'w \<times> (api_error + gomap))
   \<Rightarrow> config \<times> go_error option \<times> config_log list \<Rightarrow> bool \<Rightarrow> 'w
   \<Rightarrow> 'w \<times> (go_error +
        adapter \<times> cluster_target registry \<times> ('m \<times> ('c, 'r) reconciler) option)" where
  "startup lookup_env os lib list_spokes get_secret loaded multicluster w =
     (case multicluster_max_concurrent_targets lookup_env multicluster of
        Inl err \<Rightarrow> (w, Inl err)
      | Inr max_concurrent \<Rightarrow>
          (case loaded of (cfg, Some err, logs) \<Rightarrow> (w, Inl err)
           | (cfg, None, logs) \<Rightarrow>
               (case new_kube_client lib w of
                  (w, Inl err) \<Rightarrow> (w, Inl err)
                | (w, Inr k8s_client) \<Rightarrow>
                    let namespace = pod_namespace lookup_env in
                    (case new_targets lookup_env os (list_spokes k8s_client) (get_secret k8s_client)
                            namespace multicluster w of
                       (w, Inl err) \<Rightarrow> (w, Inl err)
                     | (w, Inr targets) \<Rightarrow>
                         let source = new_target_registry targets;
                             a = new_with_max_concurrent_targets cfg max_concurrent
                         in if \<not> multicluster then (w, Inr (a, source, None))
                            else case start_spoke_cluster_controller lib k8s_client namespace w of
                              (w, Inl err) \<Rightarrow> (w, Inl err)
                            | (w, Inr manager) \<Rightarrow> (w, Inr (a, source, Some manager))))))"

text \<open>
  The exit status after the loop has returned: \<^verbatim>\<open>manager_error\<close> is what is on the channel of
  the manager, if there is one.
\<close>

definition main_exit :: "go_error option \<Rightarrow> go_error option \<Rightarrow> nat" where
  "main_exit loop_error manager_error =
     (case loop_error of
        Some err \<Rightarrow> 1
      | None \<Rightarrow> (case manager_error of Some err \<Rightarrow> 1 | None \<Rightarrow> 0))"

text \<open>
  The whole of \<^verbatim>\<open>main\<close>: the poll loop runs on the registry through \<^verbatim>\<open>reconcile\<close> and stops by
  the events it sees; \<^verbatim>\<open>channel\<close> is what the goroutine of the manager has sent by then, which
  is read only in multicluster mode. The status is \<^verbatim>\<open>None\<close> while the loop still runs.
\<close>

definition main_program ::
  "(string \<Rightarrow> string option) \<Rightarrow> am_world \<Rightarrow> ('w, 'cfg, 's, 'c, 'm, 'r) kube_lib
   \<Rightarrow> ('c \<Rightarrow> 'w \<Rightarrow> 'w \<times> (api_error + spoke_cluster list))
   \<Rightarrow> ('c \<Rightarrow> 'w \<Rightarrow> string \<Rightarrow> string \<Rightarrow> 'w \<times> (api_error + gomap))
   \<Rightarrow> config \<times> go_error option \<times> config_log list
   \<Rightarrow> (adapter \<Rightarrow> cluster_target registry \<Rightarrow> 'w \<Rightarrow> 'w) \<Rightarrow> loop_event list \<Rightarrow> go_error option
   \<Rightarrow> bool \<Rightarrow> 'w \<Rightarrow> (go_error, 'w \<times> nat option) outcome" where
  "main_program lookup_env os lib list_spokes get_secret loaded reconcile events channel multicluster w =
     (case startup lookup_env os lib list_spokes get_secret loaded multicluster w of
        (w, Inl err) \<Rightarrow> Ok (w, Some 1)
      | (w, Inr (a, source, manager)) \<Rightarrow>
          bind_outcome (run_adapter a (reconcile a source) events w) (\<lambda>(w, ended). Ok (w,
            map_option (\<lambda>err. main_exit err (if manager = None then None else channel)) ended)))"

section \<open>Properties\<close>

lemma atoi_decimal:
  assumes "n < 2 ^ 63"
  shows "atoi (decimal n) = Some (int n)" and "atoi (CHR ''-'' # decimal n) = Some (- int n)"
proof -
  have d: "is_digit_char (hd (decimal n))"
    using decimal_digits [of n] decimal_nonempty [of n] by (cases "decimal n") auto
  have "is_digit_char (CHR ''-'') = False" "is_digit_char (CHR ''+'') = False"
    by (simp_all add: is_digit_char_def in_range_def)
  with d have s: "hd (decimal n) \<noteq> CHR ''-''" "hd (decimal n) \<noteq> CHR ''+''" by auto
  have b: "int n < 2 ^ 63" using assms by simp
  show "atoi (decimal n) = Some (int n)" "atoi (CHR ''-'' # decimal n) = Some (- int n)"
    using s b by (simp_all add: atoi_def read_decimal decimal_digits Let_def)
qed

lemma max_concurrent_ge_1:
  "multicluster_max_concurrent_targets lookup_env multicluster = Inr n \<Longrightarrow> 1 \<le> n"
  by (auto simp: multicluster_max_concurrent_targets_def default_multicluster_max_concurrent_targets_def
      split: if_splits option.splits)

lemma max_concurrent_decimal:
  assumes "lookup_env max_concurrent_targets_env = Some (decimal n)" and "n < 2 ^ 63"
  shows "multicluster_max_concurrent_targets lookup_env True =
    (if n = 0 then Inl (NotPositiveInteger max_concurrent_targets_env) else Inr (int n)) \<and>
    multicluster_max_concurrent_targets lookup_env False = Inr 1"
  using assms atoi_decimal(1) [OF assms(2)]
  by (auto simp: multicluster_max_concurrent_targets_def)

lemma spoke_targets_ids: "t \<in> set (snd (spoke_targets get_secret os ns spokes w)) \<Longrightarrow> target_id t \<noteq> ''''"
proof (induction spokes arbitrary: w)
  case (Cons spoke spokes)
  obtain w1 found logs where b: "build_target get_secret os ns spoke w = (w1, found, logs)"
    by (metis prod_cases3)
  have "target_id t \<noteq> ''''" if "found = Some t" for t
    using build_target_Some(2) [OF b [unfolded that]]
    by (simp add: spoke_target_id_def spoke_target_prefix_def Let_def)
  with Cons.prems Cons.IH [of w1] b show ?case by (auto split: prod.splits option.splits)
qed simp

text \<open>
  The targets built are those of the spokes in turn, each with what its Secret holds when its
  turn has come.
\<close>

definition secrets_read ::
  "('w \<Rightarrow> string \<Rightarrow> string \<Rightarrow> 'w \<times> (api_error + gomap)) \<Rightarrow> am_world \<Rightarrow> string \<Rightarrow> spoke_cluster list
   \<Rightarrow> 'w \<Rightarrow> 'w" where
  "secrets_read get_secret os ns spokes w =
     foldl (\<lambda>w spoke. fst (build_target get_secret os ns spoke w)) w spokes"

definition spoke_built ::
  "('w \<Rightarrow> string \<Rightarrow> string \<Rightarrow> 'w \<times> (api_error + gomap)) \<Rightarrow> am_world \<Rightarrow> string \<Rightarrow> spoke_cluster list
   \<Rightarrow> 'w \<Rightarrow> nat \<Rightarrow> cluster_target option" where
  "spoke_built get_secret os ns spokes w i =
     fst (snd (build_target get_secret os ns (spokes ! i) (secrets_read get_secret os ns (take i spokes) w)))"

lemma spoke_targets_built:
  "snd (spoke_targets get_secret os ns spokes w) =
     List.map_filter (spoke_built get_secret os ns spokes w) [0..<length spokes]"
proof (induction spokes arbitrary: w)
  case (Cons spoke spokes)
  obtain w1 found logs where b: "build_target get_secret os ns spoke w = (w1, found, logs)"
    by (metis prod_cases3)
  have "spoke_built get_secret os ns (spoke # spokes) w 0 = found"
    by (simp add: spoke_built_def secrets_read_def b)
  moreover have "spoke_built get_secret os ns (spoke # spokes) w (Suc i) =
      spoke_built get_secret os ns spokes w1 i" for i
    by (simp add: spoke_built_def secrets_read_def b)
  moreover have "[0..<length (spoke # spokes)] = 0 # map Suc [0..<length spokes]"
    by (simp add: upt_conv_Cons map_Suc_upt del: upt_Suc)
  moreover obtain w2 ts where "spoke_targets get_secret os ns spokes w1 = (w2, ts)" by fastforce
  ultimately show ?case using Cons.IH [of w1]
    by (simp add: b List.map_filter_def comp_def filter_map del: upt_Suc split: option.split)
qed (simp add: List.map_filter_def)

lemma local_targets_shape:
  assumes "local_targets lookup_env os ns multi = Inr ts"
  shows "if lookup_env ''ALERTMANAGER_URL'' = Some '''' then ts = []
    else \<exists>c. am_new os (no_am_config\<lparr>am_url := case lookup_env ''ALERTMANAGER_URL'' of None \<Rightarrow> '''' | Some u \<Rightarrow> u\<rparr>) = Inr c \<and>
      ts = [local_target c ns multi]"
  using assms
  by (auto simp: local_targets_def no_am_config_def Let_def split: if_splits option.splits sum.splits)

text \<open>
  C23. The initial registry has no local target when ALERTMANAGER_URL is set to the empty
  string, and otherwise exactly the hub, for that URL or the default one and scoped as
  local in multicluster mode only; its spokes are exactly the listed SpokeClusters whose
  target could be built, by name, the last of a name winning, and outside multicluster
  mode it has none and holds exactly one target.
\<close>

theorem new_targets_registry:
  assumes "new_targets lookup_env os list_spokes get_secret ns multi w = (w', Inr ts)"
  shows "registry_wf (new_target_registry ts) \<and>
    (if lookup_env ''ALERTMANAGER_URL'' = Some '''' then reg_local (new_target_registry ts) = []
     else \<exists>h. reg_local (new_target_registry ts) = [h] \<and> target_name h = ''local'' \<and> target_id h = '''' \<and>
       target_namespace h = ns \<and> rc_namespace (tgt_runs h) = ns \<and>
       rc_target (tgt_runs h) = (if multi then ''local'' else '''') \<and>
       am_new os (no_am_config\<lparr>am_url := case lookup_env ''ALERTMANAGER_URL'' of None \<Rightarrow> '''' | Some u \<Rightarrow> u\<rparr>) =
         Inr (tgt_alerts h)) \<and>
    (if multi then \<exists>v spokes. list_spokes w = (v, Inr spokes) \<and>
       spoke_lookup (new_target_registry ts) = map_of (rev (map (\<lambda>t. (target_name t, t))
         (List.map_filter (spoke_built get_secret os ns spokes v) [0..<length spokes])))
     else length (registry_targets (new_target_registry ts)) = 1 \<and>
       spoke_lookup (new_target_registry ts) = Map.empty)"
proof -
  let ?reg = "new_target_registry ts"
  obtain ls where ls: "local_targets lookup_env os ns multi = Inr ls"
    using assms by (auto simp: new_targets_def split: sum.splits)
  note shape = local_targets_shape [OF ls]
  have ids: "filter (\<lambda>t. target_id t = '''') ls = ls" "filter (\<lambda>t. target_id t \<noteq> '''') ls = []" "length ls \<le> 1"
    using shape by (auto simp: local_target_def split: if_splits)
  have lookup: "spoke_lookup ?reg = map_of (rev (map (\<lambda>t. (target_name t, t)) (filter (\<lambda>t. target_id t \<noteq> '''') ts)))"
    by (simp add: new_target_registry_def spoke_lookup_new)
  have loc: "reg_local ?reg = filter (\<lambda>t. target_id t = '''') ts"
    by (simp add: new_target_registry_def new_registry_def)
  have wf: "registry_wf ?reg" by (simp add: new_target_registry_def registry_wf_new)
  have rest: "reg_local ?reg = ls \<and> (if multi then \<exists>v spokes. list_spokes w = (v, Inr spokes) \<and>
       spoke_lookup ?reg = map_of (rev (map (\<lambda>t. (target_name t, t))
         (List.map_filter (spoke_built get_secret os ns spokes v) [0..<length spokes])))
     else length (registry_targets ?reg) = 1 \<and> spoke_lookup ?reg = Map.empty)"
  proof (cases multi)
    case False
    with assms ls have "ts = ls" "length ls \<noteq> 0" by (auto simp: new_targets_def split: if_splits)
    moreover from this(2) ids(3) have "length ls = 1" by linarith
    ultimately show ?thesis using False ids loc lookup spokes.snapshot_size [OF wf] by simp
  next
    case True
    with assms ls obtain v spokes where s: "list_spokes w = (v, Inr spokes)"
      "ts = ls @ snd (spoke_targets get_secret os ns spokes v)"
      by (auto simp: new_targets_def split: prod.splits sum.splits)
    let ?sp = "snd (spoke_targets get_secret os ns spokes v)"
    have "filter (\<lambda>t. target_id t = '''') ?sp = []" "filter (\<lambda>t. target_id t \<noteq> '''') ?sp = ?sp"
      using spoke_targets_ids [of _ get_secret os ns spokes v] by (auto simp: filter_empty_conv filter_id_conv)
    with True ids loc lookup s show ?thesis by (auto simp: spoke_targets_built)
  qed
  have "if lookup_env ''ALERTMANAGER_URL'' = Some '''' then ls = []
    else \<exists>h. ls = [h] \<and> target_name h = ''local'' \<and> target_id h = '''' \<and>
       target_namespace h = ns \<and> rc_namespace (tgt_runs h) = ns \<and>
       rc_target (tgt_runs h) = (if multi then ''local'' else '''') \<and>
       am_new os (no_am_config\<lparr>am_url := case lookup_env ''ALERTMANAGER_URL'' of None \<Rightarrow> '''' | Some u \<Rightarrow> u\<rparr>) =
         Inr (tgt_alerts h)"
    using shape by (auto simp: local_target_def new_client_def split: if_splits)
  with rest wf show ?thesis by simp
qed

definition no_spokes :: "unit \<Rightarrow> unit \<times> (api_error + spoke_cluster list)" where
  "no_spokes w = (w, Inr [])"

lemma sample_targets:
  "\<exists>c. new_targets (\<lambda>_. None) sample_os no_spokes sample_secret ns False () =
     ((), Inr [local_target c ns False])"
proof -
  obtain c where "am_new sample_os no_am_config = Inr c"
    by (simp add: sample_os_def no_am_config_def am_new_def set_defaults_def Let_def new_roots_def
        default_ca_path_def)
  then show ?thesis
    by (auto simp: new_targets_def local_targets_def no_am_config_def)
qed

definition two_spokes :: "unit \<Rightarrow> unit \<times> (api_error + spoke_cluster list)" where
  "two_spokes w = (w, Inr [sample_spoke, sample_spoke\<lparr>spoke_name := ''west'', spoke_labels := []\<rparr>])"

text \<open>No hub, one spoke that can be used and one without the label.\<close>

theorem new_targets_registry_witness:
  "\<exists>ts. new_targets (\<lambda>_. Some '''') sample_os two_spokes sample_secret ''ns'' True () = ((), Inr ts) \<and>
     reg_local (new_target_registry ts) = [] \<and>
     spoke_lookup (new_target_registry ts) ''east'' \<noteq> None \<and>
     spoke_lookup (new_target_registry ts) ''west'' = None"
proof -
  let ?west = "sample_spoke\<lparr>spoke_name := ''west'', spoke_labels := []\<rparr>"
  obtain t where t: "build_target sample_secret sample_os ''ns'' sample_spoke () = ((), Some t, [])"
    using sample_build by blast
  have west: "build_target sample_secret sample_os ''ns'' ?west () = ((), None, [])"
    by (rule build_target_unlabelled) (simp add: gomap_get_def)
  have n: "new_targets (\<lambda>_. Some '''') sample_os two_spokes sample_secret ''ns'' True () = ((), Inr [t])"
    by (simp add: new_targets_def local_targets_def two_spokes_def t west)
  have "target_name t = ''east''" using build_target_Some(1) [OF t] by (simp add: sample_spoke_def)
  with new_targets_registry [OF n] n t west show ?thesis
    by (auto simp: two_spokes_def spoke_built_def secrets_read_def List.map_filter_def)
qed

lemma run_loop_stops:
  "run_loop reconcile (replicate n TickerFires @ ContextDone # es) w = ((reconcile ^^ n) w, Some None)"
  by (simp add: run_loop_ticks)

lemma startup_Inr:
  assumes "startup lookup_env os lib list_spokes get_secret (cfg, err, logs) multi w =
      (w', Inr (a, reg, manager))"
  obtains k ts c where "multicluster_max_concurrent_targets lookup_env multi = Inr k"
    and "a = new_with_max_concurrent_targets cfg k" and "reg = new_target_registry ts" and "err = None"
    and "\<And>m r. manager = Some (m, r) \<Longrightarrow>
      multi \<and> rec_run_client r = c \<and> rec_namespace r = pod_namespace lookup_env"
    and "manager = None \<Longrightarrow> \<not> multi"
proof -
  obtain k v c where k: "multicluster_max_concurrent_targets lookup_env multi = Inr k" "err = None"
    "new_kube_client lib w = (v, Inr c)"
    using assms by (auto simp: startup_def Let_def split: sum.splits option.splits prod.splits)
  obtain v' ts where ts: "new_targets lookup_env os (list_spokes c) (get_secret c)
      (pod_namespace lookup_env) multi v = (v', Inr ts)"
    using assms k by (auto simp: startup_def Let_def split: sum.splits prod.splits)
  note s = assms [unfolded startup_def, simplified k ts Let_def sum.case option.case prod.case]
  show thesis
  proof (rule that [OF k(1) _ _ k(2), of ts c])
    show "a = new_with_max_concurrent_targets cfg k" "reg = new_target_registry ts"
      "manager = None \<Longrightarrow> \<not> multi"
      using s by (auto split: if_splits sum.splits prod.splits)
    show "multi \<and> rec_run_client r = c \<and> rec_namespace r = pod_namespace lookup_env"
      if "manager = Some (m, r)" for m r
      using s that by (auto split: if_splits sum.splits prod.splits dest!: start_controller_Inr(1))
  qed
qed

lemma startup_loaded:
  assumes "startup lookup_env os lib list_spokes get_secret
      (load_from_file read_cfg unmarshal getenv path) multi w = (w', Inr (a, reg, manager))"
  shows "0 < poll_interval (ad_cfg a)" and "1 \<le> ad_max_concurrent_targets a"
    and "multi \<or> ad_max_concurrent_targets a = 1" and "registry_wf reg"
    and "manager = None \<longleftrightarrow> \<not> multi"
    and "map_option (\<lambda>(m, r). rec_namespace r) manager =
      (if multi then Some (pod_namespace lookup_env) else None)"
proof -
  obtain cfg err logs where l: "load_from_file read_cfg unmarshal getenv path = (cfg, err, logs)"
    by (metis prod_cases3)
  obtain k ts where k: "multicluster_max_concurrent_targets lookup_env multi = Inr k"
    "a = new_with_max_concurrent_targets cfg k" "reg = new_target_registry ts"
    and m: "\<And>m r. manager = Some (m, r) \<Longrightarrow> multi \<and> rec_namespace r = pod_namespace lookup_env"
      "manager = None \<Longrightarrow> \<not> multi"
    by (rule startup_Inr [OF assms [unfolded l]]) blast
  have "config_ok cfg" using load_from_file_ok [of read_cfg unmarshal getenv path] l by simp
  then show "0 < poll_interval (ad_cfg a)"
    by (simp add: k(2) new_with_max_concurrent_targets_def config_ok_def)
  show "1 \<le> ad_max_concurrent_targets a" "registry_wf reg"
    using max_concurrent_ge_1 [OF k(1)]
    by (simp_all add: k(2,3) new_with_max_concurrent_targets_def new_target_registry_def registry_wf_new)
  show "multi \<or> ad_max_concurrent_targets a = 1"
    using k(1) by (cases multi)
      (simp_all add: k(2) multicluster_max_concurrent_targets_def new_with_max_concurrent_targets_def)
  show "manager = None \<longleftrightarrow> \<not> multi" "map_option (\<lambda>(m, r). rec_namespace r) manager =
      (if multi then Some (pod_namespace lookup_env) else None)"
    using m by (cases manager, auto)+
qed

lemma run_adapter_stops:
  assumes "0 < poll_interval (ad_cfg a)"
  shows "run_adapter a reconcile (replicate n TickerFires @ ContextDone # es) v =
    Ok ((reconcile ^^ Suc n) v, Some None)"
  using assms by (simp add: run_adapter_def run_loop_stops funpow_swap1)

lemma main_program_fails:
  assumes "startup lookup_env os lib list_spokes get_secret loaded multi w = (w', Inl err)"
  shows "main_program lookup_env os lib list_spokes get_secret loaded reconcile events channel multi w =
    Ok (w', Some 1)"
  by (simp add: main_program_def assms)

text \<open>
  C22. When startup succeeds with a configuration read from any file, the program does not
  panic on its ticker: it reconciles once at the start and once per tick until the context
  ends, and then exits with status 0, or with 1 in multicluster mode when the controller
  manager had failed; the limit of concurrent targets is at least one, exactly one outside
  multicluster mode, and a controller runs exactly in multicluster mode, in the namespace
  of the poll loop.
\<close>

theorem startup_runs:
  assumes "startup lookup_env os lib list_spokes get_secret
      (load_from_file read_cfg unmarshal getenv path) multi w = (w', Inr (a, reg, manager))"
  shows "main_program lookup_env os lib list_spokes get_secret
        (load_from_file read_cfg unmarshal getenv path) reconcile
        (replicate n TickerFires @ ContextDone # es) channel multi w =
      Ok ((reconcile a reg ^^ Suc n) w', Some (if multi \<and> channel \<noteq> None then 1 else 0)) \<and>
    1 \<le> ad_max_concurrent_targets a \<and> (multi \<or> ad_max_concurrent_targets a = 1) \<and> registry_wf reg \<and>
    map_option (\<lambda>(m, r). rec_namespace r) manager = (if multi then Some (pod_namespace lookup_env) else None)"
  using startup_loaded [OF assms]
  by (simp add: main_program_def assms run_adapter_stops main_exit_def split: option.splits)

definition sample_kube :: "(unit, unit, string list, unit, unit, unit) kube_lib" where
  "sample_kube =
     \<lparr>kl_get_config = (\<lambda>w. (w, Inr ())), kl_new_scheme = [],
      kl_add_core = (\<lambda>s. Inr (s @ [''core''])), kl_add_agentic = (\<lambda>s. Inr (s @ [''agentic''])),
      kl_add_hub = (\<lambda>s. Inr (s @ [''hub''])), kl_client_new = (\<lambda>_ _ w. (w, Inr ())),
      kl_client_scheme = (\<lambda>_. [''core'', ''agentic'', ''hub'']),
      kl_new_manager = (\<lambda>_ _ _ w. (w, Inr ())), kl_manager_client = id, kl_manager_reader = id,
      kl_complete = (\<lambda>_ _ w. (w, None))\<rparr>"

lemma sample_kube_client: "new_kube_client sample_kube () = ((), Inr ())"
  by (simp add: new_kube_client_def new_client_for_config_def client_scheme_def sample_kube_def)

theorem startup_runs_witness:
  "\<exists>a reg. startup (\<lambda>_. None) sample_os sample_kube (\<lambda>_. no_spokes) (\<lambda>_. sample_secret)
      (load_from_file (\<lambda>_. FileNotExist) sample_decoder (\<lambda>_. '''') default_config_path) False () =
      ((), Inr (a, reg, None)) \<and>
    main_program (\<lambda>_. None) sample_os sample_kube (\<lambda>_. no_spokes) (\<lambda>_. sample_secret)
      (load_from_file (\<lambda>_. FileNotExist) sample_decoder (\<lambda>_. '''') default_config_path)
      (\<lambda>_ _ w. w) [TickerFires, ContextDone] None False () = Ok ((), Some 0)"
proof -
  obtain c where "new_targets (\<lambda>_. None) sample_os no_spokes sample_secret run_namespace_default False () =
      ((), Inr [local_target c run_namespace_default False])"
    using sample_targets by blast
  then have s: "startup (\<lambda>_. None) sample_os sample_kube (\<lambda>_. no_spokes) (\<lambda>_. sample_secret)
      (load_from_file (\<lambda>_. FileNotExist) sample_decoder (\<lambda>_. '''') default_config_path) False () =
      ((), Inr (new_with_max_concurrent_targets default_config 1,
        new_target_registry [local_target c run_namespace_default False], None))"
    by (simp add: startup_def multicluster_max_concurrent_targets_def load_from_file_def pod_namespace_def
        run_namespace_default_def sample_kube_client Let_def)
  from startup_runs [OF s, of "\<lambda>_ _ w. w" 1 "[]" None] s show ?thesis by simp
qed

section \<open>A spoke cluster named like the hub\<close>

lemma attempt_create_failed:
  assumes "attempt_create env tgt now n f g p s = (c, s')"
    and "ls_log s' = ls_log s @ [CreationFailed inc m err d]"
  shows "\<exists>v d. env_backoff_get env
      (env_backoff_next env v (creation_backoff_key (target_name tgt) g) now)
      (creation_backoff_key (target_name tgt) g) = (ls_world s', d)"
  using assms
  by (auto simp: attempt_create_def skip_alert_def add_log_def Let_def
      split: prod.splits sum.splits if_splits) blast+

text \<open>
  C39. A SpokeCluster named local shares the backoff of the hub although their identities
  differ: after the creation of a run of a group has failed for the hub, an attempt of
  that group for the spoke at the same time is skipped without a call, when the backoff
  table answers that a key is blocked at the instant it was advanced with.
\<close>

theorem backoff_key_shared_with_local:
  assumes "build_target get_secret os ns spoke w = (w', Some t, logs)" and "spoke_name spoke = ''local''"
    and "\<And>v k. held (env_backoff_next env v k now) k"
    and "\<And>v k k'. held v k \<Longrightarrow> held (fst (env_backoff_get env v k')) k"
    and "\<And>v k. held v k \<Longrightarrow> snd (env_in_backoff env v k now)"
    and "attempt_create env (target.truncate (local_target c ns multi)) now n f g p s = (ctl, s')"
    and "ls_log s' = ls_log s @ [CreationFailed inc m err d]"
    and "ls_world r = ls_world s'"
  shows "ls_calls (snd (attempt_create env (target.truncate t) now n' f' g p' r)) = ls_calls r \<and>
    ls_skipped (snd (attempt_create env (target.truncate t) now n' f' g p' r)) = Suc (ls_skipped r) \<and>
    target_id t \<noteq> target_id (local_target c ns multi)"
proof -
  let ?key = "creation_backoff_key ''local'' g"
  note b = build_target_Some [OF assms(1)]
  have name: "target_name (target.truncate t) = ''local''"
    "target_name (target.truncate (local_target c ns multi)) = ''local''"
    using b(1) assms(2) by (simp_all add: target.defs local_target_def)
  obtain v d where "env_backoff_get env (env_backoff_next env v ?key now) ?key = (ls_world s', d)"
    using attempt_create_failed [OF assms(6,7)] unfolding name by blast
  with assms(4) [OF assms(3), of v ?key ?key] assms(8) have "held (ls_world r) ?key" by simp
  then have "held (fst (env_backoff_get env (ls_world r) ?key)) ?key" by (rule assms(4))
  then have "snd (env_in_backoff env (fst (env_backoff_get env (ls_world r) ?key)) ?key now)" by (rule assms(5))
  then show ?thesis using b(2) assms(2)
    by (auto simp: attempt_create_def name Let_def skip_alert_def add_log_def local_target_def
        spoke_target_id_def spoke_target_prefix_def split: prod.splits)
qed

definition local_spoke :: spoke_cluster where
  "local_spoke = sample_spoke\<lparr>spoke_name := ''local''\<rparr>"

text \<open>A table that remembers the keys it was advanced with, and a store that refuses.\<close>

definition refusing_env :: "string list env" where
  "refusing_env =
     \<lparr>env_get_alerts = \<lambda>w. (w, Inr []), env_list_runs = \<lambda>w. (w, Inr []),
      env_create_run = \<lambda>w p. (w, p, Inl (ExternalError ''refused'')), env_ctx_err = \<lambda>w. (w, False),
      env_now = \<lambda>w. (w, 0), env_backoff_get = \<lambda>w k. (w, if k \<in> set w then minute else 0),
      env_in_backoff = \<lambda>w k t. (w, k \<in> set w), env_backoff_next = \<lambda>w k t. k # w,
      env_backoff_reset = \<lambda>w k. filter (\<lambda>k'. k' \<noteq> k) w\<rparr>"

theorem backoff_key_shared_with_local_witness:
  "\<exists>t s'. build_target sample_secret sample_os ''ns'' local_spoke () = ((), Some t, []) \<and>
     ls_world s' = [creation_backoff_key ''local'' ''01234567''] \<and> ls_calls s' = [sample_run] \<and>
     ls_calls (snd (attempt_create refusing_env (target.truncate t) 0 ''A'' ''f'' ''01234567'' sample_run s')) = [sample_run]"
proof -
  obtain t where t: "build_target sample_secret sample_os ''ns'' local_spoke () = ((), Some t, [])"
    by (simp add: build_target_def sample_secret_def local_spoke_def sample_spoke_def sample_os_def am_new_def
        new_roots_def set_defaults_def Let_def gomap_get_def alertmanager_url_key_def token_key_def
        ca_bundle_key_def)
  let ?hub = "local_target undefined ''ns'' True" and ?s = "loop_start [] [] :: string list loop_state"
  obtain c s' where a: "attempt_create refusing_env (target.truncate ?hub) 0 ''A'' ''f'' ''01234567'' sample_run ?s = (c, s')"
    by fastforce
  then have s': "ls_world s' = [creation_backoff_key ''local'' ''01234567'']" "ls_calls s' = [sample_run]"
    "ls_log s' = ls_log ?s @ [CreationFailed False (run_name sample_run) (ExternalError ''refused'') minute]"
    by (auto simp: attempt_create_def refusing_env_def loop_start_def add_log_def Let_def target.defs
        local_target_def)
  have "spoke_name local_spoke = ''local''" by (simp add: local_spoke_def)
  from backoff_key_shared_with_local [OF t this _ _ _ a s'(3),
      where held = "\<lambda>w k. k \<in> set w" and r = s' and n' = "''A''" and f' = "''f''" and p' = sample_run]
  have "ls_calls (snd (attempt_create refusing_env (target.truncate t) 0 ''A'' ''f'' ''01234567'' sample_run s')) = ls_calls s'"
    by (simp add: refusing_env_def)
  with t s' show ?thesis by auto
qed

end
