(* ===== verification/Adapter_Steps.thy ===== *)
theory Adapter_Steps
  imports Adapter
begin

text \<open>
  An abstract specification of the loop over the alerts of a target and the refinement of
  it by \<^verbatim>\<open>reconcile_alert\<close>.

  The abstract state is what the loop knows and has counted; the outside world is left
  out, so a step stands for every answer the environment may give. The steps are an
  inductive relation; what the loop guarantees is proved of it by rule induction and
  carries over to the code's model by \<^verbatim>\<open>reconcile_alerts_steps\<close>.
\<close>

record view =
  v_runs :: "agentic_run list"
  v_created :: nat
  v_skipped :: nat
  v_unbuilt :: nat
  v_calls :: "agentic_run list"

definition is_build_failed :: "log_entry \<Rightarrow> bool" where
  "is_build_failed l = (case l of BuildFailed _ _ _ \<Rightarrow> True | _ \<Rightarrow> False)"

definition view_of :: "'w loop_state \<Rightarrow> view" where
  "view_of s = \<lparr>v_runs = ls_runs s, v_created = ls_created s, v_skipped = ls_skipped s,
     v_unbuilt = length (filter is_build_failed (ls_log s)), v_calls = ls_calls s\<rparr>"

text \<open>A run that an alert gives and that the loop is about to create.\<close>

definition build_alert :: "config \<Rightarrow> target \<Rightarrow> alert \<Rightarrow> (go_error, agentic_run) outcome" where
  "build_alert cfg tgt a =
     build_for_target a (config_tools cfg) (config_agent cfg) (ignored_labels cfg)
       (target_namespace tgt) (target_id tgt) (if target_id tgt \<noteq> '''' then target_name tgt else '''')"

definition ready :: "phase_fun \<Rightarrow> config \<Rightarrow> target \<Rightarrow> time \<Rightarrow> alert \<Rightarrow> agentic_run list \<Rightarrow> agentic_run \<Rightarrow> bool" where
  "ready phase cfg tgt now a runs p \<longleftrightarrow> filter_alert phase cfg now a runs = None \<and>
     (\<exists>p0. build_alert cfg tgt a = Ok p0 \<and>
        retry_name phase (stable_fingerprint (alert_labels a) (ignored_labels cfg)) runs p0 = Ok p)"

text \<open>The objects the client may hand back for a run that it has created.\<close>

definition may_return :: "'w env \<Rightarrow> agentic_run \<Rightarrow> agentic_run \<Rightarrow> bool" where
  "may_return env p q \<longleftrightarrow> (\<exists>w w'. env_create_run env w p = (w', q, Inr True))"

inductive alert_step ::
  "'w env \<Rightarrow> phase_fun \<Rightarrow> config \<Rightarrow> target \<Rightarrow> time \<Rightarrow> alert option \<Rightarrow> view \<Rightarrow> control \<Rightarrow> view \<Rightarrow> bool"
  for env phase cfg tgt now where
  cancelled: "alert_step env phase cfg tgt now a v ReturnEarly v"
| nil_alert: "alert_step env phase cfg tgt now None v Crash v"
| filtered: "filter_alert phase cfg now a (v_runs v) = Some r \<Longrightarrow>
    alert_step env phase cfg tgt now (Some a) v NextAlert (v\<lparr>v_skipped := Suc (v_skipped v)\<rparr>)"
| not_built: "build_alert cfg tgt a = Err e \<Longrightarrow>
    alert_step env phase cfg tgt now (Some a) v NextAlert (v\<lparr>v_unbuilt := Suc (v_unbuilt v)\<rparr>)"
| no_name: "build_alert cfg tgt a = Ok p \<Longrightarrow> next_available_name (run_name p) (run_names (v_runs v)) = Panic \<Longrightarrow>
    alert_step env phase cfg tgt now (Some a) v Crash v"
| backed_off: "ready phase cfg tgt now a (v_runs v) p \<Longrightarrow>
    alert_step env phase cfg tgt now (Some a) v NextAlert (v\<lparr>v_skipped := Suc (v_skipped v)\<rparr>)"
| not_created: "ready phase cfg tgt now a (v_runs v) p \<Longrightarrow> c \<noteq> Crash \<Longrightarrow>
    alert_step env phase cfg tgt now (Some a) v c (v\<lparr>v_calls := v_calls v @ [p]\<rparr>)"
| created: "ready phase cfg tgt now a (v_runs v) p \<Longrightarrow> may_return env p q \<Longrightarrow>
    alert_step env phase cfg tgt now (Some a) v NextAlert
      (v\<lparr>v_calls := v_calls v @ [p], v_runs := v_runs v @ [q], v_created := Suc (v_created v)\<rparr>)"

inductive alerts_steps ::
  "'w env \<Rightarrow> phase_fun \<Rightarrow> config \<Rightarrow> target \<Rightarrow> time \<Rightarrow> alert option list \<Rightarrow> view \<Rightarrow> control \<Rightarrow> view \<Rightarrow> bool"
  for env phase cfg tgt now where
  no_more: "alerts_steps env phase cfg tgt now [] v NextAlert v"
| again: "alert_step env phase cfg tgt now a v NextAlert v' \<Longrightarrow>
    alerts_steps env phase cfg tgt now as v' c v'' \<Longrightarrow>
    alerts_steps env phase cfg tgt now (a # as) v c v''"
| stop: "alert_step env phase cfg tgt now a v c v' \<Longrightarrow> c \<noteq> NextAlert \<Longrightarrow>
    alerts_steps env phase cfg tgt now (a # as) v c v'"

inductive_cases alert_stepE: "alert_step env phase cfg tgt now a v c v'"

section \<open>The code's model takes only these steps\<close>

lemma view_of_simps [simp]:
  "v_runs (view_of s) = ls_runs s" "v_calls (view_of s) = ls_calls s"
  "v_created (view_of s) = ls_created s" "v_skipped (view_of s) = ls_skipped s"
  "view_of (s\<lparr>ls_world := w\<rparr>) = view_of s"
  "view_of (s\<lparr>ls_runs := rs\<rparr>) = (view_of s)\<lparr>v_runs := rs\<rparr>"
  "view_of (s\<lparr>ls_calls := cs\<rparr>) = (view_of s)\<lparr>v_calls := cs\<rparr>"
  "view_of (s\<lparr>ls_created := n\<rparr>) = (view_of s)\<lparr>v_created := n\<rparr>"
  "view_of (s\<lparr>ls_skipped := n\<rparr>) = (view_of s)\<lparr>v_skipped := n\<rparr>"
  "view_of (add_log l s) =
     (if is_build_failed l then (view_of s)\<lparr>v_unbuilt := Suc (v_unbuilt (view_of s))\<rparr> else view_of s)"
  by (simp_all add: view_of_def add_log_def)

lemma add_log_simps [simp]:
  "ls_runs (add_log l s) = ls_runs s" "ls_calls (add_log l s) = ls_calls s"
  "ls_created (add_log l s) = ls_created s" "ls_skipped (add_log l s) = ls_skipped s"
  "ls_world (add_log l s) = ls_world s"
  by (simp_all add: add_log_def)

lemma is_build_failed_simps [simp]:
  "\<not> is_build_failed (AlertSkipped n f r)" "is_build_failed (BuildFailed n f e)"
  "\<not> is_build_failed (CreationFailed b n e d)" "\<not> is_build_failed (BackoffCleared n d)"
  "\<not> is_build_failed (RunCreated n)" "\<not> is_build_failed (CycleComplete i j k)"
  by (simp_all add: is_build_failed_def)

lemma view_of_skip_alert [simp]:
  "view_of (skip_alert n f r s) = (view_of s)\<lparr>v_skipped := Suc (ls_skipped s)\<rparr>"
  by (simp add: skip_alert_def)

lemma attempt_create_step:
  assumes "ready phase cfg tgt now a (ls_runs s) p"
    and "attempt_create env tgt now n f fp p s = (c, s')"
  shows "alert_step env phase cfg tgt now (Some a) (view_of s) c (view_of s')"
proof -
  let ?key = "creation_backoff_key (target_name tgt) fp"
  obtain w1 prev where g: "env_backoff_get env (ls_world s) ?key = (w1, prev)" by fastforce
  obtain w2 b where b: "env_in_backoff env w1 ?key now = (w2, b)" by fastforce
  obtain w3 q res where cr: "env_create_run env w2 p = (w3, q, res)" by (metis prod_cases3)
  have r: "ready phase cfg tgt now a (v_runs (view_of s)) p" using assms(1) by simp
  show ?thesis
  proof (cases b)
    case True
    with assms(2) g b backed_off [OF r] show ?thesis
      by (auto simp: attempt_create_def Let_def)
  next
    case False
    show ?thesis
    proof (cases res)
      case (Inl err)
      with assms(2) g b cr False not_created [OF r, of c] show ?thesis
        by (auto simp: attempt_create_def Let_def split: prod.splits if_splits)
    next
      case (Inr was)
      show ?thesis
      proof (cases was)
        case True
        have "may_return env p q" using cr Inr True by (auto simp: may_return_def)
        with assms(2) g b cr False Inr True created [OF r, of env q] show ?thesis
          by (auto simp: attempt_create_def Let_def split: if_splits)
      next
        case not_was: False
        with assms(2) g b cr False Inr not_created [OF r, of NextAlert] show ?thesis
          by (auto simp: attempt_create_def Let_def split: if_splits)
      qed
    qed
  qed
qed

lemma retry_name_outcomes:
  "retry_name phase fp runs p = Panic \<Longrightarrow> next_available_name (run_name p) (run_names runs) = Panic"
  "retry_name phase fp runs p \<noteq> Err e"
proof -
  have r: "next_retry b ex i \<noteq> Err e" for b ex i e
  proof (induction b ex i rule: next_retry.induct)
    case (1 b ex i)
    have "retry_candidate b i \<noteq> Err e" for e
      using truncate_dns_not_Err [of b] by (auto simp: retry_candidate_def Let_def bind_outcome_eq_Err)
    with 1 show ?case by (subst next_retry.simps) (auto split: outcome.split)
  qed
  show "retry_name phase fp runs p = Panic \<Longrightarrow> next_available_name (run_name p) (run_names runs) = Panic"
    by (cases "next_available_name (run_name p) (run_names runs)")
      (auto simp: retry_name_def split: if_splits)
  show "retry_name phase fp runs p \<noteq> Err e"
    using r by (auto simp: retry_name_def next_available_name_def bind_outcome_eq_Err split: if_splits)
qed

lemma reconcile_alert_step:
  assumes "reconcile_alert env phase cfg tgt now a s = (c, s')"
  shows "alert_step env phase cfg tgt now a (view_of s) c (view_of s')"
proof -
  obtain w x where e: "env_ctx_err env (ls_world s) = (w, x)" by fastforce
  show ?thesis
  proof (cases x)
    case True
    with e assms cancelled show ?thesis by (auto simp: reconcile_alert_def)
  next
    case False
    show ?thesis
    proof (cases a)
      case None
      with e False assms nil_alert show ?thesis by (auto simp: reconcile_alert_def)
    next
      case (Some al)
      let ?fp = "stable_fingerprint (alert_labels al) (ignored_labels cfg)"
      note eqs = e False assms Some
      show ?thesis
      proof (cases "filter_alert phase cfg now al (ls_runs s)")
        case (Some r)
        have "alert_step env phase cfg tgt now (Some al) (view_of s) NextAlert
            ((view_of s)\<lparr>v_skipped := Suc (v_skipped (view_of s))\<rparr>)"
          by (rule filtered) (use Some in simp)
        with eqs Some show ?thesis by (auto simp: reconcile_alert_def Let_def)
      next
        case None
        note eqs = eqs None build_alert_def [of cfg tgt al, symmetric]
        have np: "build_alert cfg tgt al \<noteq> Panic"
          by (simp add: build_alert_def build_for_target_no_panic)
        show ?thesis
        proof (cases "build_alert cfg tgt al")
          case (Err err)
          with eqs not_built [OF Err] show ?thesis by (auto simp: reconcile_alert_def Let_def)
        next
          case (Ok p)
          show ?thesis
          proof (cases "retry_name phase ?fp (ls_runs s) p")
            case q: (Ok q)
            then have "ready phase cfg tgt now al (ls_runs (s\<lparr>ls_world := w\<rparr>)) q"
              using None Ok by (auto simp: ready_def)
            moreover have "attempt_create env tgt now (gomap_get (alert_labels al) ''alertname'')
                (case alert_fingerprint al of None \<Rightarrow> '''' | Some f \<Rightarrow> f) ?fp q (s\<lparr>ls_world := w\<rparr>) = (c, s')"
              using eqs Ok q by (simp add: reconcile_alert_def Let_def)
            ultimately show ?thesis using Some attempt_create_step by fastforce
          next
            case (Err err)
            with retry_name_outcomes(2) show ?thesis by blast
          next
            case Panic
            from no_name [OF Ok, of "view_of s"] retry_name_outcomes(1) [OF Panic] eqs Ok Panic
            show ?thesis by (auto simp: reconcile_alert_def Let_def)
          qed
        qed (use np in blast)
      qed
    qed
  qed
qed

lemma reconcile_alerts_steps:
  "reconcile_alerts env phase cfg tgt now as s = (c, s') \<Longrightarrow>
   alerts_steps env phase cfg tgt now as (view_of s) c (view_of s')"
proof (induction as arbitrary: s)
  case Nil
  then show ?case by (auto intro: no_more)
next
  case (Cons a as)
  obtain d t where d: "reconcile_alert env phase cfg tgt now a s = (d, t)" by fastforce
  note st = reconcile_alert_step [OF d]
  show ?case
  proof (cases "d = NextAlert")
    case True
    with Cons d st show ?thesis by (auto intro: again)
  next
    case False
    with Cons.prems d have "c = d" "s' = t" by (cases d; simp)+
    with st False show ?thesis by (auto intro: stop)
  qed
qed

section \<open>Invariants of the steps\<close>

lemma alerts_steps_invariant:
  assumes "alerts_steps env phase cfg tgt now as v c v'" and "P v"
    and "\<And>a v c v'. a \<in> set as \<Longrightarrow> alert_step env phase cfg tgt now a v c v' \<Longrightarrow> P v \<Longrightarrow> P v'"
  shows "P v'"
  using assms
proof (induction rule: alerts_steps.induct)
  case (again a v v' as c v'')
  have "P v'" by (rule again.prems(2) [OF _ again.hyps(1) again.prems(1)]) simp
  then show ?case by (rule again.IH) (rule again.prems(2), simp_all)
qed auto

lemma retry_name_Ok:
  assumes "retry_name phase fp runs p0 = Ok p"
  shows "run_labels p = run_labels p0" "run_conditions p = run_conditions p0"
    "run_namespace p = run_namespace p0" "run_spec p = run_spec p0"
  using assms by (auto simp: retry_name_def bind_outcome_Ok_iff split: if_splits)

lemma next_available_name_fresh:
  assumes "next_available_name b ex = Ok n"
  shows "n \<notin> set ex"
proof -
  have "next_retry b ex i = Ok n \<Longrightarrow> n \<notin> set ex" for i
  proof (induction b ex i rule: next_retry.induct)
    case (1 b ex i)
    from "1.prems" obtain x where "retry_candidate b i = Ok x"
      by (subst (asm) next_retry.simps) (auto split: outcome.splits)
    with 1 show ?case by (cases "x \<in> set ex") (auto simp: next_retry.simps [of b ex i])
  qed
  then show ?thesis using assms by (auto simp: next_available_name_def split: if_splits)
qed

lemma retry_name_no_conflict:
  assumes "retry_name phase fp runs p0 = Ok p"
  shows "\<not> has_emergency_stopped_name_conflict phase (run_name p) fp runs"
proof (cases "has_emergency_stopped_name_conflict phase (run_name p0) fp runs")
  case True
  with assms have "run_name p \<notin> set (run_names runs)"
    using next_available_name_fresh by (auto simp: retry_name_def bind_outcome_Ok_iff)
  then show ?thesis by (auto simp: name_conflict_iff run_names_def) (metis image_eqI)
qed (use assms in \<open>auto simp: retry_name_def\<close>)

text \<open>What is known of a run that is about to be created.\<close>

lemma ready_facts:
  assumes "ready phase cfg tgt now a runs p"
  shows "run_group p = stable_fingerprint (alert_labels a) (ignored_labels cfg)"
    and "run_conditions p = []" and "run_namespace p = target_namespace tgt"
    and "spec_target_cluster (run_spec p) = (if target_id tgt \<noteq> '''' then target_name tgt else '''')"
    and "admitted phase cfg now a runs" and "\<not> has_active_run phase (run_group p) runs"
    and "\<not> has_emergency_stopped_name_conflict phase (run_name p) (run_group p) runs"
proof -
  obtain p0 where p0: "build_alert cfg tgt a = Ok p0"
    "retry_name phase (stable_fingerprint (alert_labels a) (ignored_labels cfg)) runs p0 = Ok p"
    and f: "filter_alert phase cfg now a runs = None"
    using assms by (auto simp: ready_def)
  note b = build_for_target_Ok [OF p0(1) [unfolded build_alert_def]] and r = retry_name_Ok [OF p0(2)]
  show g: "run_group p = stable_fingerprint (alert_labels a) (ignored_labels cfg)"
    using b(1) r(1) by (simp add: run_group_def)
  show "run_conditions p = []" "run_namespace p = target_namespace tgt"
    "spec_target_cluster (run_spec p) = (if target_id tgt \<noteq> '''' then target_name tgt else '''')"
    using b r by simp_all
  show "admitted phase cfg now a runs" using f by (simp add: filter_alert_None)
  then show "\<not> has_active_run phase (run_group p) runs"
    by (auto simp: g has_active_run_iff admitted_def)
  show "\<not> has_emergency_stopped_name_conflict phase (run_name p) (run_group p) runs"
    using retry_name_no_conflict [OF p0(2)] by (simp add: g)
qed

lemma admitted_mono: "admitted phase cfg now a runs \<Longrightarrow> set rs \<subseteq> set runs \<Longrightarrow> admitted phase cfg now a rs"
  unfolding admitted_def by blast

text \<open>
  The contract of the run client with the loop: a created object keeps the group of the run
  it was created from, and a new run (whose conditions the adapter leaves empty) is not in a
  terminal phase.
\<close>

definition creates_active :: "'w env \<Rightarrow> phase_fun \<Rightarrow> bool" where
  "creates_active env phase \<longleftrightarrow>
     (\<forall>p q. run_conditions p = [] \<longrightarrow> may_return env p q \<longrightarrow>
        run_group q = run_group p \<and> \<not> is_terminal (phase (run_conditions q)))"

definition new_runs_inv :: "phase_fun \<Rightarrow> agentic_run list \<Rightarrow> view \<Rightarrow> bool" where
  "new_runs_inv phase rs0 v \<longleftrightarrow>
     (\<exists>new. v_runs v = rs0 @ new \<and> length new = v_created v \<and> distinct (map run_group new) \<and>
        (\<forall>q\<in>set new. \<not> is_terminal (phase (run_conditions q)) \<and> \<not> has_active_run phase (run_group q) rs0))"

lemma new_runs_inv_step:
  assumes "alert_step env phase cfg tgt now a v c v'" and "creates_active env phase"
    and "new_runs_inv phase rs0 v"
  shows "new_runs_inv phase rs0 v'"
  using assms(1)
proof cases
  case (created al p q)
  obtain new where new: "v_runs v = rs0 @ new" "length new = v_created v" "distinct (map run_group new)"
    "\<forall>q\<in>set new. \<not> is_terminal (phase (run_conditions q)) \<and> \<not> has_active_run phase (run_group q) rs0"
    using assms(3) by (auto simp: new_runs_inv_def)
  note f = ready_facts [OF created(4)]
  have q: "run_group q = run_group p" "\<not> is_terminal (phase (run_conditions q))"
    using assms(2) created(5) f(2) by (auto simp: creates_active_def)
  have "\<not> has_active_run phase (run_group q) rs0" "run_group q \<notin> run_group ` set new"
    using f(6) new(1,4) q(1) by (auto simp: has_active_run_iff)
  with new q(2) created(3) show ?thesis
    unfolding new_runs_inv_def by (intro exI [of _ "new @ [q]"]) auto
qed (use assms(3) in \<open>auto simp: new_runs_inv_def\<close>)

definition calls_inv ::
  "phase_fun \<Rightarrow> config \<Rightarrow> target \<Rightarrow> time \<Rightarrow> alert option list \<Rightarrow> agentic_run list \<Rightarrow> view \<Rightarrow> bool" where
  "calls_inv phase cfg tgt now as rs0 v \<longleftrightarrow> set rs0 \<subseteq> set (v_runs v) \<and>
     (\<forall>p\<in>set (v_calls v). \<exists>a runs. Some a \<in> set as \<and> set rs0 \<subseteq> set runs \<and>
        ready phase cfg tgt now a runs p)"

lemma calls_inv_step:
  assumes "alert_step env phase cfg tgt now a v c v'" and "a \<in> set as"
    and "calls_inv phase cfg tgt now as rs0 v"
  shows "calls_inv phase cfg tgt now as rs0 v'"
  using assms(1)
  by cases (use assms(2,3) in \<open>auto simp: calls_inv_def\<close>)

text \<open>How many alerts the loop has accounted for.\<close>

definition accounted :: "view \<Rightarrow> nat" where
  "accounted v = v_skipped v + v_unbuilt v + length (v_calls v)"

lemma alerts_steps_accounted:
  "alerts_steps env phase cfg tgt now as v c v' \<Longrightarrow> c = NextAlert \<Longrightarrow>
   accounted v' = accounted v + length as"
proof (induction rule: alerts_steps.induct)
  case (again a v v' as c v'')
  from again.hyps(1) have "accounted v' = Suc (accounted v)"
    by cases (auto simp: accounted_def)
  with again.IH again.prems show ?case by simp
qed auto

lemma alerts_steps_not_Crash:
  "alerts_steps env phase cfg tgt now as v c v' \<Longrightarrow> None \<notin> set as \<Longrightarrow>
   length (v_runs v) + length as < 2 ^ 63 \<Longrightarrow> c \<noteq> Crash"
proof (induction rule: alerts_steps.induct)
  case (again a v v' as c v'')
  from again.hyps(1) have "length (v_runs v') \<le> Suc (length (v_runs v))"
    by cases auto
  with again.IH again.prems show ?case by auto
next
  case (stop a v c v' as)
  have "next_available_name b (run_names (v_runs v)) \<noteq> Panic" for b
    using next_available_name_Ok [of "run_names (v_runs v)" b] stop.prems(2)
    by (auto simp: run_names_def)
  with stop.hyps stop.prems(1) show ?case by (auto elim: alert_stepE)
qed auto

text \<open>The ways the body of the loop can go, with the state it leaves.\<close>

lemma reconcile_alert_cases:
  assumes "reconcile_alert env phase cfg tgt now a s = (c, s')"
  obtains (plain) "s' = s\<lparr>ls_world := fst (env_ctx_err env (ls_world s))\<rparr>"
    | (skipped) n f r where "s' = skip_alert n f r (s\<lparr>ls_world := fst (env_ctx_err env (ls_world s))\<rparr>)"
    | (unbuilt) n f e where
        "s' = add_log (BuildFailed n f e) (s\<lparr>ls_world := fst (env_ctx_err env (ls_world s))\<rparr>)"
    | (attempted) al p n f where "ready phase cfg tgt now al (ls_runs s) p"
        "(c, s') = attempt_create env tgt now n f
           (stable_fingerprint (alert_labels al) (ignored_labels cfg)) p
           (s\<lparr>ls_world := fst (env_ctx_err env (ls_world s))\<rparr>)"
proof -
  obtain w x where e: "env_ctx_err env (ls_world s) = (w, x)" by fastforce
  note eqs = assms e
  show ?thesis
  proof (cases "x \<or> a = None")
    case True
    with eqs have "s' = s\<lparr>ls_world := w\<rparr>" by (cases a) (auto simp: reconcile_alert_def Let_def split: if_splits)
    with e plain show ?thesis by simp
  next
    case False
    then obtain al where al: "\<not> x" "a = Some al" by auto
    let ?fp = "stable_fingerprint (alert_labels al) (ignored_labels cfg)"
    note eqs = eqs al
    show ?thesis
    proof (cases "filter_alert phase cfg now al (ls_runs s)")
      case (Some r)
      with eqs have "s' = skip_alert (gomap_get (alert_labels al) ''alertname'')
          (case alert_fingerprint al of None \<Rightarrow> '''' | Some f \<Rightarrow> f) r (s\<lparr>ls_world := w\<rparr>)"
        by (simp add: reconcile_alert_def Let_def)
      with e skipped show ?thesis by simp
    next
      case None
      note eqs = eqs None build_alert_def [of cfg tgt al, symmetric]
      show ?thesis
      proof (cases "build_alert cfg tgt al")
        case (Err err)
        with eqs have "s' = add_log (BuildFailed (gomap_get (alert_labels al) ''alertname'')
            (case alert_fingerprint al of None \<Rightarrow> '''' | Some f \<Rightarrow> f) err) (s\<lparr>ls_world := w\<rparr>)"
          by (simp add: reconcile_alert_def Let_def)
        with e unbuilt show ?thesis by simp
      next
        case Panic
        with eqs have "s' = s\<lparr>ls_world := w\<rparr>" by (simp add: reconcile_alert_def Let_def)
        with e plain show ?thesis by simp
      next
        case (Ok p)
        show ?thesis
        proof (cases "retry_name phase ?fp (ls_runs s) p")
          case q: (Ok q)
          have "(c, s') = attempt_create env tgt now (gomap_get (alert_labels al) ''alertname'')
              (case alert_fingerprint al of None \<Rightarrow> '''' | Some f \<Rightarrow> f) ?fp q (s\<lparr>ls_world := w\<rparr>)"
            using eqs Ok q by (simp add: reconcile_alert_def Let_def)
          moreover have "ready phase cfg tgt now al (ls_runs s) q"
            using None Ok q by (auto simp: ready_def)
          ultimately show ?thesis using e attempted by simp
        next
          case (Err err)
          with eqs Ok have "s' = s\<lparr>ls_world := w\<rparr>" by (simp add: reconcile_alert_def Let_def)
          with e plain show ?thesis by simp
        next
          case Panic
          with eqs Ok have "s' = s\<lparr>ls_world := w\<rparr>" by (simp add: reconcile_alert_def Let_def)
          with e plain show ?thesis by simp
        qed
      qed
    qed
  qed
qed

end
