(* ===== verification/Adapter_Reconcile.thy ===== *)
theory Adapter_Reconcile
  imports Adapter_Steps
begin

text \<open>
  What one reconciliation of a target guarantees, for every environment: the properties of
  the steps of theory \<^verbatim>\<open>Adapter_Steps\<close> carried over to \<^verbatim>\<open>reconcile_target\<close>, and the
  properties that depend on the answers of the environment.
\<close>

text \<open>The answers a reconciliation starts from when both reads succeed.\<close>

definition cycle_start ::
  "'w env \<Rightarrow> 'w \<Rightarrow> alert option list \<Rightarrow> agentic_run list \<Rightarrow> time \<Rightarrow> 'w \<Rightarrow> bool" where
  "cycle_start env w alerts runs now w3 \<longleftrightarrow>
     (\<exists>w1 w2. env_get_alerts env w = (w1, Inr alerts) \<and> env_list_runs env w1 = (w2, Inr runs) \<and>
        env_now env w2 = (w3, now))"

lemma reconcile_target_start:
  assumes "cycle_start env w alerts runs now w3"
  shows "reconcile_target env phase cfg tgt w =
    (case reconcile_alerts env phase cfg tgt now alerts (loop_start w3 runs) of
       (c, s) \<Rightarrow> (c, if c = NextAlert
                     then add_log (CycleComplete (length alerts) (ls_skipped s) (ls_created s)) s
                     else s))"
  using assms
  by (auto simp: cycle_start_def reconcile_target_def split: prod.split control.split)

lemma reconcile_target_steps:
  assumes "cycle_start env w alerts runs now w3" and "reconcile_target env phase cfg tgt w = (c, s)"
  shows "alerts_steps env phase cfg tgt now alerts (view_of (loop_start w3 runs)) c (view_of s)"
  using assms reconcile_alerts_steps [of env phase cfg tgt now alerts "loop_start w3 runs"]
  by (auto simp: reconcile_target_start split: prod.splits if_splits)

lemma reconcile_target_not_started:
  assumes "\<nexists>alerts runs now w3. cycle_start env w alerts runs now w3"
  shows "ls_calls (snd (reconcile_target env phase cfg tgt w)) = []"
proof -
  obtain w1 x where a: "env_get_alerts env w = (w1, x)" by fastforce
  show ?thesis
  proof (cases x)
    case (Inl e)
    with a show ?thesis by (simp add: reconcile_target_def loop_start_def)
  next
    case x: (Inr alerts)
    obtain w2 y where l: "env_list_runs env w1 = (w2, y)" by fastforce
    obtain w3 now where n: "env_now env w2 = (w3, now)" by fastforce
    show ?thesis
    proof (cases y)
      case (Inl e)
      with a x l show ?thesis by (simp add: reconcile_target_def loop_start_def)
    next
      case (Inr runs)
      with a x l n assms show ?thesis by (auto simp: cycle_start_def)
    qed
  qed
qed

lemma loop_start_simps [simp]:
  "ls_runs (loop_start w rs) = rs" "ls_calls (loop_start w rs) = []" "ls_created (loop_start w rs) = 0"
  "ls_skipped (loop_start w rs) = 0" "ls_world (loop_start w rs) = w" "ls_log (loop_start w rs) = []"
  by (simp_all add: loop_start_def)

lemma accounted_view_of:
  "accounted (view_of s) = ls_skipped s + length (filter is_build_failed (ls_log s)) + length (ls_calls s)"
  by (simp add: accounted_def view_of_def)

section \<open>An environment for the witnesses\<close>

definition sample_alert :: alert where
  "sample_alert = \<lparr>alert_labels = [(''alertname'', ''A'')], alert_annotations = [],
     alert_fingerprint = Some ''0123456789'', alert_starts_at = Some 0,
     alert_receivers = [Some \<lparr>receiver_name = Some ''ops''\<rparr>]\<rparr>"

definition sample_config :: config where
  "sample_config = default_config\<lparr>allowed_receivers := [''ops'']\<rparr>"

definition sample_target :: target where
  "sample_target = \<lparr>target_name = ''local'', target_id = '''', target_namespace = ''ns''\<rparr>"

definition pending_phase :: phase_fun where
  "pending_phase cs = (if cs = [] then OtherPhase ''Pending'' else PhaseCompleted)"

definition sample_env :: "bool \<Rightarrow> bool \<Rightarrow> unit env" where
  "sample_env cancelled blocked =
     \<lparr>env_get_alerts = \<lambda>w. (w, Inr [Some sample_alert]), env_list_runs = \<lambda>w. (w, Inr []),
      env_create_run = \<lambda>w p. (w, p, Inr True), env_ctx_err = \<lambda>w. (w, cancelled),
      env_now = \<lambda>w. (w, 0), env_backoff_get = \<lambda>w k. (w, 0), env_in_backoff = \<lambda>w k t. (w, blocked),
      env_backoff_next = \<lambda>w k t. w, env_backoff_reset = \<lambda>w k. w\<rparr>"

lemma sample_start: "cycle_start (sample_env b c) () [Some sample_alert] [] 0 ()"
  by (simp add: cycle_start_def sample_env_def)

lemma sample_not_skipped: "filter_alert pending_phase sample_config 0 sample_alert [] = None"
  by (simp add: filter_alert_def skip_receiver_def sample_alert_def sample_config_def Let_def
      default_defs)

lemma sample_creates:
  "\<exists>p s. reconcile_target (sample_env False False) pending_phase sample_config sample_target () =
    (NextAlert, s) \<and> ls_calls s = [p] \<and> ls_runs s = [p] \<and> ls_created s = 1"
proof -
  have "alert_fingerprint sample_alert = Some ''0123456789''" "alert_starts_at sample_alert = Some 0"
    by (simp_all add: sample_alert_def)
  from build_for_target_Ok_ex [OF this]
  obtain p where p: "build_alert sample_config sample_target sample_alert = Ok p"
    unfolding build_alert_def by blast
  then have "retry_name pending_phase fp [] p = Ok p" for fp
    by (simp add: retry_name_def)
  with p have "reconcile_alert (sample_env False False) pending_phase sample_config sample_target 0
      (Some sample_alert) (loop_start () []) =
    (NextAlert, add_log (RunCreated (run_name p))
      \<lparr>ls_world = (), ls_runs = [p], ls_created = 1, ls_skipped = 0, ls_log = [], ls_calls = [p]\<rparr>)"
    by (simp add: reconcile_alert_def sample_not_skipped build_alert_def [symmetric] attempt_create_def
        sample_env_def Let_def loop_start_def)
  then show ?thesis
    by (simp add: reconcile_target_start [OF sample_start])
qed

section \<open>Refinement\<close>

text \<open>
  C4. The reconciliation of a target refines the abstract loop: for every environment,
  what it knows and counts evolves by the steps cancelled, filtered, not built, backed
  off, not created and created, starting from the listed runs.
\<close>

theorem reconcile_target_refines:
  assumes "cycle_start env w alerts runs now w3" and "reconcile_target env phase cfg tgt w = (c, s)"
  shows "alerts_steps env phase cfg tgt now alerts
    \<lparr>v_runs = runs, v_created = 0, v_skipped = 0, v_unbuilt = 0, v_calls = []\<rparr> c (view_of s)"
  using reconcile_target_steps [OF assms] by (simp add: view_of_def loop_start_def)

theorem reconcile_target_refines_witness:
  "\<exists>s :: unit loop_state. alerts_steps (sample_env False False) pending_phase sample_config sample_target 0
     [Some sample_alert] \<lparr>v_runs = [], v_created = 0, v_skipped = 0, v_unbuilt = 0, v_calls = []\<rparr>
     NextAlert (view_of s)"
proof -
  obtain p s where s: "reconcile_target (sample_env False False) pending_phase sample_config
      sample_target () = (NextAlert, s)"
    using sample_creates by blast
  from reconcile_target_refines [OF sample_start s] show ?thesis by blast
qed

section \<open>What is created\<close>

text \<open>
  C2. Every run a reconciliation tries to create comes from an alert of the source that
  passes all filters against the runs that were listed: an allowed receiver, a start time
  at least the pre-run delay old, no active run of its group and none inside the post-run
  delay; it carries the fingerprint of that group, the namespace and cluster of the
  target, and no name of an emergency-stopped run of the group.
\<close>

theorem reconcile_target_calls:
  assumes "reconcile_target env phase cfg tgt w = (c, s)" and "p \<in> set (ls_calls s)"
  shows "\<exists>alerts runs now w3 a. cycle_start env w alerts runs now w3 \<and> Some a \<in> set alerts \<and>
    admitted phase cfg now a runs \<and>
    run_group p = stable_fingerprint (alert_labels a) (ignored_labels cfg) \<and>
    run_namespace p = target_namespace tgt \<and>
    spec_target_cluster (run_spec p) = (if target_id tgt \<noteq> '''' then target_name tgt else '''') \<and>
    \<not> has_emergency_stopped_name_conflict phase (run_name p) (run_group p) runs"
proof -
  have "ls_calls (snd (reconcile_target env phase cfg tgt w)) \<noteq> []" using assms by auto
  then obtain alerts runs now w3 where st: "cycle_start env w alerts runs now w3"
    using reconcile_target_not_started [of env w phase cfg tgt] by blast
  have "calls_inv phase cfg tgt now alerts runs (view_of s)"
    by (rule alerts_steps_invariant [OF reconcile_target_steps [OF st assms(1)]])
      (auto simp: calls_inv_def [of _ _ _ _ _ _ "view_of (loop_start w3 runs)"] intro: calls_inv_step)
  then obtain a rs where a: "Some a \<in> set alerts" "set runs \<subseteq> set rs" "ready phase cfg tgt now a rs p"
    using assms(2) by (auto simp: calls_inv_def)
  note f = ready_facts [OF a(3)]
  have "\<not> has_emergency_stopped_name_conflict phase (run_name p) (run_group p) runs"
    using f(7) a(2) by (auto simp: name_conflict_iff)
  with st a(1) f admitted_mono [OF f(5) a(2)] show ?thesis by blast
qed

theorem reconcile_target_calls_witness:
  "\<exists>p s. reconcile_target (sample_env False False) pending_phase sample_config sample_target () =
     (NextAlert, s) \<and> p \<in> set (ls_calls s) \<and> run_namespace p = ''ns''"
proof -
  obtain p s where s: "reconcile_target (sample_env False False) pending_phase sample_config
      sample_target () = (NextAlert, s)" "ls_calls s = [p]"
    using sample_creates by blast
  then have "p \<in> set (ls_calls s)" by simp
  from reconcile_target_calls [OF s(1) this] this s show ?thesis
    by (auto simp: sample_target_def)
qed

text \<open>
  C3. Within one reconciliation at most one run is created per group of alerts, and only
  for groups without an active run, provided the client returns a created run with its
  group label and in a phase that is not terminal.
\<close>

theorem reconcile_target_one_per_group:
  assumes "cycle_start env w alerts runs now w3" and "reconcile_target env phase cfg tgt w = (c, s)"
    and "creates_active env phase"
  shows "\<exists>new. ls_runs s = runs @ new \<and> length new = ls_created s \<and> distinct (map run_group new) \<and>
    (\<forall>q\<in>set new. \<not> is_terminal (phase (run_conditions q)) \<and>
       \<not> has_active_run phase (run_group q) runs)"
proof -
  have "new_runs_inv phase runs (view_of s)"
    by (rule alerts_steps_invariant [OF reconcile_target_steps [OF assms(1,2)]])
      (auto simp: new_runs_inv_def [of _ _ "view_of (loop_start w3 runs)"]
        intro: new_runs_inv_step assms(3))
  then show ?thesis by (simp add: new_runs_inv_def)
qed

lemma sample_creates_active: "creates_active (sample_env b c) pending_phase"
  by (auto simp: creates_active_def may_return_def sample_env_def pending_phase_def is_terminal_def)

theorem reconcile_target_one_per_group_witness:
  "\<exists>s new. reconcile_target (sample_env False False) pending_phase sample_config sample_target () =
     (NextAlert, s) \<and> ls_runs s = new \<and> length new = 1 \<and> distinct (map run_group new)"
proof -
  obtain p s where s: "reconcile_target (sample_env False False) pending_phase sample_config
      sample_target () = (NextAlert, s)" "ls_created s = 1"
    using sample_creates by blast
  from reconcile_target_one_per_group [OF sample_start s(1) sample_creates_active] s
  show ?thesis by auto
qed

section \<open>Accounting and panics\<close>

lemma view_of_loop_start: "accounted (view_of (loop_start w rs)) = 0"
  by (simp add: accounted_view_of)

lemma created_le_calls_step:
  assumes "alert_step env phase cfg tgt now a v c v'" and "v_created v \<le> length (v_calls v)"
  shows "v_created v' \<le> length (v_calls v')"
  using assms(1) by cases (use assms(2) in auto)

text \<open>
  C6. A reconciliation that is not cut short accounts for every alert exactly once, as
  skipped, as a failed build or as a call to create a run, and its last log record reports
  the totals.
\<close>

theorem reconcile_target_complete:
  assumes "cycle_start env w alerts runs now w3"
    and "reconcile_target env phase cfg tgt w = (NextAlert, s)"
  shows "ls_skipped s + length (filter is_build_failed (ls_log s)) + length (ls_calls s) = length alerts \<and>
    ls_created s \<le> length (ls_calls s) \<and>
    last (ls_log s) = CycleComplete (length alerts) (ls_skipped s) (ls_created s)"
proof -
  note st = reconcile_target_steps [OF assms]
  have "accounted (view_of s) = length alerts"
    using alerts_steps_accounted [OF st] by (simp add: view_of_loop_start)
  moreover have "v_created (view_of s) \<le> length (v_calls (view_of s))"
    by (rule alerts_steps_invariant [OF st, of "\<lambda>v. v_created v \<le> length (v_calls v)"])
      (auto intro: created_le_calls_step)
  moreover obtain t where "s = add_log (CycleComplete (length alerts) (ls_skipped t) (ls_created t)) t"
    using assms(2) by (auto simp: reconcile_target_start [OF assms(1)] split: prod.splits if_splits)
  then have "last (ls_log s) = CycleComplete (length alerts) (ls_skipped s) (ls_created s)"
    by (simp add: add_log_def)
  ultimately show ?thesis by (simp add: accounted_view_of)
qed

theorem reconcile_target_complete_witness:
  "\<exists>s. reconcile_target (sample_env False False) pending_phase sample_config sample_target () =
     (NextAlert, s) \<and> ls_skipped s = 0 \<and> last (ls_log s) = CycleComplete 1 0 1"
proof -
  obtain p s where s: "reconcile_target (sample_env False False) pending_phase sample_config
      sample_target () = (NextAlert, s)" "ls_created s = 1" "ls_calls s = [p]"
    using sample_creates by blast
  from reconcile_target_complete [OF sample_start s(1)] s show ?thesis by auto
qed

text \<open>
  C5. A reconciliation never panics as long as the alert source returns no nil alert:
  missing labels, fingerprints, start times and receivers, long names and name conflicts
  are all handled.
\<close>

theorem reconcile_target_no_panic:
  assumes "cycle_start env w alerts runs now w3" and "None \<notin> set alerts"
    and "length runs + length alerts < 2 ^ 63"
  shows "fst (reconcile_target env phase cfg tgt w) \<noteq> Crash"
proof -
  obtain c s where r: "reconcile_target env phase cfg tgt w = (c, s)" by fastforce
  from alerts_steps_not_Crash [OF reconcile_target_steps [OF assms(1) r] assms(2)] assms(3) r
  show ?thesis by simp
qed

theorem reconcile_target_no_panic_witness:
  "fst (reconcile_target (sample_env False False) pending_phase sample_config sample_target ()) \<noteq> Crash"
  by (rule reconcile_target_no_panic [OF sample_start]) simp_all

section \<open>Backoff and cancellation\<close>

lemma reconcile_alerts_calls_invariant:
  assumes "\<And>a s c s'. reconcile_alert env phase cfg tgt now a s = (c, s') \<Longrightarrow> P (ls_calls s) \<Longrightarrow> P (ls_calls s')"
    and "P (ls_calls s)"
  shows "P (ls_calls (snd (reconcile_alerts env phase cfg tgt now as s)))"
  using assms(2)
proof (induction as arbitrary: s)
  case (Cons a as)
  obtain c t where "reconcile_alert env phase cfg tgt now a s = (c, t)" by fastforce
  with Cons assms(1) show ?case by (cases c) auto
qed simp

lemma reconcile_target_calls_invariant:
  assumes "\<And>now a s c s'. reconcile_alert env phase cfg tgt now a s = (c, s') \<Longrightarrow> P (ls_calls s) \<Longrightarrow> P (ls_calls s')"
    and "P []"
  shows "P (ls_calls (snd (reconcile_target env phase cfg tgt w)))"
proof (cases "\<exists>alerts runs now w3. cycle_start env w alerts runs now w3")
  case True
  then obtain alerts runs now w3 where st: "cycle_start env w alerts runs now w3" by blast
  from reconcile_alerts_calls_invariant [of env phase cfg tgt now P "loop_start w3 runs" alerts, OF assms(1)]
  show ?thesis using assms(2)
    by (auto simp: reconcile_target_start [OF st] split: prod.splits)
next
  case False
  then show ?thesis using reconcile_target_not_started [of env w phase cfg tgt] assms(2) by simp
qed

lemma reconcile_target_cancelled:
  assumes "\<And>w. snd (env_ctx_err env w)"
  shows "ls_calls (snd (reconcile_target env phase cfg tgt w)) = []"
proof (rule reconcile_target_calls_invariant)
  fix now a s c s'
  assume "reconcile_alert env phase cfg tgt now a s = (c, s')" and "ls_calls s = []"
  with assms [of "ls_world s"] show "ls_calls s' = []"
    by (auto simp: reconcile_alert_def split: prod.splits)
qed simp

lemma attempt_create_blocked:
  assumes "\<And>w. snd (env_in_backoff env w (creation_backoff_key (target_name tgt) fp) now)"
  shows "ls_calls (snd (attempt_create env tgt now n f fp p s)) = ls_calls s"
proof -
  let ?key = "creation_backoff_key (target_name tgt) fp"
  obtain w1 prev where g: "env_backoff_get env (ls_world s) ?key = (w1, prev)" by fastforce
  obtain w2 b where b: "env_in_backoff env w1 ?key now = (w2, b)" by fastforce
  with assms [of w1] have b by simp
  with g b show ?thesis by (simp add: attempt_create_def skip_alert_def add_log_def)
qed

lemma attempt_create_calls:
  "set (ls_calls (snd (attempt_create env tgt now n f fp p s))) \<subseteq> insert p (set (ls_calls s))"
  by (auto simp: attempt_create_def skip_alert_def add_log_def Let_def split: prod.splits sum.splits)

text \<open>
  C8. While the backoff table blocks the key of a target and a group, a reconciliation of
  the target makes no attempt to create a run of that group.
\<close>

theorem reconcile_target_backoff:
  assumes "\<And>w t. snd (env_in_backoff env w (creation_backoff_key (target_name tgt) g) t)"
  shows "g \<notin> run_group ` set (ls_calls (snd (reconcile_target env phase cfg tgt w)))"
proof (rule reconcile_target_calls_invariant)
  fix now a s c s'
  assume r: "reconcile_alert env phase cfg tgt now a s = (c, s')"
    and inv: "g \<notin> run_group ` set (ls_calls s)"
  from r show "g \<notin> run_group ` set (ls_calls s')"
  proof (cases rule: reconcile_alert_cases)
    case (attempted al p n f)
    note g = ready_facts(1) [OF attempted(1)]
    let ?s = "s\<lparr>ls_world := fst (env_ctx_err env (ls_world s))\<rparr>"
    have s': "s' = snd (attempt_create env tgt now n f
        (stable_fingerprint (alert_labels al) (ignored_labels cfg)) p ?s)"
      using attempted(2) by (metis snd_conv)
    show ?thesis
    proof (cases "run_group p = g")
      case True
      then have "ls_calls s' = ls_calls ?s" unfolding s' g
        by (rule_tac attempt_create_blocked) (use assms g in simp)
      with inv show ?thesis by simp
    next
      case False
      have "set (ls_calls s') \<subseteq> insert p (set (ls_calls ?s))"
        unfolding s' by (rule attempt_create_calls)
      with False inv show ?thesis by auto
    qed
  qed (use inv in \<open>simp_all add: skip_alert_def add_log_def\<close>)
qed simp

theorem reconcile_target_backoff_witness:
  "stable_fingerprint [(''alertname'', ''A'')] default_ignored_labels \<notin>
   run_group ` set (ls_calls (snd (reconcile_target (sample_env False True) pending_phase sample_config sample_target ())))"
  by (rule reconcile_target_backoff) (simp add: sample_env_def)

end
