(* ===== verification/Run_Store.thy ===== *)
theory Run_Store
  imports Adapter_Reconcile
begin

text \<open>
  The contract between the loop and the store of runs, as a locale, and what the loop
  guarantees about the store under it: beyond the runs that others have activated, a group
  of alerts never has two active runs.

  \<^verbatim>\<open>stored\<close> is what the store holds for the target, \<^verbatim>\<open>foreign\<close> counts per group the runs that
  became active by the doing of others, and \<^verbatim>\<open>held\<close> are the keys and instants at which the
  backoff table answers that the key is blocked. Every call to the environment lets time
  pass (\<^verbatim>\<open>calm\<close>): other parties may do anything to the runs, but an increase of the active
  runs of a group is counted. A call that creates a run may fail before or after the run was
  stored. Theory \<^verbatim>\<open>Run_Lifecycle\<close> interprets the locale.
\<close>

section \<open>Active runs\<close>

definition active :: "phase_fun \<Rightarrow> agentic_run \<Rightarrow> bool" where
  "active phase r \<longleftrightarrow> \<not> is_terminal (phase (run_conditions r))"

definition active_count :: "phase_fun \<Rightarrow> string \<Rightarrow> agentic_run list \<Rightarrow> nat" where
  "active_count phase g rs = length (filter (\<lambda>r. run_group r = g \<and> active phase r) rs)"

lemma active_count_Nil [simp]: "active_count phase g [] = 0"
  by (simp add: active_count_def)

lemma active_count_append [simp]:
  "active_count phase g (rs @ rs') = active_count phase g rs + active_count phase g rs'"
  by (simp add: active_count_def)

lemma active_count_Cons [simp]:
  "active_count phase g (r # rs) =
     (if run_group r = g \<and> active phase r then 1 else 0) + active_count phase g rs"
  by (simp add: active_count_def)

lemma active_count_filter: "active_count phase g (filter P rs) \<le> active_count phase g rs"
  by (induction rs) auto

lemma has_active_run_count: "has_active_run phase g rs \<longleftrightarrow> 0 < active_count phase g rs"
  by (induction rs) (auto simp: active_def)

section \<open>The passing of time\<close>

text \<open>\<^verbatim>\<open>extra\<close> is how many runs of a group the call itself may have activated.\<close>

definition drift ::
  "phase_fun \<Rightarrow> ('w \<Rightarrow> agentic_run list) \<Rightarrow> ('w \<Rightarrow> string \<Rightarrow> nat) \<Rightarrow> (string \<Rightarrow> nat) \<Rightarrow> 'w \<Rightarrow> 'w \<Rightarrow> bool" where
  "drift phase stored foreign extra w w' \<longleftrightarrow>
     (\<forall>g. foreign w g \<le> foreign w' g \<and>
       active_count phase g (stored w') + foreign w g \<le>
         extra g + active_count phase g (stored w) + foreign w' g)"

definition keeps :: "('w \<Rightarrow> string \<Rightarrow> time \<Rightarrow> bool) \<Rightarrow> 'w \<Rightarrow> 'w \<Rightarrow> bool" where
  "keeps held w w' \<longleftrightarrow> (\<forall>k t. held w k t \<longrightarrow> held w' k t)"

definition calm ::
  "phase_fun \<Rightarrow> ('w \<Rightarrow> agentic_run list) \<Rightarrow> ('w \<Rightarrow> string \<Rightarrow> nat) \<Rightarrow> ('w \<Rightarrow> string \<Rightarrow> time \<Rightarrow> bool)
   \<Rightarrow> 'w \<Rightarrow> 'w \<Rightarrow> bool" where
  "calm phase stored foreign held w w' \<longleftrightarrow>
     drift phase stored foreign (\<lambda>_. 0) w w' \<and> keeps held w w'"

definition one_of :: "string \<Rightarrow> string \<Rightarrow> nat" where
  "one_of fp g = (if g = fp then 1 else 0)"

lemma drift_weaken:
  assumes "drift phase stored foreign (\<lambda>_. 0) w w'"
  shows "drift phase stored foreign extra w w'"
  unfolding drift_def
proof
  fix g
  from assms [unfolded drift_def, rule_format, of g]
  show "foreign w g \<le> foreign w' g \<and> active_count phase g (stored w') + foreign w g \<le>
      extra g + active_count phase g (stored w) + foreign w' g"
    by linarith
qed

locale run_store =
  fixes env :: "'w env" and phase :: phase_fun and stored :: "'w \<Rightarrow> agentic_run list"
    and foreign :: "'w \<Rightarrow> string \<Rightarrow> nat" and held :: "'w \<Rightarrow> string \<Rightarrow> time \<Rightarrow> bool"
  assumes alerts_calm: "calm phase stored foreign held w (fst (env_get_alerts env w))"
    and ctx_err_calm: "calm phase stored foreign held w (fst (env_ctx_err env w))"
    and now_calm: "calm phase stored foreign held w (fst (env_now env w))"
    and backoff_get_calm: "calm phase stored foreign held w (fst (env_backoff_get env w k))"
    and in_backoff_calm: "calm phase stored foreign held w (fst (env_in_backoff env w k t))"
    and in_backoff_held: "held w k t \<Longrightarrow> snd (env_in_backoff env w k t)"
    and backoff_next_calm: "calm phase stored foreign held w (env_backoff_next env w k t)"
    and backoff_next_held: "held (env_backoff_next env w k t) k t"
    and backoff_reset_drift: "drift phase stored foreign (\<lambda>_. 0) w (env_backoff_reset env w k)"
    and backoff_reset_held: "held w k' t \<Longrightarrow> k' \<noteq> k \<Longrightarrow> held (env_backoff_reset env w k) k' t"
    and list_calm: "calm phase stored foreign held w (fst (env_list_runs env w))"
    and list_snapshot: "env_list_runs env w = (w', Inr rs) \<Longrightarrow> rs = stored w'"
    and create_exists: "env_create_run env w p = (w', q, Inr False) \<Longrightarrow> calm phase stored foreign held w w'"
    and create_keeps: "env_create_run env w p = (w', q, res) \<Longrightarrow> keeps held w w'"
    and create_failed: "env_create_run env w p = (w', q, Inl err) \<Longrightarrow>
      drift phase stored foreign (one_of (run_group p)) w w'"
    and create_new: "env_create_run env w p = (w', q, Inr True) \<Longrightarrow> run_conditions p = [] \<Longrightarrow>
      run_group q = run_group p \<and> active phase q \<and>
      drift phase stored foreign (one_of (run_group p)) w w'"
begin

text \<open>
  What the loop of a target knows: beyond the foreign ones, a group has an active run only
  when the loop has it in its runs or the table holds the key of the group; the groups in
  \<^verbatim>\<open>owed\<close> are exempt.
\<close>

definition known :: "string \<Rightarrow> time \<Rightarrow> string set \<Rightarrow> agentic_run list \<Rightarrow> 'w \<Rightarrow> string \<Rightarrow> nat" where
  "known name now owed runs w g =
     (if g \<in> owed \<or> has_active_run phase g runs \<or> held w (creation_backoff_key name g) now then 1 else 0)"

definition covered :: "string \<Rightarrow> time \<Rightarrow> string set \<Rightarrow> agentic_run list \<Rightarrow> 'w \<Rightarrow> bool" where
  "covered name now owed runs w \<longleftrightarrow>
     (\<forall>g. active_count phase g (stored w) \<le> known name now owed runs w g + foreign w g)"

text \<open>No active run of the group but foreign ones.\<close>

definition bare :: "string \<Rightarrow> 'w \<Rightarrow> bool" where
  "bare g w \<longleftrightarrow> active_count phase g (stored w) \<le> foreign w g"

definition one_active :: "'w \<Rightarrow> bool" where
  "one_active w \<longleftrightarrow> (\<forall>g. active_count phase g (stored w) \<le> 1 + foreign w g)"

lemma driftD:
  assumes "drift phase stored foreign extra w w'"
  shows "active_count phase g (stored w') + foreign w g \<le>
      extra g + active_count phase g (stored w) + foreign w' g"
  using assms by (simp add: drift_def)

lemma covered_one_active:
  assumes "covered name now owed runs w"
  shows "one_active w"
  unfolding one_active_def
proof
  fix g
  have "known name now owed runs w g \<le> 1" by (simp add: known_def)
  moreover have "active_count phase g (stored w) \<le> known name now owed runs w g + foreign w g"
    using assms by (simp add: covered_def)
  ultimately show "active_count phase g (stored w) \<le> 1 + foreign w g" by linarith
qed

lemma one_active_calm:
  assumes "one_active w" and "calm phase stored foreign held w w'"
  shows "one_active w'"
  unfolding one_active_def
proof
  fix g
  have "drift phase stored foreign (\<lambda>_. 0) w w'" using assms(2) by (simp add: calm_def)
  from driftD [OF this, of g] assms(1) [unfolded one_active_def, rule_format, of g]
  show "active_count phase g (stored w') \<le> 1 + foreign w' g" by simp
qed

lemma bare_drift: "bare g w \<Longrightarrow> drift phase stored foreign (\<lambda>_. 0) w w' \<Longrightarrow> bare g w'"
  unfolding bare_def using driftD [of "\<lambda>_. 0" w w' g] by simp

lemma bare_calm: "bare g w \<Longrightarrow> calm phase stored foreign held w w' \<Longrightarrow> bare g w'"
  by (auto simp: calm_def intro: bare_drift)

text \<open>
  The general step: the groups a call adds to have no active run of their own before it, and
  what was known stays known unless it is owed afterwards.
\<close>

lemma covered_drift:
  assumes "covered name now owed runs w" and "drift phase stored foreign extra w w'"
    and "\<And>g. extra g \<noteq> 0 \<Longrightarrow> bare g w \<and> extra g = 1 \<and> g \<in> owed'"
    and "\<And>g. known name now owed runs w g \<le> known name now owed' runs w' g"
  shows "covered name now owed' runs w'"
  unfolding covered_def
proof
  fix g
  have c: "active_count phase g (stored w) \<le> known name now owed runs w g + foreign w g"
    using assms(1) by (simp add: covered_def)
  note d = driftD [OF assms(2), of g]
  show "active_count phase g (stored w') \<le> known name now owed' runs w' g + foreign w' g"
  proof (cases "extra g = 0")
    case True
    with c d assms(4) [of g] show ?thesis by linarith
  next
    case False
    from assms(3) [OF this] have "active_count phase g (stored w) \<le> foreign w g" "extra g = 1"
      "known name now owed' runs w' g = 1"
      by (simp_all add: bare_def known_def)
    with d show ?thesis by linarith
  qed
qed

lemma covered_calm:
  assumes "covered name now owed runs w" and "calm phase stored foreign held w w'"
  shows "covered name now owed runs w'"
  by (rule covered_drift [OF assms(1), of "\<lambda>_. 0"])
    (use assms(2) in \<open>auto simp: calm_def keeps_def known_def\<close>)

lemma covered_create:
  assumes "covered name now {} runs w" and "bare fp w"
    and "drift phase stored foreign (one_of fp) w w'" and "keeps held w w'"
  shows "covered name now {fp} runs w'"
  by (rule covered_drift [OF assms(1,3)])
    (use assms(2,4) in \<open>auto simp: one_of_def keeps_def known_def split: if_splits\<close>)

lemma covered_reset:
  assumes "covered name now owed runs w"
  shows "covered name now (insert fp owed) runs (env_backoff_reset env w (creation_backoff_key name fp))"
proof (rule covered_drift [OF assms backoff_reset_drift])
  have "held (env_backoff_reset env w (creation_backoff_key name fp)) (creation_backoff_key name g) now"
    if "held w (creation_backoff_key name g) now" "g \<noteq> fp" for g
    using that backoff_reset_held by (simp add: creation_backoff_key_def)
  then show "known name now owed runs w g \<le>
      known name now (insert fp owed) runs (env_backoff_reset env w (creation_backoff_key name fp)) g" for g
    by (auto simp: known_def)
qed simp

text \<open>A debt is paid by an active run in the list, by the hold of the key, or was none.\<close>

lemma covered_paid:
  assumes "covered name now (insert fp owed) runs w"
    and "has_active_run phase fp runs \<or> held w (creation_backoff_key name fp) now \<or> bare fp w"
  shows "covered name now owed runs w"
  unfolding covered_def
proof
  fix g
  have c: "active_count phase g (stored w) \<le> known name now (insert fp owed) runs w g + foreign w g"
    using assms(1) by (simp add: covered_def)
  show "active_count phase g (stored w) \<le> known name now owed runs w g + foreign w g"
  proof (cases "g = fp \<and> bare fp w")
    case True
    then show ?thesis by (simp add: bare_def trans_le_add2)
  next
    case False
    with assms(2) have "known name now (insert fp owed) runs w g = known name now owed runs w g"
      by (auto simp: known_def)
    with c show ?thesis by simp
  qed
qed

lemma covered_more:
  assumes "covered name now owed runs w"
  shows "covered name now owed (runs @ rs) w"
  unfolding covered_def
proof
  fix g
  have "known name now owed runs w g \<le> known name now owed (runs @ rs) w g"
    by (auto simp: known_def has_active_run_count)
  moreover have "active_count phase g (stored w) \<le> known name now owed runs w g + foreign w g"
    using assms by (simp add: covered_def)
  ultimately show "active_count phase g (stored w) \<le> known name now owed (runs @ rs) w g + foreign w g"
    by linarith
qed

abbreviation covers :: "string \<Rightarrow> time \<Rightarrow> 'w loop_state \<Rightarrow> bool" where
  "covers name now s \<equiv> covered name now {} (ls_runs s) (ls_world s)"

text \<open>
  An attempt leaves at most one active run; when the loop goes on, what was created is
  known to it or its key is held.
\<close>

lemma attempt_create_covered:
  assumes "covers (target_name tgt) now s" and r: "run_conditions p = []" "\<not> has_active_run phase fp (ls_runs s)"
    and fp: "run_group p = fp" and "attempt_create env tgt now n f fp p s = (c, s')"
  shows "one_active (ls_world s') \<and> (c = NextAlert \<longrightarrow> covers (target_name tgt) now s')"
proof -
  let ?n = "target_name tgt" and ?key = "creation_backoff_key (target_name tgt) fp"
  obtain w1 prev where g: "env_backoff_get env (ls_world s) ?key = (w1, prev)" by fastforce
  obtain w2 b where b: "env_in_backoff env w1 ?key now = (w2, b)" by fastforce
  obtain w3 q res where cr: "env_create_run env w2 p = (w3, q, res)" by (metis prod_cases3)
  have c1: "covered ?n now {} (ls_runs s) w1"
    using covered_calm [OF assms(1)] backoff_get_calm [of "ls_world s" ?key] g by simp
  have calm2: "calm phase stored foreign held w1 w2" using in_backoff_calm [of w1 ?key now] b by simp
  have c2: "covered ?n now {} (ls_runs s) w2" using covered_calm [OF c1 calm2] .
  note run = assms(5) [unfolded attempt_create_def, simplified g b cr Let_def prod.case]
  show ?thesis
  proof (cases b)
    case True
    with run c2 show ?thesis by (auto simp: skip_alert_def add_log_def intro: covered_one_active)
  next
    case b: False
    then have "\<not> held w1 ?key now" using in_backoff_held [of w1 ?key now] \<open>env_in_backoff env w1 ?key now = (w2, b)\<close> by auto
    then have "known ?n now {} (ls_runs s) w1 fp = 0" using r(2) by (simp add: known_def)
    with c1 have "bare fp w1" unfolding covered_def bare_def by (metis add_0)
    then have bare2: "bare fp w2" using calm2 by (rule bare_calm)
    have keep: "keeps held w2 w3" using create_keeps [OF cr] .
    show ?thesis
    proof (cases res)
      case (Inl err)
      have c3: "covered ?n now {fp} (ls_runs s) w3"
        using covered_create [OF c2 bare2 _ keep] create_failed [OF cr [unfolded Inl]] fp by simp
      obtain w4 x where x: "env_ctx_err env w3 = (w4, x)" by fastforce
      have c4: "covered ?n now {fp} (ls_runs s) w4"
        using covered_calm [OF c3] ctx_err_calm [of w3] x by simp
      let ?w5 = "env_backoff_next env w4 ?key now"
      obtain w6 cur where g6: "env_backoff_get env ?w5 ?key = (w6, cur)" by fastforce
      have "covered ?n now {} (ls_runs s) ?w5"
        using covered_paid [OF covered_calm [OF c4 backoff_next_calm]] backoff_next_held by blast
      then have "covered ?n now {} (ls_runs s) w6"
        using covered_calm backoff_get_calm [of ?w5 ?key] g6 by simp
      with run b Inl x c4 g6 show ?thesis
        by (auto simp: add_log_def intro: covered_one_active split: if_splits)
    next
      case (Inr was)
      show ?thesis
      proof (cases was)
        case True
        have "env_create_run env w2 p = (w3, q, Inr True)" using cr Inr True by simp
        note new = create_new [OF this r(1)]
        have "covered ?n now {fp} (ls_runs s) w3"
          using covered_create [OF c2 bare2 _ keep] new fp by simp
        then have c3: "covered ?n now {fp} (ls_runs s @ [q]) w3" by (rule covered_more)
        have hq: "has_active_run phase fp (ls_runs s @ [q])"
          using new fp by (simp add: has_active_run_count)
        have "covered ?n now {} (ls_runs s @ [q]) w3" "covered ?n now {} (ls_runs s @ [q]) (env_backoff_reset env w3 ?key)"
          using covered_paid [OF c3] covered_paid [OF covered_paid [OF covered_reset [OF c3]]] hq by simp_all
        with run b Inr True show ?thesis
          by (auto simp: add_log_def intro: covered_one_active split: if_splits)
      next
        case False
        have calm3: "calm phase stored foreign held w2 w3"
          using create_exists cr Inr False by simp
        have c3: "covered ?n now {} (ls_runs s) w3" using covered_calm [OF c2 calm3] .
        have "bare fp (env_backoff_reset env w3 ?key)"
          using bare_drift [OF bare_calm [OF bare2 calm3] backoff_reset_drift] .
        then have "covered ?n now {} (ls_runs s) (env_backoff_reset env w3 ?key)"
          using covered_paid [OF covered_reset [OF c3]] by blast
        with run b Inr False c3 show ?thesis
          by (auto simp: add_log_def intro: covered_one_active split: if_splits)
      qed
    qed
  qed
qed

lemma reconcile_alert_covered:
  assumes "covers (target_name tgt) now s" and "reconcile_alert env phase cfg tgt now a s = (c, s')"
  shows "one_active (ls_world s') \<and> (c = NextAlert \<longrightarrow> covers (target_name tgt) now s')"
proof -
  let ?w = "fst (env_ctx_err env (ls_world s))"
  have c: "covered (target_name tgt) now {} (ls_runs s) ?w"
    by (rule covered_calm [OF assms(1) ctx_err_calm])
  note o = covered_one_active [OF c]
  from assms(2) show ?thesis
  proof (cases rule: reconcile_alert_cases)
    case (attempted al p n f)
    note rf = ready_facts [OF attempted(1)]
    show ?thesis
      by (rule attempt_create_covered [OF _ rf(2) _ rf(1) attempted(2) [symmetric]]) (use c rf in simp_all)
  qed (use c o in \<open>simp_all add: skip_alert_def add_log_def\<close>)
qed

lemma reconcile_alerts_covered:
  "covers (target_name tgt) now s \<Longrightarrow>
   one_active (ls_world (snd (reconcile_alerts env phase cfg tgt now as s)))"
proof (induction as arbitrary: s)
  case Nil
  then show ?case by (simp add: covered_one_active)
next
  case (Cons a as)
  obtain c s' where r: "reconcile_alert env phase cfg tgt now a s = (c, s')" by fastforce
  from reconcile_alert_covered [OF Cons.prems r] Cons.IH [of s'] r show ?case
    by (cases c) auto
qed

text \<open>A whole reconciliation keeps at most one active run per group beyond the foreign ones.\<close>

lemma reconcile_target_one_active:
  assumes "one_active w"
  shows "one_active (ls_world (snd (reconcile_target env phase cfg tgt w)))"
proof -
  obtain w1 x where a: "env_get_alerts env w = (w1, x)" by fastforce
  have o1: "one_active w1" using one_active_calm [OF assms, of w1] alerts_calm [of w] a by simp
  show ?thesis
  proof (cases x)
    case (Inl e)
    with a o1 show ?thesis by (simp add: reconcile_target_def)
  next
    case x: (Inr alerts)
    obtain w2 y where l: "env_list_runs env w1 = (w2, y)" by fastforce
    have o2: "one_active w2" using one_active_calm [OF o1, of w2] list_calm [of w1] l by simp
    show ?thesis
    proof (cases y)
      case (Inl e)
      with a x l o2 show ?thesis by (simp add: reconcile_target_def)
    next
      case (Inr runs)
      obtain w3 now where n: "env_now env w2 = (w3, now)" by fastforce
      have "runs = stored w2" using list_snapshot l Inr by simp
      then have "active_count phase g (stored w2) \<le> known (target_name tgt) now {} runs w2 g + foreign w2 g" for g
        using o2 [unfolded one_active_def, rule_format, of g]
        by (cases "active_count phase g runs") (auto simp: known_def has_active_run_count)
      then have "covered (target_name tgt) now {} runs w2" by (simp add: covered_def)
      then have "covered (target_name tgt) now {} runs w3"
        using covered_calm now_calm [of w2] n by simp
      then have "covers (target_name tgt) now (loop_start w3 runs)" by (simp add: loop_start_def)
      from reconcile_alerts_covered [OF this, of cfg alerts] a x l Inr n show ?thesis
        by (auto simp: reconcile_target_def split: prod.splits control.splits)
    qed
  qed
qed

end

end
