(* ===== verification/Run_Lifecycle.thy ===== *)
theory Run_Lifecycle
  imports Run_Store Run_Client
begin

text \<open>
  The loop, the client of theory \<^verbatim>\<open>Run_Client\<close> and a cluster, composed.

  The API server is a reference model of its documented behaviour: a list returns the objects
  of the namespace that carry the labels, a create refuses a name that exists in the
  namespace. A call is served, or fails without effect (\<^verbatim>\<open>cluster_api\<close>), or a create takes
  effect and only its reply is lost (\<^verbatim>\<open>lossy_api\<close>), as a timeout may leave it.

  Every call first lets one \<^verbatim>\<open>happening\<close> of a script occur: others (the operator, a user,
  another replica) update, delete or create any run, the call fails, the context is
  cancelled, the backoff table answers. Nothing restricts what others do; \<^verbatim>\<open>sys_foreign\<close>
  counts per group the runs they activate: those they create in a phase that is not terminal,
  take back from a terminal phase, or bring into the group. As the scripts are arbitrary, so
  is the interleaving with the calls of the loop.

  Of client-go's backoff table one thing is used: at the instant a key was advanced with, and
  until it is reset, the table answers that the key is blocked. \<^verbatim>\<open>with_pending\<close> states of
  \<^verbatim>\<open>DerivePhase\<close> that a run without conditions is pending.
\<close>

section \<open>A cluster\<close>

definition has_labels :: "gomap \<Rightarrow> agentic_run \<Rightarrow> bool" where
  "has_labels labels r \<longleftrightarrow> list_all (\<lambda>(k, v). gomap_lookup (run_labels r) k = Some v) labels"

definition cluster_list ::
  "bool \<Rightarrow> agentic_run list \<Rightarrow> string \<Rightarrow> gomap \<Rightarrow> agentic_run list \<times> (api_error + agentic_run list)" where
  "cluster_list fault rs ns labels =
     (rs, if fault then Inl (OtherApiError ''unavailable'')
          else Inr (filter (\<lambda>r. run_namespace r = ns \<and> has_labels labels r) rs))"

definition name_taken :: "agentic_run list \<Rightarrow> agentic_run \<Rightarrow> bool" where
  "name_taken rs p \<longleftrightarrow>
     list_ex (\<lambda>r. run_namespace r = run_namespace p \<and> run_name r = run_name p) rs"

definition cluster_create ::
  "bool \<Rightarrow> agentic_run list \<Rightarrow> agentic_run \<Rightarrow> agentic_run list \<times> agentic_run \<times> api_error option" where
  "cluster_create fault rs p =
     (if fault then (rs, p, Some (OtherApiError ''unavailable''))
      else if name_taken rs p then (rs, p, Some AlreadyExists)
      else (rs @ [p], p, None))"

definition cluster_api :: "bool \<Rightarrow> agentic_run list k8s_client" where
  "cluster_api fault = \<lparr>k8s_list = cluster_list fault, k8s_create = cluster_create fault\<rparr>"

definition cluster_create_lost ::
  "agentic_run list \<Rightarrow> agentic_run \<Rightarrow> agentic_run list \<times> agentic_run \<times> api_error option" where
  "cluster_create_lost rs p =
     (if name_taken rs p then rs else rs @ [p], p, Some (OtherApiError ''timeout''))"

definition lossy_api :: "agentic_run list k8s_client" where
  "lossy_api = \<lparr>k8s_list = cluster_list True, k8s_create = cluster_create_lost\<rparr>"

text \<open>The runs a client is responsible for.\<close>

definition visible :: "run_client \<Rightarrow> agentic_run \<Rightarrow> bool" where
  "visible c r \<longleftrightarrow> run_namespace r = rc_namespace c \<and> has_labels (list_labels c) r \<and>
     (rc_target c = '''' \<longrightarrow> unscoped r)"

lemma list_agentic_runs_cluster:
  "list_agentic_runs (cluster_api fault) c rs =
     (rs, if fault then Inl (ListingRuns (OtherApiError ''unavailable'')) else Inr (filter (visible c) rs))"
  by (auto simp: list_agentic_runs_def cluster_api_def cluster_list_def visible_def filter_filter
      intro!: filter_cong)

lemma create_agentic_run_cluster:
  "create_agentic_run (cluster_api fault) c rs p =
     (let q = scope_run c p in
      if fault then (rs, q, Inl (CreatingRun (run_namespace q) (run_name q) (OtherApiError ''unavailable'')))
      else if name_taken rs q then (rs, q, Inr False)
      else (rs @ [q], q, Inr True))"
  by (simp add: create_agentic_run_def cluster_api_def cluster_create_def Let_def)

lemma lossy_api_calls:
  "list_agentic_runs lossy_api c rs = (rs, Inl (ListingRuns (OtherApiError ''unavailable'')))"
  "create_agentic_run lossy_api c rs p =
     (let q = scope_run c p in
      (if name_taken rs q then rs else rs @ [q], q,
       Inl (CreatingRun (run_namespace q) (run_name q) (OtherApiError ''timeout''))))"
  by (simp_all add: list_agentic_runs_def create_agentic_run_def lossy_api_def cluster_list_def
      cluster_create_lost_def Let_def)

lemma scope_run_simps [simp]:
  "run_group (scope_run c p) = run_group p" "run_conditions (scope_run c p) = run_conditions p"
  "run_name (scope_run c p) = run_name p" "run_namespace (scope_run c p) = run_namespace p"
  by (simp_all add: scope_run_def run_group_def label_spoke_cluster_def label_dedup_fingerprint_def)

section \<open>The system\<close>

datatype happening =
    Quiet
  | UpdateRun agentic_run                       \<comment> \<open>replaces the object of this name\<close>
  | DeleteRun string string                     \<comment> \<open>namespace, name\<close>
  | OtherCreate agentic_run
  | ApiFault
  | LostReply
  | CancelNow
  | InBackoff duration
  | Clock time

record sys =
  sys_cluster :: "agentic_run list"
  sys_script :: "happening list"
  sys_alerts :: "alert option list"
  sys_foreign :: "string \<Rightarrow> nat"
  sys_held :: "(string \<times> time) list"

definition with_pending :: "phase_fun \<Rightarrow> phase_fun" where
  "with_pending phase cs = (if cs = [] then OtherPhase ''Pending'' else phase cs)"

definition same_object :: "agentic_run \<Rightarrow> agentic_run \<Rightarrow> bool" where
  "same_object r x \<longleftrightarrow> run_namespace x = run_namespace r \<and> run_name x = run_name r"

fun happen :: "happening \<Rightarrow> agentic_run list \<Rightarrow> agentic_run list" where
  "happen (UpdateRun r) rs = map (\<lambda>x. if same_object r x then r else x) rs"
| "happen (DeleteRun ns n) rs = filter (\<lambda>x. run_namespace x \<noteq> ns \<or> run_name x \<noteq> n) rs"
| "happen (OtherCreate r) rs = (if name_taken rs r then rs else rs @ [r])"
| "happen _ rs = rs"

text \<open>An active run of the group for the client, and how many of them others activate.\<close>

definition active_in :: "phase_fun \<Rightarrow> run_client \<Rightarrow> string \<Rightarrow> agentic_run \<Rightarrow> bool" where
  "active_in phase c g r \<longleftrightarrow> visible c r \<and> run_group r = g \<and> active phase r"

fun activated :: "phase_fun \<Rightarrow> run_client \<Rightarrow> happening \<Rightarrow> agentic_run list \<Rightarrow> string \<Rightarrow> nat" where
  "activated phase c (UpdateRun r) rs g =
     (if active_in phase c g r
      then length (filter (\<lambda>x. same_object r x \<and> \<not> active_in phase c g x) rs) else 0)"
| "activated phase c (OtherCreate r) rs g =
     (if \<not> name_taken rs r \<and> active_in phase c g r then 1 else 0)"
| "activated phase c _ rs g = 0"

fun step_script :: "phase_fun \<Rightarrow> run_client \<Rightarrow> sys \<Rightarrow> happening \<times> sys" where
  "step_script phase c w =
     (case sys_script w of
        [] \<Rightarrow> (Quiet, w)
      | h # hs \<Rightarrow>
          (h, w\<lparr>sys_cluster := happen h (sys_cluster w), sys_script := hs,
                sys_foreign := (\<lambda>g. sys_foreign w g + activated phase c h (sys_cluster w) g)\<rparr>))"

definition backoff_answer :: "happening \<Rightarrow> duration" where
  "backoff_answer h = (case h of InBackoff d \<Rightarrow> d | _ \<Rightarrow> 0)"

definition clock_answer :: "happening \<Rightarrow> time" where
  "clock_answer h = (case h of Clock t \<Rightarrow> t | _ \<Rightarrow> 0)"

definition api_of :: "happening \<Rightarrow> agentic_run list k8s_client" where
  "api_of h = (if h = LostReply then lossy_api else cluster_api (h = ApiFault))"

definition sys_env :: "phase_fun \<Rightarrow> run_client \<Rightarrow> sys env" where
  "sys_env phase c =
     \<lparr>env_get_alerts = \<lambda>w. (let (h, w) = step_script phase c w in
        (w, if h = ApiFault \<or> h = LostReply then Inl (QueryingAlerts ''unavailable'') else Inr (sys_alerts w))),
      env_list_runs = \<lambda>w. (let (h, w) = step_script phase c w;
          (rs, res) = list_agentic_runs (api_of h) c (sys_cluster w)
        in (w\<lparr>sys_cluster := rs\<rparr>, res)),
      env_create_run = \<lambda>w p. (let (h, w) = step_script phase c w;
          (rs, q, res) = create_agentic_run (api_of h) c (sys_cluster w) p
        in (w\<lparr>sys_cluster := rs\<rparr>, q, res)),
      env_ctx_err = \<lambda>w. (let (h, w) = step_script phase c w in (w, h = CancelNow)),
      env_now = \<lambda>w. (let (h, w) = step_script phase c w in (w, clock_answer h)),
      env_backoff_get = \<lambda>w k. (let (h, w) = step_script phase c w in (w, backoff_answer h)),
      env_in_backoff = \<lambda>w k t. (let (h, w) = step_script phase c w in
        (w, (k, t) \<in> set (sys_held w) \<or> 0 < backoff_answer h)),
      env_backoff_next = \<lambda>w k t. (let (h, w) = step_script phase c w in
        w\<lparr>sys_held := (k, t) # sys_held w\<rparr>),
      env_backoff_reset = \<lambda>w k. (let (h, w) = step_script phase c w in
        w\<lparr>sys_held := filter (\<lambda>(k', t). k' \<noteq> k) (sys_held w)\<rparr>)\<rparr>"

section \<open>The contract holds\<close>

definition stored_runs :: "run_client \<Rightarrow> sys \<Rightarrow> agentic_run list" where
  "stored_runs c w = filter (visible c) (sys_cluster w)"

definition sys_blocked :: "sys \<Rightarrow> string \<Rightarrow> time \<Rightarrow> bool" where
  "sys_blocked w k t \<longleftrightarrow> (k, t) \<in> set (sys_held w)"

abbreviation sys_drift ::
  "phase_fun \<Rightarrow> run_client \<Rightarrow> (string \<Rightarrow> nat) \<Rightarrow> sys \<Rightarrow> sys \<Rightarrow> bool" where
  "sys_drift phase c \<equiv> drift phase (stored_runs c) sys_foreign"

abbreviation sys_calm :: "phase_fun \<Rightarrow> run_client \<Rightarrow> sys \<Rightarrow> sys \<Rightarrow> bool" where
  "sys_calm phase c \<equiv> calm phase (stored_runs c) sys_foreign sys_blocked"

lemma active_count_stored:
  "active_count phase g (filter (visible c) rs) = length (filter (active_in phase c g) rs)"
  by (auto simp: active_count_def active_in_def intro!: arg_cong [where f = length] filter_cong)

lemma happen_activated:
  "length (filter (active_in phase c g) (happen h rs)) \<le>
     length (filter (active_in phase c g) rs) + activated phase c h rs g"
proof (cases h)
  case (UpdateRun r)
  show ?thesis unfolding UpdateRun by (induction rs) auto
next
  case (DeleteRun ns n)
  show ?thesis unfolding DeleteRun by (induction rs) auto
qed simp_all

lemma step_script_facts:
  assumes "step_script phase c w = (h, v)"
  shows "sys_calm phase c w v" and "sys_held v = sys_held w"
proof -
  show "sys_held v = sys_held w" using assms by (auto split: list.splits)
  show "sys_calm phase c w v"
  proof (cases "sys_script w")
    case Nil
    with assms show ?thesis by (simp add: calm_def drift_def keeps_def)
  next
    case (Cons h' hs)
    with assms have v: "h' = h" "v = w\<lparr>sys_cluster := happen h (sys_cluster w), sys_script := hs,
        sys_foreign := (\<lambda>g. sys_foreign w g + activated phase c h (sys_cluster w) g)\<rparr>"
      by auto
    show ?thesis using happen_activated [of phase c _ h "sys_cluster w"]
      by (simp add: calm_def drift_def keeps_def v(2) stored_runs_def active_count_stored sys_blocked_def add.commute)
  qed
qed

text \<open>A create adds at most one run, of the group of its argument.\<close>

lemma sys_drift_added:
  assumes "sys_calm phase c w v"
  shows "sys_drift phase c (one_of (run_group p)) w
    (v\<lparr>sys_cluster := if b then sys_cluster v else sys_cluster v @ [scope_run c p]\<rparr>)"
    (is "sys_drift _ _ _ _ ?v")
  unfolding drift_def
proof
  fix g
  have "active_count phase g (filter (visible c) [scope_run c p]) \<le> one_of (run_group p) g"
    by (simp add: one_of_def)
  then have "active_count phase g (stored_runs c ?v) \<le>
      active_count phase g (stored_runs c v) + one_of (run_group p) g"
    by (simp add: stored_runs_def)
  moreover have "sys_foreign w g \<le> sys_foreign v g"
    "active_count phase g (stored_runs c v) + sys_foreign w g \<le>
      active_count phase g (stored_runs c w) + sys_foreign v g"
    using assms by (simp_all add: calm_def drift_def)
  moreover have "sys_foreign ?v g = sys_foreign v g" by simp
  ultimately show "sys_foreign w g \<le> sys_foreign ?v g \<and>
      active_count phase g (stored_runs c ?v) + sys_foreign w g \<le>
      one_of (run_group p) g + active_count phase g (stored_runs c w) + sys_foreign ?v g"
    by linarith
qed

lemma active_with_pending: "run_conditions p = [] \<Longrightarrow> active (with_pending phase) p"
  by (simp add: active_def with_pending_def is_terminal_def)

text \<open>What the calls of the client on the cluster of the system answer.\<close>

lemma sys_list:
  assumes "step_script phase c w = (h, v)"
  shows "env_list_runs (sys_env phase c) w = (v,
    if h = ApiFault \<or> h = LostReply then Inl (ListingRuns (OtherApiError ''unavailable''))
    else Inr (stored_runs c v))"
  using assms
  by (simp add: sys_env_def api_of_def list_agentic_runs_cluster lossy_api_calls stored_runs_def
      del: step_script.simps)

lemma sys_create_cases:
  assumes "step_script phase c w = (h, v)" and "env_create_run (sys_env phase c) w p = (w', q, res)"
  obtains (failed) e where "res = Inl e" "w' = v"
    | (lost) e b where "res = Inl e"
      "w' = v\<lparr>sys_cluster := if b then sys_cluster v else sys_cluster v @ [scope_run c p]\<rparr>"
    | (exists) "res = Inr False" "w' = v"
    | (created) "res = Inr True" "q = scope_run c p"
      "w' = v\<lparr>sys_cluster := if False then sys_cluster v else sys_cluster v @ [scope_run c p]\<rparr>"
proof -
  let ?q = "scope_run c p"
  have e: "(case create_agentic_run (api_of h) c (sys_cluster v) p of
      (rs, q, res) \<Rightarrow> (v\<lparr>sys_cluster := rs\<rparr>, q, res)) = (w', q, res)"
    using assms by (simp add: sys_env_def del: step_script.simps)
  show thesis
  proof (cases "h = LostReply")
    case True
    with e show thesis
      by (intro lost [of _ "name_taken (sys_cluster v) ?q"])
        (auto simp: api_of_def lossy_api_calls Let_def)
  next
    case lr: False
    show thesis
    proof (cases "h = ApiFault")
      case True
      with e lr show thesis by (intro failed) (auto simp: api_of_def create_agentic_run_cluster Let_def)
    next
      case False
      with e lr show thesis
        by (cases "name_taken (sys_cluster v) ?q", intro exists)
          (auto simp: api_of_def create_agentic_run_cluster Let_def intro: created)
    qed
  qed
qed

interpretation lifecycle: run_store "sys_env (with_pending phase) c" "with_pending phase" "stored_runs c"
  sys_foreign sys_blocked
  for phase c
proof unfold_locales
  let ?ph = "with_pending phase" and ?e = "sys_env (with_pending phase) c"
  fix w w' :: sys and k k' t rs p q res err
  obtain h v where s: "step_script ?ph c w = (h, v)" by fastforce
  note v = step_script_facts [OF s]
  note env = sys_env_def s
  have d: "sys_drift ?ph c (\<lambda>_. 0) w v" using v(1) by (simp add: calm_def)
  have held: "sys_calm ?ph c w (v\<lparr>sys_held := (k, t) # sys_held v\<rparr>)"
    using v(1) by (auto simp: calm_def drift_def keeps_def stored_runs_def sys_blocked_def)
  show "sys_calm ?ph c w (fst (env_get_alerts ?e w))" "sys_calm ?ph c w (fst (env_ctx_err ?e w))"
    "sys_calm ?ph c w (fst (env_now ?e w))" "sys_calm ?ph c w (fst (env_backoff_get ?e w k))"
    "sys_calm ?ph c w (fst (env_in_backoff ?e w k t))" "sys_calm ?ph c w (env_backoff_next ?e w k t)"
    using v(1) held by (simp_all add: env del: step_script.simps)
  show "sys_calm ?ph c w (fst (env_list_runs ?e w))"
    using v(1) by (simp add: sys_list [OF s])
  show "sys_blocked w k t \<Longrightarrow> snd (env_in_backoff ?e w k t)" "sys_blocked (env_backoff_next ?e w k t) k t"
    using v(2) by (simp_all add: env sys_blocked_def del: step_script.simps)
  show "sys_drift ?ph c (\<lambda>_. 0) w (env_backoff_reset ?e w k)"
    using d by (simp add: env drift_def stored_runs_def del: step_script.simps)
  show "sys_blocked w k' t \<Longrightarrow> k' \<noteq> k \<Longrightarrow> sys_blocked (env_backoff_reset ?e w k) k' t"
    using v(2) by (simp add: env sys_blocked_def del: step_script.simps)
  show "rs = stored_runs c w'" if "env_list_runs ?e w = (w', Inr rs)"
    using that by (auto simp: sys_list [OF s] split: if_splits)
  show "sys_calm ?ph c w w'" if "env_create_run ?e w p = (w', q, Inr False)"
    using s that by (cases rule: sys_create_cases) (use v(1) in auto)
  show "keeps sys_blocked w w'" if "env_create_run ?e w p = (w', q, res)"
    using s that by (cases rule: sys_create_cases) (use v(2) in \<open>auto simp: keeps_def sys_blocked_def\<close>)
  show "sys_drift ?ph c (one_of (run_group p)) w w'" if "env_create_run ?e w p = (w', q, Inl err)"
    using s that
  proof (cases rule: sys_create_cases)
    case failed
    with drift_weaken [OF d] show ?thesis by simp
  next
    case (lost e b)
    then show ?thesis using sys_drift_added [OF v(1), of p b] by simp
  qed simp_all
  show "run_group q = run_group p \<and> active ?ph q \<and> sys_drift ?ph c (one_of (run_group p)) w w'"
    if "env_create_run ?e w p = (w', q, Inr True)" "run_conditions p = []"
    using s that(1)
  proof (cases rule: sys_create_cases)
    case created
    then show ?thesis using sys_drift_added [OF v(1), of p False] that(2)
      by (simp add: active_with_pending)
  qed simp_all
qed

section \<open>Targets do not see each other's runs\<close>

lemma visible_target:
  assumes "visible c r" and "rc_target c \<noteq> rc_target c'"
  shows "\<not> visible c' r"
proof -
  have "gomap_lookup (run_labels r) label_spoke_cluster =
      (if rc_target c = '''' then None else Some (rc_target c))" if "visible c r" for c
    using that by (auto simp: visible_def list_labels_def unscoped_def has_labels_def Let_def gomap_put_def
        label_source_def label_spoke_cluster_def split: if_splits)
  from this [of c] this [of c'] assms show ?thesis by (auto split: if_splits)
qed

lemma visible_scope_run:
  assumes "run_namespace p = rc_namespace c" and "gomap_lookup (run_labels p) label_source = Some source_value"
    and "unscoped p"
  shows "visible c (scope_run c p)"
  using assms
  by (auto simp: visible_def list_labels_def scope_run_def unscoped_def has_labels_def Let_def gomap_put_def
      update_conv' gomap_lookup_def label_source_def label_spoke_cluster_def)

text \<open>
  C9. A run built and created for one target is listed for that target and for no other:
  the listing of a client with another target is unchanged, also between the hub of a
  single-cluster installation and scoped targets.
\<close>

theorem created_runs_isolated:
  assumes "build_for_target a tools agent ign (rc_namespace c) tid tc = Ok p"
    and "create_agentic_run (cluster_api False) c rs p = (rs', q, Inr True)"
    and "rc_target c \<noteq> rc_target c'"
  shows "list_agentic_runs (cluster_api False) c rs' = (rs', Inr (filter (visible c) rs @ [q])) \<and>
    list_agentic_runs (cluster_api False) c' rs' = (rs', Inr (filter (visible c') rs))"
proof -
  have p: "run_namespace p = rc_namespace c" "gomap_lookup (run_labels p) label_source = Some source_value"
    "unscoped p"
    using assms(1)
    by (auto simp: build_for_target_def Let_def bind_outcome_Ok_iff build_labels_def unscoped_def
        label_defs label_spoke_cluster_def split: option.splits)
  have q: "q = scope_run c p" "rs' = rs @ [q]"
    using assms(2) by (auto simp: create_agentic_run_cluster Let_def split: if_splits)
  have "visible c q" unfolding q(1) by (rule visible_scope_run [OF p])
  with visible_target [OF this assms(3)] q(2) show ?thesis by (simp add: list_agentic_runs_cluster)
qed

theorem created_runs_isolated_witness:
  "\<exists>p q. build_for_target sample_alert \<lparr>tools_shared = []\<rparr> no_agent [] ''ns'' ''spoke-a'' ''a'' = Ok p \<and>
     list_agentic_runs (cluster_api False) (new_client ''ns'' ''local'') [q] = ([q], Inr [])"
proof -
  have "alert_fingerprint sample_alert = Some ''0123456789''" "alert_starts_at sample_alert = Some 0"
    by (simp_all add: sample_alert_def)
  from build_for_target_Ok_ex [OF this] obtain p where
    p: "build_for_target sample_alert \<lparr>tools_shared = []\<rparr> no_agent [] ''ns'' ''spoke-a'' ''a'' = Ok p"
    by blast
  let ?c = "new_client ''ns'' ''spoke-a''"
  have p': "build_for_target sample_alert \<lparr>tools_shared = []\<rparr> no_agent [] (rc_namespace ?c) ''spoke-a'' ''a'' = Ok p"
    using p by (simp add: new_client_def)
  have c: "create_agentic_run (cluster_api False) ?c [] p = ([scope_run ?c p], scope_run ?c p, Inr True)"
    by (simp add: create_agentic_run_cluster name_taken_def Let_def)
  from created_runs_isolated [OF p' c, of "new_client ''ns'' ''local''"] p show ?thesis
    by (auto simp: new_client_def)
qed

section \<open>One active run per group\<close>

text \<open>Any number of reconciliations, each with its alerts and its script.\<close>

fun sys_cycles ::
  "phase_fun \<Rightarrow> run_client \<Rightarrow> config \<Rightarrow> target \<Rightarrow> (alert option list \<times> happening list) list \<Rightarrow> sys \<Rightarrow> sys" where
  "sys_cycles phase c cfg tgt [] w = w"
| "sys_cycles phase c cfg tgt ((alerts, script) # inputs) w =
     sys_cycles phase c cfg tgt inputs
       (ls_world (snd (reconcile_target (sys_env phase c) phase cfg tgt
          (w\<lparr>sys_alerts := alerts, sys_script := script\<rparr>))))"

text \<open>
  C1. Poll loop and run client of one target on a cluster, with others (operator, users,
  another replica) free to update, delete and create any run between any two calls, and
  calls that fail before or after they took effect: from at most one active run per group,
  no sequence of reconciliations ever leaves a group with more active runs than one plus
  the number that others activated in it, by creating them, taking them back from a
  terminal phase or moving them into the group. So without such interference there are
  never two, and the loop never adds a second run itself, not even after a creation whose
  reply was lost. Assumed: a request takes effect during its call or not at all, the
  backoff table answers that a key is blocked at the instant it was advanced with until
  the target itself resets it, and a run without conditions is not terminal.
\<close>

theorem one_active_run_per_group:
  assumes "\<And>g. active_count (with_pending phase) g (stored_runs c w) \<le> 1" and "sys_foreign w = (\<lambda>_. 0)"
  shows "active_count (with_pending phase) g
      (stored_runs c (sys_cycles (with_pending phase) c cfg tgt inputs w)) \<le>
    1 + sys_foreign (sys_cycles (with_pending phase) c cfg tgt inputs w) g"
proof -
  have "lifecycle.one_active phase c w \<Longrightarrow>
      lifecycle.one_active phase c (sys_cycles (with_pending phase) c cfg tgt inputs w)"
  proof (induction inputs arbitrary: w)
    case (Cons i inputs)
    obtain alerts script where i: "i = (alerts, script)" by fastforce
    have "lifecycle.one_active phase c (w\<lparr>sys_alerts := alerts, sys_script := script\<rparr>)"
      using Cons.prems unfolding lifecycle.one_active_def by (simp add: stored_runs_def)
    from Cons.IH [OF lifecycle.reconcile_target_one_active [OF this]] i show ?case by simp
  qed simp
  with assms show ?thesis by (simp add: lifecycle.one_active_def)
qed

text \<open>
  Two alerts of a group, whose first create loses its reply, and a second cycle that fails.
\<close>

theorem one_active_run_per_group_witness:
  "active_count (with_pending (\<lambda>_. PhaseFailed)) (stable_fingerprint (alert_labels sample_alert) [])
     (stored_runs (new_client ''ns'' '''')
       (sys_cycles (with_pending (\<lambda>_. PhaseFailed)) (new_client ''ns'' '''') sample_config sample_target
          [([Some sample_alert, Some sample_alert], replicate 6 Quiet @ [LostReply]), ([Some sample_alert], [Quiet, ApiFault])]
          \<lparr>sys_cluster = [], sys_script = [], sys_alerts = [], sys_foreign = \<lambda>_. 0, sys_held = []\<rparr>)) \<le>
   1 + sys_foreign (sys_cycles (with_pending (\<lambda>_. PhaseFailed)) (new_client ''ns'' '''') sample_config sample_target
          [([Some sample_alert, Some sample_alert], replicate 6 Quiet @ [LostReply]), ([Some sample_alert], [Quiet, ApiFault])]
          \<lparr>sys_cluster = [], sys_script = [], sys_alerts = [], sys_foreign = \<lambda>_. 0, sys_held = []\<rparr>)
     (stable_fingerprint (alert_labels sample_alert) [])"
  by (rule one_active_run_per_group) (simp_all add: stored_runs_def)

end
