(* ===== verification/Spec2Isabelle.thy ===== *)
theory Spec2Isabelle
  imports Program_Main Run_Lifecycle
begin

text \<open>
  The alerts adapter of OpenShift Lightspeed (Go): a process with one replica that polls the
  Alertmanager of the hub cluster, and in multicluster mode those of spoke clusters, and
  creates one \<^verbatim>\<open>AgenticRun\<close> per group of firing alerts on the hub.

  \<^bold>\<open>The program and its model.\<close> Definitions keep the names of the functions in snake case.

  \<^item> \<^verbatim>\<open>internal/agenticrun/build.go\<close>, \<^verbatim>\<open>request.tmpl\<close>: theory \<^verbatim>\<open>Run_Build\<close> translates an alert
    into a run (name, labels, annotations, request text, group fingerprint). What holds of
    the parts is in \<^verbatim>\<open>Run_Names\<close> (names, retry names, label values), \<^verbatim>\<open>Run_Group\<close> (the
    fingerprint), \<^verbatim>\<open>Run_Prompt\<close> (the request) and \<^verbatim>\<open>Run_Assembly\<close> (the whole run).
  \<^item> \<^verbatim>\<open>internal/agenticrun/client.go\<close>: \<^verbatim>\<open>Run_Client\<close>, the identity of a spoke target and the
    client that lists and creates the runs of one target.
  \<^item> \<^verbatim>\<open>internal/adapter/adapter.go\<close>: \<^verbatim>\<open>Adapter\<close> has the decisions about an alert and the loop
    over the alerts of a target (\<^verbatim>\<open>reconcile_target\<close>); \<^verbatim>\<open>Adapter_Cycle\<close> has the suspension
    gate, the concurrent fan-out over the targets and the poll loop.
  \<^item> \<^verbatim>\<open>internal/config/config.go\<close>: \<^verbatim>\<open>Config\<close>, with \<^verbatim>\<open>time.ParseDuration\<close> in \<^verbatim>\<open>Go_Duration\<close>.
  \<^item> \<^verbatim>\<open>internal/alertmanager/client.go\<close>: \<^verbatim>\<open>Alertmanager_Client\<close>.
    \<^verbatim>\<open>internal/agenticolsconfig/client.go\<close>: \<^verbatim>\<open>Ols_Config\<close>.
  \<^item> \<^verbatim>\<open>internal/multicluster\<close>: \<^verbatim>\<open>Registry\<close> for \<^verbatim>\<open>registry.go\<close>, \<^verbatim>\<open>Spoke_Target\<close> for \<^verbatim>\<open>target.go\<close>
    and \<^verbatim>\<open>controller.go\<close>.
  \<^item> \<^verbatim>\<open>cmd/alerts-adapter/main.go\<close>: \<^verbatim>\<open>Kube_Setup\<close> has the construction of the Kubernetes
    client and the start of the controller manager, \<^verbatim>\<open>Program_Main\<close> everything else up to
    \<^verbatim>\<open>main\<close> itself (\<^verbatim>\<open>main_program\<close>).
  \<^item> Go and its standard library: \<^verbatim>\<open>Prelude\<close> (results of calls, Go maps), \<^verbatim>\<open>Unicode_Tables\<close>,
    \<^verbatim>\<open>Go_Strings\<close> (UTF-8, package strings), \<^verbatim>\<open>Go_Time\<close>, \<^verbatim>\<open>Go_Hash\<close> (varints, FNV-1a and
    SHA-256 on words). \<^verbatim>\<open>Api_Types\<close> has the data of the API modules and the errors.

  \<^bold>\<open>How the parts interact.\<close> The registry gives the poll cycle a snapshot of targets. A cycle
  reconciles each target in a goroutine, at most as many at once as the semaphore has tokens.
  A reconciliation reads the alerts and the runs of its target, filters each alert against
  the runs it knows, builds a run and creates it through the client; what it created joins
  the runs it knows. The controller changes the registry while cycles run.

  \<^bold>\<open>Interfaces.\<close> Three contracts are locales, each interpreted on the model. \<^verbatim>\<open>hex_digest\<close>
  is what names, labels and keys need of a digest; the occurrence hash, the group
  fingerprint and the suffix of a target identity satisfy it. \<^verbatim>\<open>run_store\<close> is what the
  loop needs of the store of runs; \<^verbatim>\<open>Run_Lifecycle\<close> shows it for the client of
  \<^verbatim>\<open>Run_Client\<close> on a reference model of the API server, where other parties may do anything
  to the runs between two calls and a call may fail before or after it took effect.
  \<^verbatim>\<open>Run_Store\<close> derives from it that a group has at most one active run beyond those that
  others activated; of the backoff table of client-go it needs that a key is blocked at the
  instant it was advanced with, until the target resets it.
  \<^verbatim>\<open>spoke_map\<close> is what the controller needs of the registry: a finite map.
  \<^verbatim>\<open>Adapter_Steps\<close> is the abstract specification of the loop as a relation of steps, which
  \<^verbatim>\<open>reconcile_target\<close> refines; \<^verbatim>\<open>Adapter_Reconcile\<close> proves the guarantees of the code from
  the invariants of the steps.

  \<^bold>\<open>What is outside.\<close> Code that is not in the repository is a parameter: the Kubernetes
  clients, the YAML decoder, URL and certificate parsing, files, the generated API client,
  \<^verbatim>\<open>DerivePhase\<close> of the operator and the backoff table of client-go. Calls to them go through
  records of functions on a state of the outside world that may change arbitrarily between
  two calls. Go maps are association lists, one order of iteration each; slices and
  strings are lists; an instant is a number of nanoseconds.

  \<^bold>\<open>Bounds.\<close> The retry search needs no fuel: it ends because the candidates are pairwise
  different and the existing names finitely many. It is shown not to panic for fewer than
  \<^verbatim>\<open>2 ^ 63\<close> names, the bound of a Go slice. Lengths that are hashed are below \<^verbatim>\<open>2 ^ 63\<close>.

  \<^bold>\<open>Not modelled.\<close> Log levels and the text of messages, metrics, flag parsing, signals,
  TLS beyond the choice of roots, and the test framework under \<^verbatim>\<open>test/e2e\<close>: they call
  libraries and decide nothing. The timeout of a target's context is one
  of the cancellations the environment may answer.

  This theory adds the property that spans configuration and poll loop.
\<close>

section \<open>Receivers\<close>

text \<open>
  C25. After loading a configuration an alert is skipped for its receivers exactly when
  none of their names equals a configured one up to case; filtering.allowedReceivers
  replaces the older top-level list, and without either every alert is skipped.
\<close>

theorem loaded_receivers_ignore_case:
  assumes "read_cfg path = FileData data" and "unmarshal unmarshal_yaml data = Inr cf"
    and "load_from_file read_cfg unmarshal getenv path = (cfg, err, logs)"
  shows "skip_receiver a (allowed_receivers cfg) =
    (case (filtering_allowed_receivers cf, file_allowed_receivers cf) of
       (None, None) \<Rightarrow> True
     | (None, Some raw) \<Rightarrow> to_lower ` set (receiver_names a) \<inter> to_lower ` set raw = {}
     | (Some raw, _) \<Rightarrow> to_lower ` set (receiver_names a) \<inter> to_lower ` set raw = {})"
proof -
  have "allowed_receivers cfg = normalized_receivers cf []"
    using assms apply_config_file_receivers [of cf "getenv agentic_skills_image_env" default_config]
    by (auto simp: load_from_file_def default_config_def Let_def split: prod.splits)
  moreover have "skip_receiver a rs = (to_lower ` set (receiver_names a) \<inter> set rs = {})" for rs
  proof -
    have "n \<in> set (receiver_names a) \<longleftrightarrow> (\<exists>r. Some r \<in> set (alert_receivers a) \<and> receiver_name r = Some n)" for n
      unfolding receiver_names_def in_set_map_filter by (auto split: option.splits)
    then show ?thesis unfolding skip_receiver_iff by auto
  qed
  ultimately show ?thesis
    by (auto simp: normalized_receivers_def split: option.split)
qed

definition receivers_file :: config_file where
  "receivers_file = (sample_file no_duration)\<lparr>file_allowed_receivers := Some [''A''],
     filtering_allowed_receivers := Some [''B'']\<rparr>"

theorem loaded_receivers_ignore_case_witness:
  "\<exists>cfg logs. load_from_file (\<lambda>_. FileData '''') (\<lambda>f d. Inr receivers_file) (\<lambda>_. '''') '''' = (cfg, None, logs) \<and>
     \<not> skip_receiver (sample_alert\<lparr>alert_receivers := [Some \<lparr>receiver_name = Some ''B''\<rparr>]\<rparr>) (allowed_receivers cfg)"
proof -
  obtain cfg logs where l: "load_from_file (\<lambda>_. FileData '''') (\<lambda>f d. Inr receivers_file) (\<lambda>_. '''') '''' =
      (cfg, None, logs)"
    by (cases "apply_config_file receivers_file '''' default_config") (simp add: load_from_file_def)
  from loaded_receivers_ignore_case [OF refl refl l,
      of "sample_alert\<lparr>alert_receivers := [Some \<lparr>receiver_name = Some ''B''\<rparr>]\<rparr>"]
  have "\<not> skip_receiver (sample_alert\<lparr>alert_receivers := [Some \<lparr>receiver_name = Some ''B''\<rparr>]\<rparr>) (allowed_receivers cfg)"
    by (simp add: receivers_file_def receiver_names_def map_filter_simps)
  with l show ?thesis by blast
qed

end
